(* ===== verification/Prelude.thy ===== *)
theory Prelude
  imports Main "HOL-Library.Char_ord" "HOL-Library.List_Lexorder"
    "HOL-Library.Product_Lexorder" "HOL-Library.Sublist" "HOL-Library.Multiset"
    "HOL-Library.Word"
begin

text \<open>
  The prelude: what the theories of the development share. It holds the collections of
  simplification rules, the result type of fallible Go functions, generic lemmas on lists
  and maps, and the interface of a step machine with an invariant, which every stateful
  component of the model implements.
\<close>

named_theorems go_defs "definitions of the Go library functions the model uses"
named_theorems frame_simps "fields that an operation leaves unchanged"

section \<open>Results and errors\<close>

text \<open>
  A Go function that returns a pair of a value and an \<open>error\<close> becomes a function into
  \<open>'a result\<close>: \<open>Inl\<close> carries the text of the error (what \<open>err.Error()\<close> returns),
  \<open>Inr\<close> the value. An operation that returns only an \<open>error\<close> returns \<open>string option\<close>,
  with \<open>None\<close> for \<open>nil\<close>.
\<close>

type_synonym 'a result = "string + 'a"
type_synonym go_error = "string option"

text \<open>
  The loop \<open>for _, x := range xs { if err := f(x); err != nil { return err } }\<close>, which
  stops at the first error and keeps the state reached there.
\<close>

fun each_until_error :: "('s \<Rightarrow> 'i \<Rightarrow> 's \<times> go_error) \<Rightarrow> 's \<Rightarrow> 'i list \<Rightarrow> 's \<times> go_error" where
  "each_until_error f s [] = (s, None)"
| "each_until_error f s (x # xs) =
     (case f s x of
        (s', Some err) \<Rightarrow> (s', Some err)
      | (s', None) \<Rightarrow> each_until_error f s' xs)"

lemma each_until_error_inv:
  assumes "\<And>s x. P s \<Longrightarrow> P (fst (f s x))" and "P s"
  shows "P (fst (each_until_error f s xs))"
  using assms(2)
proof (induction xs arbitrary: s)
  case (Cons x xs)
  then show ?case
    using assms(1) [of s x] by (auto split: prod.splits option.splits)
qed simp

lemma each_until_error_ok:
  "each_until_error f s (x # xs) = (s', None) \<longleftrightarrow>
    (\<exists>s1. f s x = (s1, None) \<and> each_until_error f s1 xs = (s', None))"
  by (auto split: prod.splits option.splits)

text \<open>
  The contract of a loop whose state is determined by the items handled so far, and whose
  next step succeeds exactly on a good item. Whether an item is good may depend on the items
  before it.
\<close>

locale judged_loop =
  fixes f :: "'s \<Rightarrow> 'i \<Rightarrow> 's \<times> go_error"
    and inv :: "'i list \<Rightarrow> 's \<Rightarrow> bool"
    and good :: "'i list \<Rightarrow> 'i \<Rightarrow> bool"
  assumes judged: "inv done s \<Longrightarrow>
    (case f s x of (s', None) \<Rightarrow> good done x \<and> inv (done @ [x]) s'
                 | (s', Some err) \<Rightarrow> \<not> good done x)"
begin

lemma from_here:
  "inv done s \<Longrightarrow>
    (case each_until_error f s xs of
       (s', None) \<Rightarrow> (\<forall>i < length xs. good (done @ take i xs) (xs ! i)) \<and> inv (done @ xs) s'
     | (s', Some err) \<Rightarrow> \<not> (\<forall>i < length xs. good (done @ take i xs) (xs ! i)))"
proof (induction xs arbitrary: s "done")
  case (Cons x xs)
  obtain s1 err where s1: "f s x = (s1, err)" by force
  have all: "(\<forall>i < length (x # xs). good (done @ take i (x # xs)) ((x # xs) ! i)) \<longleftrightarrow>
      good done x \<and> (\<forall>i < length xs. good ((done @ [x]) @ take i xs) (xs ! i))"
    by (auto simp: less_Suc_eq_0_disj)
  show ?case
  proof (cases err)
    case None
    with judged [OF Cons.prems, of x] s1 have ok: "good done x" "inv (done @ [x]) s1" by simp_all
    from Cons.IH [OF ok(2)] show ?thesis
      unfolding all using s1 None ok(1) by (auto split: prod.splits option.splits)
  next
    case (Some e)
    with judged [OF Cons.prems, of x] s1 show ?thesis unfolding all by simp
  qed
qed simp

lemma ends_well:
  assumes "inv [] s"
  shows "(\<exists>s'. each_until_error f s xs = (s', None)) \<longleftrightarrow> (\<forall>i < length xs. good (take i xs) (xs ! i))"
  using from_here [OF assms, of xs] by (auto split: prod.splits option.splits)

lemma inv_at_end: "inv [] s \<Longrightarrow> each_until_error f s xs = (s', None) \<Longrightarrow> inv xs s'"
  using from_here [of "[]" s xs] by simp

end

text \<open>
  The contract of a loop of which each step adds what belongs to its item: a relation on the
  states before and after, which says what the items in between have added, and which
  composes.
\<close>

locale traced_loop =
  fixes f :: "'s \<Rightarrow> 'i \<Rightarrow> 's \<times> go_error"
    and adds :: "'a list \<Rightarrow> 's \<Rightarrow> 's \<Rightarrow> bool"
    and trace :: "'i \<Rightarrow> 'a list"
  assumes adds_refl: "adds [] s s"
    and adds_trans: "adds xs s s1 \<Longrightarrow> adds ys s1 s2 \<Longrightarrow> adds (xs @ ys) s s2"
    and adds_step: "f s x = (s', None) \<Longrightarrow> adds (trace x) s s'"
begin

lemma loop_adds: "each_until_error f s xs = (s', None) \<Longrightarrow> adds (concat (map trace xs)) s s'"
proof (induction xs arbitrary: s)
  case (Cons x xs)
  then show ?case unfolding each_until_error_ok by (auto intro: adds_trans adds_step)
qed (simp add: adds_refl)

end

section \<open>Generic lemmas\<close>
lemma concat_map_singleton [simp]: "concat (map (\<lambda>c. [c]) s) = s"
  by (induction s) auto

lemma append_Cons_eq_split:
  "x \<notin> set xs \<Longrightarrow> x \<notin> set ys \<Longrightarrow> xs @ x # us = ys @ x # vs \<Longrightarrow> xs = ys \<and> us = vs"
  by (induction xs arbitrary: ys) (auto simp: Cons_eq_append_conv)

lemma sorted_distinct_strict:
  fixes xs :: "'a::linorder list"
  assumes "sorted xs" and "distinct xs"
  shows "sorted_wrt (<) xs"
  using assms by (simp add: strict_sorted_iff)

lemma distinct_map_mapD: "distinct (map f (map g xs)) \<Longrightarrow> distinct (map g xs)"
  by (metis distinct_map)

lemma sort_key_mset_cong:
  fixes f :: "'a \<Rightarrow> 'b::linorder"
  assumes eq: "mset xs = mset ys" and dist: "distinct (map f xs)"
  shows "sort_key f xs = sort_key f ys"
proof -
  from eq have eq': "mset (sort_key f xs) = mset (sort_key f ys)" by simp
  have "mset (map f (sort_key f zs)) = mset (map f zs)" for zs :: "'a list" by simp
  then have "distinct (map f (sort_key f xs))" and "distinct (map f (sort_key f ys))"
    using dist eq by (metis mset_eq_imp_distinct_iff mset_map)+
  then show ?thesis
    using mset_eq_setD [OF eq'] map_sorted_distinct_set_unique
      [of f "sort_key f xs" "sort_key f ys"]
    by (simp add: distinct_map)
qed

lemma foldl_frame:
  assumes "\<And>s m. f (g s m) = f s"
  shows "f (foldl g s ms) = f s"
  by (induction ms arbitrary: s) (simp_all add: assms)

section \<open>Claims on names: the first one wins\<close>

text \<open>
  A loader claims names one after the other. The contract: a name that has an owner is
  skipped without an error, a fresh name gets its claimant as owner, and a failed claim
  changes no owner. The lemma says what a whole loop of claims does to the owners.
\<close>

locale first_claim =
  fixes claim :: "'s \<Rightarrow> 'i \<Rightarrow> 's \<times> go_error"
    and name_of :: "'i \<Rightarrow> 'n"
    and origin_of :: "'i \<Rightarrow> 'o"
    and owner :: "'s \<Rightarrow> 'n \<rightharpoonup> 'o"
  assumes taken: "owner s (name_of i) = Some orig \<Longrightarrow>
      snd (claim s i) = None \<and> owner (fst (claim s i)) = owner s"
    and fresh: "owner s (name_of i) = None \<Longrightarrow> claim s i = (s', None) \<Longrightarrow>
      owner s' = (owner s)(name_of i \<mapsto> origin_of i)"
    and failed: "claim s i = (s', Some err) \<Longrightarrow> owner s' = owner s"
begin

lemma claim_ok:
  assumes "claim s i = (s', None)"
  shows "owner s' = [name_of i \<mapsto> origin_of i] ++ owner s"
proof (cases "owner s (name_of i)")
  case None
  with fresh [OF None assms] show ?thesis
    by (auto simp: map_add_def split: option.split)
next
  case (Some orig)
  with taken [OF Some] assms show ?thesis
    by (auto simp: map_add_def split: option.split)
qed

lemma claim_keeps: "owner s \<subseteq>\<^sub>m owner (fst (claim s i))"
proof (cases "claim s i")
  case (Pair s' e)
  then show ?thesis
    using claim_ok [of s i s'] failed [of s i s'] by (cases e) simp_all
qed

text \<open>The owners only grow, whether or not the loop fails.\<close>

lemma claims_keep: "owner s \<subseteq>\<^sub>m owner (fst (each_until_error claim s is))"
  by (rule each_until_error_inv [where P = "\<lambda>t. owner s \<subseteq>\<^sub>m owner t"])
    (auto intro: map_le_trans claim_keeps)

text \<open>Without an error every name is owned, by the first that claimed it.\<close>

lemma claims_ok:
  "each_until_error claim s is = (s', None) \<Longrightarrow>
    owner s' = map_of (map (\<lambda>i. (name_of i, origin_of i)) is) ++ owner s"
proof (induction "is" arbitrary: s)
  case (Cons i "is")
  from Cons.prems obtain s1 where s1: "claim s i = (s1, None)"
    and "each_until_error claim s1 is = (s', None)"
    unfolding each_until_error_ok by blast
  then have "owner s' = map_of (map (\<lambda>i. (name_of i, origin_of i)) is) ++ owner s1"
    by (intro Cons.IH)
  with claim_ok [OF s1] show ?case
    by (auto simp: map_add_def fun_eq_iff split: option.split)
qed simp

end

section \<open>Step machines with an invariant\<close>

text \<open>
  Every stateful component (the engine's table registry, a client session, the set of
  sessions) is a total step function on its state. \<open>inv_machine\<close> is the contract of such
  a component: each single step keeps the invariant. Its lemmas lift it to every run.
\<close>

locale inv_machine =
  fixes step :: "'s \<Rightarrow> 'm \<Rightarrow> 's"
    and inv :: "'s \<Rightarrow> bool"
  assumes step_inv: "inv s \<Longrightarrow> inv (step s m)"
begin

lemma run_inv: "inv s \<Longrightarrow> inv (foldl step s ms)"
  by (induction ms arbitrary: s) (auto intro: step_inv)

lemma prefix_inv: "inv s \<Longrightarrow> prefix ms' ms \<Longrightarrow> inv (foldl step s ms')"
  by (simp add: run_inv)

end

text \<open>
  A machine with a start state: every state reached from the start satisfies the invariant.
\<close>

locale started_machine = inv_machine +
  fixes start :: "'s"
  assumes start_inv: "inv start"
begin

lemma reachable_inv: "inv (foldl step start ms)"
  by (rule run_inv) (rule start_inv)

end

end
