(* ===== verification/GoStrings.thy ===== *)
theory GoStrings
  imports Prelude
begin

text \<open>
  The functions of Go's standard library on strings that the program calls. A Go string is
  a sequence of bytes, so it is a HOL \<open>string\<close>: a list of 8-bit characters.

  Case mapping and white space follow the Unicode rules Go follows, as far as an ASCII
  character can depend on them. \<open>ToUpper\<close> and \<open>ToLower\<close> map the ASCII letters and the
  four code points outside ASCII whose image is an ASCII letter; every other byte is copied
  (Go would map it to another byte that is not ASCII). The program compares the results with
  ASCII literals only. \<open>TrimSpace\<close> and \<open>Fields\<close> know every code point of
  \<open>unicode.IsSpace\<close> in its UTF-8 encoding; an encoding starts with a byte that never
  continues another one, so scanning bytes finds exactly the runes that Go finds.
\<close>

section \<open>Prefixes, searching, cutting\<close>

definition HasPrefix :: "string \<Rightarrow> string \<Rightarrow> bool" where
  "HasPrefix s p \<longleftrightarrow> take (length p) s = p"

definition HasSuffix :: "string \<Rightarrow> string \<Rightarrow> bool" where
  "HasSuffix s p \<longleftrightarrow> length p \<le> length s \<and> drop (length s - length p) s = p"

definition TrimSuffix :: "string \<Rightarrow> string \<Rightarrow> string" where
  "TrimSuffix s p = (if HasSuffix s p then take (length s - length p) s else s)"

fun Contains :: "string \<Rightarrow> string \<Rightarrow> bool" where
  "Contains [] p \<longleftrightarrow> p = []"
| "Contains (c # s) p \<longleftrightarrow> HasPrefix (c # s) p \<or> Contains s p"

fun Index :: "string \<Rightarrow> string \<Rightarrow> nat option" where
  "Index [] p = (if p = [] then Some 0 else None)"
| "Index (c # s) p = (if HasPrefix (c # s) p then Some 0 else map_option Suc (Index s p))"

fun IndexAny :: "string \<Rightarrow> char list \<Rightarrow> nat option" where
  "IndexAny [] cs = None"
| "IndexAny (c # s) cs = (if c \<in> set cs then Some 0 else map_option Suc (IndexAny s cs))"

definition IndexByte :: "string \<Rightarrow> char \<Rightarrow> nat option" where
  "IndexByte s c = IndexAny s [c]"

text \<open>\<open>s[:i]\<close> when the search found index \<open>i\<close>, else all of \<open>s\<close>.\<close>

definition cut_at :: "nat option \<Rightarrow> string \<Rightarrow> string" where
  "cut_at i s = (case i of Some n \<Rightarrow> take n s | None \<Rightarrow> s)"

definition CountByte :: "string \<Rightarrow> char \<Rightarrow> nat" where
  "CountByte s c = length (filter (\<lambda>d. d = c) s)"

fun SplitByte :: "string \<Rightarrow> char \<Rightarrow> string list" where
  "SplitByte [] c = [[]]"
| "SplitByte (d # s) c =
     (if d = c then [] # SplitByte s c
      else (case SplitByte s c of [] \<Rightarrow> [[d]] | p # ps \<Rightarrow> (d # p) # ps))"

fun JoinStr :: "string list \<Rightarrow> string \<Rightarrow> string" where
  "JoinStr [] sep = []"
| "JoinStr [p] sep = p"
| "JoinStr (p # q # ps) sep = p @ sep @ JoinStr (q # ps) sep"

text \<open>\<open>strings.ReplaceAll\<close> with a one-byte pattern, the only form the program uses.\<close>

definition ReplaceAllByte :: "string \<Rightarrow> char \<Rightarrow> string \<Rightarrow> string" where
  "ReplaceAllByte s c r = concat (map (\<lambda>d. if d = c then r else [d]) s)"

definition TrimCut :: "string \<Rightarrow> char list \<Rightarrow> string" where
  "TrimCut s cs = rev (dropWhile (\<lambda>c. c \<in> set cs) (rev (dropWhile (\<lambda>c. c \<in> set cs) s)))"

declare HasPrefix_def [go_defs] HasSuffix_def [go_defs] TrimSuffix_def [go_defs]
  IndexByte_def [go_defs] cut_at_def [go_defs] CountByte_def [go_defs]
  ReplaceAllByte_def [go_defs] TrimCut_def [go_defs]

lemma HasPrefix_iff: "HasPrefix s p \<longleftrightarrow> prefix p s"
  by (metis HasPrefix_def append_eq_conv_conj prefix_def)

lemma HasPrefix_append [simp]: "HasPrefix (p @ s) p"
  by (simp add: HasPrefix_def)

lemma HasSuffix_iff: "HasSuffix s p \<longleftrightarrow> suffix p s"
  by (metis HasSuffix_def append_take_drop_id append_eq_append_conv suffix_def suffix_drop
      diff_diff_cancel length_drop suffix_length_le length_append diff_add_inverse2
      append_eq_conv_conj)

lemma HasSuffix_append [simp]: "HasSuffix (s @ p) p"
  by (simp add: HasSuffix_def)

lemma Contains_iff: "Contains s p \<longleftrightarrow> sublist p s"
  by (induction s) (auto simp: HasPrefix_iff sublist_Cons_right)

lemma IndexAny_Some:
  "IndexAny s cs = Some n \<Longrightarrow> n < length s \<and> s ! n \<in> set cs \<and> set (take n s) \<inter> set cs = {}"
  by (induction s arbitrary: n) (auto split: if_splits)

lemma IndexAny_None: "IndexAny s cs = None \<longleftrightarrow> set s \<inter> set cs = {}"
  by (induction s) auto

lemma cut_at_IndexAny: "cut_at (IndexAny s cs) s = takeWhile (\<lambda>c. c \<notin> set cs) s"
  by (induction s) (auto simp: cut_at_def split: option.splits)

lemma ReplaceAllByte_simps [simp]:
  "ReplaceAllByte [] c r = []"
  "ReplaceAllByte (d # s) c r = (if d = c then r else [d]) @ ReplaceAllByte s c r"
  "ReplaceAllByte (s @ t) c r = ReplaceAllByte s c r @ ReplaceAllByte t c r"
  by (simp_all add: ReplaceAllByte_def)

lemma ReplaceAllByte_absent: "c \<notin> set s \<Longrightarrow> ReplaceAllByte s c r = s"
  by (induction s) auto

lemma SplitByte_nonempty [simp]: "SplitByte s c \<noteq> []"
  by (cases s) (auto split: list.split)

lemma JoinStr_SplitByte: "JoinStr (SplitByte s c) [c] = s"
proof (induction s)
  case (Cons d s)
  then show ?case by (cases "SplitByte s c"; cases "tl (SplitByte s c)") auto
qed simp

lemma SplitByte_absent: "c \<notin> set s \<Longrightarrow> SplitByte s c = [s]"
  by (induction s) auto

lemma SplitByte_append_absent:
  "c \<notin> set p \<Longrightarrow> SplitByte (p @ c # s) c = p # SplitByte s c"
  by (induction p) auto

lemma SplitByte_parts: "p \<in> set (SplitByte s c) \<Longrightarrow> c \<notin> set p"
  by (induction s arbitrary: p) (auto split: list.splits if_splits)

section \<open>Case mapping\<close>

definition up_char :: "char \<Rightarrow> char" where
  "up_char c = (if CHR ''a'' \<le> c \<and> c \<le> CHR ''z'' then char_of (of_char c - 32 :: nat) else c)"

definition low_char :: "char \<Rightarrow> char" where
  "low_char c = (if CHR ''A'' \<le> c \<and> c \<le> CHR ''Z'' then char_of (of_char c + 32 :: nat) else c)"

text \<open>U+0131 and U+017F upper-case to ASCII letters.\<close>

fun ToUpper :: "string \<Rightarrow> string" where
  "ToUpper [] = []"
| "ToUpper (c # s) =
     (if HasPrefix (c # s) [CHR 0xC4, CHR 0xB1] then CHR ''I'' # ToUpper (drop 1 s)
      else if HasPrefix (c # s) [CHR 0xC5, CHR 0xBF] then CHR ''S'' # ToUpper (drop 1 s)
      else up_char c # ToUpper s)"

text \<open>U+0130 and U+212A lower-case to ASCII letters.\<close>

fun ToLower :: "string \<Rightarrow> string" where
  "ToLower [] = []"
| "ToLower (c # s) =
     (if HasPrefix (c # s) [CHR 0xC4, CHR 0xB0] then CHR ''i'' # ToLower (drop 1 s)
      else if HasPrefix (c # s) [CHR 0xE2, CHR 0x84, CHR 0xAA] then CHR ''k'' # ToLower (drop 2 s)
      else low_char c # ToLower s)"

definition ascii :: "string \<Rightarrow> bool" where
  "ascii s \<longleftrightarrow> (\<forall>c \<in> set s. of_char c < (128::nat))"

lemma ascii_simps [simp]:
  "ascii []"
  "ascii (c # s) \<longleftrightarrow> of_char c < (128::nat) \<and> ascii s"
  "ascii (s @ t) \<longleftrightarrow> ascii s \<and> ascii t"
  by (auto simp: ascii_def)

lemma ToUpper_ascii: "ascii s \<Longrightarrow> ToUpper s = map up_char s"
  by (induction s) (auto simp: HasPrefix_def)

lemma ToLower_ascii: "ascii s \<Longrightarrow> ToLower s = map low_char s"
  by (induction s) (auto simp: HasPrefix_def)

section \<open>White space\<close>

text \<open>The UTF-8 encodings of the code points of \<open>unicode.IsSpace\<close>.\<close>

definition space_encodings :: "string list" where
  "space_encodings =
     [[CHR '' ''], [CHR 0x09], [CHR 0x0A], [CHR 0x0B], [CHR 0x0C], [CHR 0x0D],
      [CHR 0xC2, CHR 0x85], [CHR 0xC2, CHR 0xA0], [CHR 0xE1, CHR 0x9A, CHR 0x80],
      [CHR 0xE2, CHR 0x80, CHR 0x80], [CHR 0xE2, CHR 0x80, CHR 0x81],
      [CHR 0xE2, CHR 0x80, CHR 0x82], [CHR 0xE2, CHR 0x80, CHR 0x83],
      [CHR 0xE2, CHR 0x80, CHR 0x84], [CHR 0xE2, CHR 0x80, CHR 0x85],
      [CHR 0xE2, CHR 0x80, CHR 0x86], [CHR 0xE2, CHR 0x80, CHR 0x87],
      [CHR 0xE2, CHR 0x80, CHR 0x88], [CHR 0xE2, CHR 0x80, CHR 0x89],
      [CHR 0xE2, CHR 0x80, CHR 0x8A], [CHR 0xE2, CHR 0x80, CHR 0xA8],
      [CHR 0xE2, CHR 0x80, CHR 0xA9], [CHR 0xE2, CHR 0x80, CHR 0xAF],
      [CHR 0xE2, CHR 0x81, CHR 0x9F], [CHR 0xE3, CHR 0x80, CHR 0x80]]"

text \<open>The length of the white-space rune that \<open>s\<close> starts with, if it starts with one.\<close>

definition lead_len :: "string list \<Rightarrow> string \<Rightarrow> nat option" where
  "lead_len encs s = map_option length (find (\<lambda>e. e \<noteq> [] \<and> HasPrefix s e) encs)"

lemma lead_len_Some: "lead_len encs s = Some n \<Longrightarrow> 0 < n \<and> n \<le> length s"
  by (auto simp: lead_len_def find_Some_iff HasPrefix_iff dest: prefix_length_le)

function strip_lead :: "string list \<Rightarrow> string \<Rightarrow> string" where
  "strip_lead encs s =
     (case lead_len encs s of Some n \<Rightarrow> strip_lead encs (drop n s) | None \<Rightarrow> s)"
  by pat_completeness auto
termination
  by (relation "measure (\<lambda>(encs, s). length s)") (auto dest!: lead_len_Some)

declare strip_lead.simps [simp del]

definition TrimSpace :: "string \<Rightarrow> string" where
  "TrimSpace s =
     rev (strip_lead (map rev space_encodings) (rev (strip_lead space_encodings s)))"

text \<open>\<open>strings.Fields\<close>: \<open>cur\<close> is the field being read, reversed.\<close>

function fields_from :: "string \<Rightarrow> string \<Rightarrow> string list" where
  "fields_from cur [] = (if cur = [] then [] else [rev cur])"
| "fields_from cur (c # s) =
     (case lead_len space_encodings (c # s) of
        Some n \<Rightarrow> (if cur = [] then [] else [rev cur]) @ fields_from [] (drop n (c # s))
      | None \<Rightarrow> fields_from (c # cur) s)"
  by pat_completeness auto
termination
  by (relation "measure (\<lambda>(cur, s). length s)") (auto dest!: lead_len_Some)

definition Fields :: "string \<Rightarrow> string list" where
  "Fields s = fields_from [] s"

lemma strip_lead_None: "lead_len encs s = None \<Longrightarrow> strip_lead encs s = s"
  by (subst strip_lead.simps) simp

lemma lead_len_strip_lead: "lead_len encs (strip_lead encs s) = None"
proof (induction encs s rule: strip_lead.induct)
  case (1 encs s)
  then show ?case
    by (cases "lead_len encs s") (auto simp: strip_lead.simps [of encs s])
qed

lemma suffix_strip_lead: "suffix (strip_lead encs s) s"
proof (induction encs s rule: strip_lead.induct)
  case (1 encs s)
  show ?case
  proof (cases "lead_len encs s")
    case (Some n)
    with 1 have "suffix (strip_lead encs (drop n s)) (drop n s)" by simp
    then have "suffix (strip_lead encs (drop n s)) s"
      by (meson suffix_drop suffix_order.trans)
    with Some show ?thesis by (simp add: strip_lead.simps [of encs s])
  qed (simp add: strip_lead_None)
qed

lemma fields_from_nonempty: "f \<in> set (fields_from cur s) \<Longrightarrow> f \<noteq> []"
  by (induction cur s rule: fields_from.induct) (auto split: option.splits if_splits)

text \<open>A visible ASCII character starts and ends no white-space rune.\<close>

definition visible :: "char \<Rightarrow> bool" where
  "visible c \<longleftrightarrow> CHR '' '' < c \<and> of_char c < (128::nat)"

lemma lead_len_hd:
  assumes "\<forall>e \<in> set encs. e \<noteq> [] \<and> \<not> visible (hd e)" and "s = [] \<or> visible (hd s)"
  shows "lead_len encs s = None"
proof -
  have "\<not> HasPrefix s e" if "e \<in> set encs" for e
  proof
    assume "HasPrefix s e"
    moreover from that assms(1) have "e \<noteq> []" and "\<not> visible (hd e)" by auto
    ultimately have "s \<noteq> []" and "hd s = hd e"
      by (auto simp: HasPrefix_iff prefix_def)
    with assms(2) \<open>\<not> visible (hd e)\<close> show False by simp
  qed
  then show ?thesis by (auto simp: lead_len_def find_None_iff)
qed

lemma space_encodings_hd: "\<forall>e \<in> set space_encodings. e \<noteq> [] \<and> \<not> visible (hd e)"
  by (simp add: space_encodings_def visible_def less_char_def)

lemma space_encodings_last: "\<forall>e \<in> set (map rev space_encodings). e \<noteq> [] \<and> \<not> visible (hd e)"
  by (simp add: space_encodings_def visible_def less_char_def)

lemma TrimSpace_visible:
  assumes "s \<noteq> []" and "visible (hd s)" and "visible (last s)"
  shows "TrimSpace s = s"
proof -
  have "lead_len space_encodings s = None"
    by (rule lead_len_hd [OF space_encodings_hd]) (use assms in simp)
  moreover have "lead_len (map rev space_encodings) (rev s) = None"
    by (rule lead_len_hd [OF space_encodings_last]) (use assms in \<open>simp add: hd_rev\<close>)
  ultimately show ?thesis by (simp add: TrimSpace_def strip_lead_None)
qed

lemma ToLower_append: "ascii s \<Longrightarrow> ToLower (s @ t) = ToLower s @ ToLower t"
  by (induction s) (auto simp: HasPrefix_def)

lemma ToUpper_append: "ascii s \<Longrightarrow> ToUpper (s @ t) = ToUpper s @ ToUpper t"
  by (induction s) (auto simp: HasPrefix_def)

lemma Contains_append: "Contains s p \<or> Contains t p \<Longrightarrow> Contains (s @ t) p"
  by (auto simp: Contains_iff sublist_append)

lemma ToLower_append3:
  "ascii a \<Longrightarrow> ascii b \<Longrightarrow> ascii c \<Longrightarrow>
    ToLower (a @ b @ c @ d) = ToLower a @ ToLower b @ ToLower c @ ToLower d"
  by (simp add: ToLower_append)

lemma dropWhile_absent: "set s \<inter> set cs = {} \<Longrightarrow> dropWhile (\<lambda>c. c \<in> set cs) s = s"
  by (cases s) auto

lemma TrimCut_absent: "set s \<inter> set cs = {} \<Longrightarrow> TrimCut s cs = s"
  by (simp add: TrimCut_def dropWhile_absent)

end
