(* ===== verification/SqlQuote.thy ===== *)
theory SqlQuote
  imports GoStrings
begin

text \<open>
  Quoting of SQL identifiers and string literals. The program quotes in five places
  (\<open>quoteIdent\<close> and \<open>escapeSQL\<close> of the engine, the parameter literals of the Postgres
  and the MySQL front end, back ticks for ClickHouse). What a quoting function promises is
  that the reader of the SQL standard, \<open>read_quoted\<close>, gets back exactly the quoted text
  and leaves exactly what follows: nothing in the text can end the token early. The locale
  \<open>sql_quoting\<close> states that contract; each component interprets it on its own function.
\<close>

section \<open>The reader of the SQL standard\<close>

text \<open>
  The body of a quoted token after its opening quote \<open>q\<close>: a doubled quote stands for one
  quote, a single one ends the token. The result is the text and what follows the token.
\<close>

fun read_body :: "char \<Rightarrow> string \<Rightarrow> (string \<times> string) option" where
  "read_body q [] = None"
| "read_body q [c] = (if c = q then Some ([], []) else None)"
| "read_body q (c # d # s) =
     (if c \<noteq> q then map_option (apfst ((#) c)) (read_body q (d # s))
      else if d = q then map_option (apfst ((#) q)) (read_body q s)
      else Some ([], d # s))"

fun read_quoted :: "char \<Rightarrow> string \<Rightarrow> (string \<times> string) option" where
  "read_quoted q [] = None"
| "read_quoted q (c # s) = (if c = q then read_body q s else None)"

definition ends_token :: "char \<Rightarrow> string \<Rightarrow> bool" where
  "ends_token q rest \<longleftrightarrow> (case rest of [] \<Rightarrow> True | c # _ \<Rightarrow> c \<noteq> q)"

lemma ends_token_simps [simp]: "ends_token q []" "ends_token q (c # s) \<longleftrightarrow> c \<noteq> q"
  by (simp_all add: ends_token_def)

text \<open>The text with every quote doubled, between two quotes.\<close>

definition quote_doubled :: "char \<Rightarrow> string \<Rightarrow> string" where
  "quote_doubled q s = q # ReplaceAllByte s q [q, q] @ [q]"

lemma read_body_other: "c \<noteq> q \<Longrightarrow> s \<noteq> [] \<Longrightarrow>
  read_body q (c # s) = map_option (apfst ((#) c)) (read_body q s)"
  by (cases s) auto

lemma read_body_doubled:
  "ends_token q rest \<Longrightarrow> read_body q (ReplaceAllByte s q [q, q] @ q # rest) = Some (s, rest)"
proof (induction s)
  case Nil
  then show ?case by (cases rest) auto
next
  case (Cons c s)
  then show ?case by (cases "c = q") (simp_all add: read_body_other)
qed

lemma read_quoted_doubled:
  "ends_token q rest \<Longrightarrow> read_quoted q (quote_doubled q s @ rest) = Some (s, rest)"
  by (simp add: quote_doubled_def read_body_doubled)

section \<open>The contract of a quoting function\<close>

locale sql_quoting =
  fixes q :: char
    and enc :: "string \<Rightarrow> string"
  assumes read_back: "ends_token q rest \<Longrightarrow> read_quoted q (enc s @ rest) = Some (s, rest)"
begin

lemma read_alone: "read_quoted q (enc s) = Some (s, [])"
  using read_back [of "[]" s] by simp

lemma enc_inject: "enc s = enc t \<longleftrightarrow> s = t"
  by (metis read_alone option.inject prod.inject)

text \<open>A token determines its text and its rest: no two statements share a spelling.\<close>

lemma token_unique:
  assumes "enc s @ r = enc s' @ r'" and "ends_token q r" and "ends_token q r'"
  shows "s = s' \<and> r = r'"
  using assms read_back by (metis option.inject prod.inject)

text \<open>Tokens joined by a separator that is not the quote are read back one by one.\<close>

lemma read_separated:
  assumes "c \<noteq> q"
  shows "read_quoted q (enc s @ c # rest) = Some (s, c # rest)"
  using assms by (simp add: read_back)

end

end
