(* ===== verification/GoNumbers.thy ===== *)
theory GoNumbers
  imports GoStrings
begin

text \<open>
  Decimal numbers as the program prints and reads them (\<open>fmt\<close>'s \<open>%d\<close>, \<open>strconv.Itoa\<close>,
  \<open>strconv.ParseInt\<close> with base 10, \<open>strconv.Atoi\<close>, \<open>big.Int.SetString\<close>), the
  \<open>%q\<close> verb, big-endian byte encoding (\<open>encoding/binary\<close>), and the path functions of
  \<open>path/filepath\<close> on Unix.
\<close>

section \<open>Printing\<close>

definition digit_char :: "nat \<Rightarrow> char" where
  "digit_char d = char_of (48 + d)"

definition digit_val :: "char \<Rightarrow> nat" where
  "digit_val c = of_char c - 48"

definition is_digit :: "char \<Rightarrow> bool" where
  "is_digit c \<longleftrightarrow> CHR ''0'' \<le> c \<and> c \<le> CHR ''9''"

fun show_nat :: "nat \<Rightarrow> string" where
  "show_nat n = (if n < 10 then [digit_char n] else show_nat (n div 10) @ [digit_char (n mod 10)])"

declare show_nat.simps [simp del]

definition show_int :: "int \<Rightarrow> string" where
  "show_int i = (if i < 0 then CHR ''-'' # show_nat (nat (- i)) else show_nat (nat i))"

section \<open>Reading\<close>

definition digits_val :: "string \<Rightarrow> nat" where
  "digits_val s = foldl (\<lambda>n c. 10 * n + digit_val c) 0 s"

text \<open>
  An optional sign and at least one decimal digit: the syntax that \<open>ParseInt(s, 10, _)\<close>
  and \<open>big.Int.SetString(s, 10)\<close> accept. \<open>None\<close> is a syntax error.
\<close>

definition scan_digits :: "string \<Rightarrow> nat option" where
  "scan_digits s = (if s \<noteq> [] \<and> list_all is_digit s then Some (digits_val s) else None)"

fun scan_int :: "string \<Rightarrow> int option" where
  "scan_int [] = None"
| "scan_int (c # s) =
     (if c = CHR ''-'' then map_option (\<lambda>n. - int n) (scan_digits s)
      else if c = CHR ''+'' then map_option int (scan_digits s)
      else map_option int (scan_digits (c # s)))"

definition max_int64 :: int where "max_int64 = 9223372036854775807"
definition min_int64 :: int where "min_int64 = - 9223372036854775808"

definition clamp64 :: "int \<Rightarrow> int" where
  "clamp64 i = max min_int64 (min max_int64 i)"

definition in_int64 :: "int \<Rightarrow> bool" where
  "in_int64 i \<longleftrightarrow> min_int64 \<le> i \<and> i \<le> max_int64"

text \<open>
  \<open>strconv.ParseInt(s, 10, 64)\<close> returns a number next to its error: 0 on a syntax error,
  and the nearest representable number when the value is out of range.
\<close>

definition ParseInt64 :: "string \<Rightarrow> 64 word \<times> go_error" where
  "ParseInt64 s =
     (case scan_int s of
        None \<Rightarrow> (0, Some ''invalid syntax'')
      | Some i \<Rightarrow> (word_of_int (clamp64 i), if in_int64 i then None else Some ''value out of range''))"

text \<open>
  Its use on a run of digits (\<open>strconv.Atoi\<close> with the error dropped): the number,
  saturated at the largest int.
\<close>

definition Atoi_digits :: "string \<Rightarrow> nat" where
  "Atoi_digits s = nat (clamp64 (int (digits_val s)))"

declare digit_char_def [go_defs] digit_val_def [go_defs] is_digit_def [go_defs]
  show_int_def [go_defs] digits_val_def [go_defs] scan_digits_def [go_defs]
  max_int64_def [go_defs] min_int64_def [go_defs] clamp64_def [go_defs] in_int64_def [go_defs]

lemma digit_val_char [simp]: "d < 10 \<Longrightarrow> digit_val (digit_char d) = d"
  by (simp add: digit_val_def digit_char_def)

lemma is_digit_char [simp]: "d < 10 \<Longrightarrow> is_digit (digit_char d)"
  by (simp add: is_digit_def digit_char_def less_eq_char_def)

lemma is_digit_not_sign: "is_digit c \<Longrightarrow> c \<noteq> CHR ''-'' \<and> c \<noteq> CHR ''+''"
  by (auto simp: is_digit_def less_eq_char_def)

lemma digit_char_not_sign [simp]: "d < 10 \<Longrightarrow> digit_char d \<noteq> CHR ''-'' \<and> digit_char d \<noteq> CHR ''+''"
  by (rule is_digit_not_sign) simp

lemma digits_val_snoc [simp]: "digits_val (s @ [c]) = 10 * digits_val s + digit_val c"
  by (simp add: digits_val_def)

lemma digits_val_show_nat [simp]: "digits_val (show_nat n) = n"
proof (induction n rule: show_nat.induct)
  case (1 n)
  then show ?case
    by (cases "n < 10") (simp_all add: show_nat.simps [of n] digits_val_def [of "[_]"])
qed

lemma show_nat_digits [simp]: "list_all is_digit (show_nat n)"
proof (induction n rule: show_nat.induct)
  case (1 n)
  then show ?case by (cases "n < 10") (simp_all add: show_nat.simps [of n])
qed

lemma show_nat_nonempty [simp]: "show_nat n \<noteq> []"
  by (subst show_nat.simps) simp

lemma scan_digits_show_nat [simp]: "scan_digits (show_nat n) = Some n"
  by (simp add: scan_digits_def)

lemma scan_int_digits: "s \<noteq> [] \<Longrightarrow> list_all is_digit s \<Longrightarrow> scan_int s = map_option int (scan_digits s)"
  by (cases s) (auto dest: is_digit_not_sign)

lemma scan_int_show_int [simp]: "scan_int (show_int i) = Some i"
  by (simp add: show_int_def scan_int_digits)

lemma clamp64_id: "in_int64 i \<Longrightarrow> clamp64 i = i"
  by (simp add: clamp64_def in_int64_def)

lemma in_int64_clamp64 [simp]: "in_int64 (clamp64 i)"
  by (simp add: clamp64_def in_int64_def max_int64_def min_int64_def)

lemma sint_word_of_clamp [simp]: "sint (word_of_int (clamp64 i) :: 64 word) = clamp64 i"
proof -
  have "in_int64 (clamp64 i)" by simp
  then show ?thesis
    by (simp add: in_int64_def max_int64_def min_int64_def sint_sbintrunc' signed_take_bit_int_eq_self)
qed

lemma in_int64_sint [simp]: "in_int64 (sint (w :: 64 word))"
  using sint_range_size [of w] by (simp add: in_int64_def max_int64_def min_int64_def word_size)

lemma ParseInt64_show_int: "sint (fst (ParseInt64 (show_int i))) = clamp64 i"
  by (simp add: ParseInt64_def)

lemma visible_digit: "is_digit c \<Longrightarrow> visible c"
  by (auto simp: is_digit_def visible_def less_char_def less_eq_char_def)

lemma TrimSpace_show_int [simp]: "TrimSpace (show_int i) = show_int i"
proof (rule TrimSpace_visible)
  have digits: "\<forall>c \<in> set (show_nat n). visible c" for n
    using show_nat_digits [of n] by (auto simp: list_all_iff visible_digit)
  have minus: "visible CHR ''-''" by (simp add: visible_def less_char_def)
  show ne: "show_int i \<noteq> []" by (simp add: show_int_def)
  have "\<forall>c \<in> set (show_int i). visible c"
    using digits minus by (auto simp: show_int_def)
  then show "visible (hd (show_int i))" and "visible (last (show_int i))"
    using ne by auto
qed

section \<open>Big-endian bytes\<close>

fun be_bytes :: "nat \<Rightarrow> int \<Rightarrow> string" where
  "be_bytes 0 x = []"
| "be_bytes (Suc n) x = be_bytes n (x div 256) @ [char_of (nat (x mod 256))]"

definition be_val :: "string \<Rightarrow> int" where
  "be_val bs = foldl (\<lambda>a c. 256 * a + int (of_char c)) 0 bs"

text \<open>\<open>binary.BigEndian.PutUint16/32/64\<close> into a fresh buffer of the right size.\<close>

definition PutUint16 :: "16 word \<Rightarrow> string" where "PutUint16 v = be_bytes 2 (uint v)"
definition PutUint32 :: "32 word \<Rightarrow> string" where "PutUint32 v = be_bytes 4 (uint v)"
definition PutUint64 :: "64 word \<Rightarrow> string" where "PutUint64 v = be_bytes 8 (uint v)"

lemma length_be_bytes [simp]: "length (be_bytes n x) = n"
  by (induction n arbitrary: x) auto

lemma be_val_snoc [simp]: "be_val (bs @ [c]) = 256 * be_val bs + int (of_char c)"
  by (simp add: be_val_def)

lemma be_val_bytes: "be_val (be_bytes n x) = x mod 256 ^ n"
proof (induction n arbitrary: x)
  case 0
  then show ?case by (simp add: be_val_def)
next
  case (Suc n)
  have "be_val (be_bytes (Suc n) x) = 256 * (x div 256 mod 256 ^ n) + x mod 256"
    by (simp add: Suc.IH nat_less_iff)
  also have "\<dots> = x mod (256 * 256 ^ n)"
    by (simp add: zmod_zmult2_eq)
  finally show ?case by simp
qed

lemma PutUint_lengths [simp]:
  "length (PutUint16 v) = 2" "length (PutUint32 u) = 4" "length (PutUint64 w) = 8"
  by (simp_all add: PutUint16_def PutUint32_def PutUint64_def)

lemma be_val_PutUint [simp]:
  "be_val (PutUint16 v) = uint v" "be_val (PutUint32 u) = uint u" "be_val (PutUint64 w) = uint w"
  using uint_lt2p [of v] uint_lt2p [of u] uint_lt2p [of w]
  by (simp_all add: PutUint16_def PutUint32_def PutUint64_def be_val_bytes del: be_bytes.simps)

section \<open>The \<open>%q\<close> verb\<close>

text \<open>
  \<open>strconv.Quote\<close>. A byte of a non-ASCII rune is copied, as Quote does for the printable
  runes of well-formed UTF-8.
\<close>

definition hex_digit :: "nat \<Rightarrow> char" where
  "hex_digit n = (if n < 10 then char_of (48 + n) else char_of (87 + n))"

definition quote_char :: "char \<Rightarrow> string" where
  "quote_char c =
     (if c = CHR 0x22 then [CHR 0x5C, CHR 0x22]
      else if c = CHR 0x5C then [CHR 0x5C, CHR 0x5C]
      else if c = CHR 0x07 then [CHR 0x5C, CHR ''a'']
      else if c = CHR 0x08 then [CHR 0x5C, CHR ''b'']
      else if c = CHR 0x0C then [CHR 0x5C, CHR ''f'']
      else if c = CHR 0x0A then [CHR 0x5C, CHR ''n'']
      else if c = CHR 0x0D then [CHR 0x5C, CHR ''r'']
      else if c = CHR 0x09 then [CHR 0x5C, CHR ''t'']
      else if c = CHR 0x0B then [CHR 0x5C, CHR ''v'']
      else if c < CHR '' '' \<or> c = CHR 0x7F
        then [CHR 0x5C, CHR ''x'', hex_digit (of_char c div 16), hex_digit (of_char c mod 16)]
      else [c])"

definition Quote :: "string \<Rightarrow> string" where
  "Quote s = [CHR 0x22] @ concat (map quote_char s) @ [CHR 0x22]"

section \<open>Paths\<close>

abbreviation slash :: char where "slash \<equiv> CHR ''/''"

definition path_Base :: "string \<Rightarrow> string" where
  "path_Base p =
     (if p = [] then ''.''
      else let q = rev (dropWhile (\<lambda>c. c = slash) (rev p));
               b = rev (takeWhile (\<lambda>c. c \<noteq> slash) (rev q))
           in if b = [] then [slash] else b)"

definition path_Ext :: "string \<Rightarrow> string" where
  "path_Ext p =
     (let r = rev p; w = takeWhile (\<lambda>c. c \<noteq> slash \<and> c \<noteq> CHR ''.'') r
      in case drop (length w) r of
           [] \<Rightarrow> []
         | c # _ \<Rightarrow> if c = CHR ''.'' then c # rev w else [])"

text \<open>The elements of a path, resolved; \<open>st\<close> is the reversed stack of kept elements.\<close>

fun clean_elems :: "bool \<Rightarrow> string list \<Rightarrow> string list \<Rightarrow> string list" where
  "clean_elems rooted st [] = rev st"
| "clean_elems rooted st (e # es) =
     (if e = [] \<or> e = ''.'' then clean_elems rooted st es
      else if e = ''..'' then
        (case st of
           [] \<Rightarrow> clean_elems rooted (if rooted then [] else [e]) es
         | d # ds \<Rightarrow> if d = ''..'' then clean_elems rooted (e # st) es
                     else clean_elems rooted ds es)
      else clean_elems rooted (e # st) es)"

definition path_Clean :: "string \<Rightarrow> string" where
  "path_Clean p =
     (let rooted = HasPrefix p [slash];
          body = JoinStr (clean_elems rooted [] (SplitByte p slash)) [slash]
      in if rooted then slash # body else if body = [] then ''.'' else body)"

definition path_Join :: "string \<Rightarrow> string \<Rightarrow> string" where
  "path_Join d n =
     (let es = filter (\<lambda>e. e \<noteq> []) [d, n]
      in if es = [] then [] else path_Clean (JoinStr es [slash]))"

lemma path_Ext_suffix: "suffix (path_Ext p) p"
proof -
  let ?w = "takeWhile (\<lambda>c. c \<noteq> slash \<and> c \<noteq> CHR ''.'') (rev p)"
  have "\<exists>zs. p = zs @ c # rev ?w" if "drop (length ?w) (rev p) = c # cs" for c cs
  proof -
    have "rev p = ?w @ c # cs"
      using that by (metis append_take_drop_id takeWhile_eq_take)
    then have "p = rev cs @ c # rev ?w" by (metis append.assoc append_Cons append_Nil rev.simps(2) rev_append rev_rev_ident)
    then show ?thesis ..
  qed
  then show ?thesis
    by (auto simp: path_Ext_def Let_def suffix_def split: list.split)
qed

end
