(* ===== verification/PgSql.thy ===== *)
theory PgSql
  imports SqlQuote GoNumbers
begin

text \<open>
  The treatment of SQL text in internal/pg/handler.go: the scanner that finds the parameter
  placeholders \<open>$1\<close>, \<open>$2\<close>, \<dots> outside string literals and quoted identifiers, the
  substitution of bound values, and the functions that look at the first word of a statement.

  The scanner is specified by the token list \<open>toks\<close>: the text splits into single
  characters and placeholders, and the scanner renders token by token. What matters for a
  front end follows from that: no placeholder survives the substitution, and a bound value is
  read back from the statement as exactly one literal.
\<close>

section \<open>Placeholders\<close>

definition is_quote :: "char \<Rightarrow> bool" where
  "is_quote c \<longleftrightarrow> c = CHR 0x27 \<or> c = CHR 0x22"

definition starts_param :: "char \<Rightarrow> string \<Rightarrow> bool" where
  "starts_param c s \<longleftrightarrow>
     c = CHR ''$'' \<and> s \<noteq> [] \<and> CHR ''1'' \<le> hd s \<and> hd s \<le> CHR ''9''"

text \<open>
  \<open>scanParams\<close> from a position on: \<open>quote\<close> is the open quote, if any, \<open>m\<close> the highest
  index so far; \<open>rep\<close> is \<open>None\<close> when the Go function is called with a nil \<open>replace\<close>. The
  result is what is still written to the builder, and the highest index at the end.
\<close>

function scan_from ::
  "(nat \<Rightarrow> string) option \<Rightarrow> char option \<Rightarrow> nat \<Rightarrow> string \<Rightarrow> string \<times> nat" where
  "scan_from rep quote m [] = ([], m)"
| "scan_from rep quote m (c # s) =
     (case quote of
        Some q \<Rightarrow>
          (if c = q then
             (if s \<noteq> [] \<and> hd s = q
              then apfst (\<lambda>out. [c, hd s] @ out) (scan_from rep quote m (drop 1 s))
              else apfst (\<lambda>out. c # out) (scan_from rep None m s))
           else apfst (\<lambda>out. c # out) (scan_from rep quote m s))
      | None \<Rightarrow>
          (if is_quote c then apfst (\<lambda>out. c # out) (scan_from rep (Some c) m s)
           else if starts_param c s then
             (let ds = takeWhile is_digit s;
                  idx = Atoi_digits ds;
                  m' = (if idx > m then idx else m);
                  piece = (case rep of Some replace \<Rightarrow> replace idx | None \<Rightarrow> c # ds)
              in apfst (\<lambda>out. piece @ out) (scan_from rep None m' (drop (length ds) s)))
           else apfst (\<lambda>out. c # out) (scan_from rep None m s)))"
  by pat_completeness auto
termination
  by (relation "measure (\<lambda>(rep, quote, m, s). length s)") auto

definition scanParams :: "string \<Rightarrow> (nat \<Rightarrow> string) option \<Rightarrow> string \<times> nat" where
  "scanParams sql replace = scan_from replace None 0 sql"

definition maxParamIndex :: "string \<Rightarrow> nat" where
  "maxParamIndex sql = snd (scanParams sql None)"

text \<open>A bound value as a literal: the quotes doubled, between quotes.\<close>

definition param_literal :: "string \<Rightarrow> string" where
  "param_literal v =
     [CHR 0x27] @ ReplaceAllByte v CHR 0x27 [CHR 0x27, CHR 0x27] @ [CHR 0x27]"

definition param_text :: "string option list \<Rightarrow> nat \<Rightarrow> string" where
  "param_text params idx =
     (if idx - 1 < length params \<and> params ! (idx - 1) \<noteq> None
      then param_literal (the (params ! (idx - 1))) else ''NULL'')"

definition substituteParams :: "string \<Rightarrow> string option list \<Rightarrow> string" where
  "substituteParams sql params = fst (scanParams sql (Some (param_text params)))"

interpretation pg_literal: sql_quoting "CHR 0x27" param_literal
  by unfold_locales
    (simp add: param_literal_def quote_doubled_def [symmetric] read_quoted_doubled)

section \<open>Keywords and command tags\<close>

definition firstKeyword :: "string \<Rightarrow> string" where
  "firstKeyword sql =
     (let t = TrimSpace sql
      in ToUpper (cut_at (IndexAny t [CHR '' '', CHR 0x09, CHR 0x0D, CHR 0x0A, CHR ''('', CHR '';'']) t))"

definition returnsRows :: "string \<Rightarrow> bool" where
  "returnsRows sql \<longleftrightarrow>
     firstKeyword sql \<in> set [''SELECT'', ''WITH'', ''VALUES'', ''SHOW'', ''TABLE'', ''EXPLAIN'',
                             ''DESCRIBE'', ''PRAGMA'', ''CALL'']"

definition commandTag :: "string \<Rightarrow> nat \<Rightarrow> string" where
  "commandTag sql n =
     (case Fields (TrimSpace sql) of
        [] \<Rightarrow> []
      | f # _ \<Rightarrow>
          (let word = ToUpper f
           in if word \<in> set [''SELECT'', ''WITH'', ''SHOW'', ''TABLE'', ''VALUES'']
                then ''SELECT '' @ show_nat n
              else if word = ''INSERT'' then ''INSERT 0 '' @ show_nat n
              else if word \<in> set [''UPDATE'', ''DELETE''] then word @ '' '' @ show_nat n
              else word))"

section \<open>The token list of a statement\<close>

text \<open>A character that is copied, or a placeholder with its digits.\<close>

datatype tok = Chr char | Par string

fun tok_text :: "tok \<Rightarrow> string" where
  "tok_text (Chr c) = [c]"
| "tok_text (Par ds) = CHR ''$'' # ds"

fun render :: "(nat \<Rightarrow> string) \<Rightarrow> tok \<Rightarrow> string" where
  "render f (Chr c) = [c]"
| "render f (Par ds) = f (Atoi_digits ds)"

text \<open>
  In SQL a quote toggles between inside and outside: a doubled quote leaves the literal and
  opens it again, so nothing needs to look ahead.
\<close>

function toks :: "char option \<Rightarrow> string \<Rightarrow> tok list" where
  "toks quote [] = []"
| "toks quote (c # s) =
     (case quote of
        Some q \<Rightarrow> Chr c # toks (if c = q then None else quote) s
      | None \<Rightarrow>
          (if is_quote c then Chr c # toks (Some c) s
           else if starts_param c s then
             Par (takeWhile is_digit s) # toks None (dropWhile is_digit s)
           else Chr c # toks None s))"
  by pat_completeness auto
termination
  by (relation "measure (\<lambda>(quote, s). length s)")
    (auto simp: less_Suc_eq_le length_dropWhile_le)

definition param_indexes :: "tok list \<Rightarrow> nat list" where
  "param_indexes ts = concat (map (\<lambda>t. case t of Chr c \<Rightarrow> [] | Par ds \<Rightarrow> [Atoi_digits ds]) ts)"

lemma param_indexes_simps [simp]:
  "param_indexes [] = []"
  "param_indexes (Chr c # ts) = param_indexes ts"
  "param_indexes (Par ds # ts) = Atoi_digits ds # param_indexes ts"
  "param_indexes (ts @ us) = param_indexes ts @ param_indexes us"
  by (simp_all add: param_indexes_def)

lemma toks_text: "concat (map tok_text (toks quote s)) = s"
proof (induction quote s rule: toks.induct)
  case (2 quote c s)
  show ?case
  proof (cases quote)
    case None
    with 2 show ?thesis
      by (cases "is_quote c"; cases "starts_param c s") (simp_all add: starts_param_def)
  next
    case (Some q)
    with 2 show ?thesis by (cases "c = q") simp_all
  qed
qed simp

lemma drop_length_takeWhile: "drop (length (takeWhile P s)) s = dropWhile P s"
  by (simp add: dropWhile_eq_drop)

text \<open>The scanner renders the tokens one by one and takes the highest index.\<close>

lemma scan_from_toks:
  assumes "\<forall>q. quote = Some q \<longrightarrow> is_quote q"
  shows "scan_from (Some f) quote m s =
    (concat (map (render f) (toks quote s)), foldl max m (param_indexes (toks quote s)))"
  using assms
proof (induction "Some f" quote m s rule: scan_from.induct)
  case (2 quote m c s)
  show ?case
  proof (cases quote)
    case None
    with 2 show ?thesis
      by (auto simp: Let_def max_def drop_length_takeWhile)
  next
    case (Some q)
    with 2 show ?thesis
      by (cases s) auto
  qed
qed simp

lemma scan_from_toks_none:
  assumes "\<forall>q. quote = Some q \<longrightarrow> is_quote q"
  shows "scan_from None quote m s = (s, foldl max m (param_indexes (toks quote s)))"
  using assms
proof (induction "None :: (nat \<Rightarrow> string) option" quote m s rule: scan_from.induct)
  case (2 quote m c s)
  show ?case
  proof (cases quote)
    case None
    with 2 show ?thesis
      by (auto simp: Let_def max_def drop_length_takeWhile starts_param_def)
  next
    case (Some q)
    with 2 show ?thesis
      by (cases s) auto
  qed
qed simp

lemma substituteParams_toks:
  "substituteParams sql params = concat (map (render (param_text params)) (toks None sql))"
  by (simp add: substituteParams_def scanParams_def scan_from_toks)

lemma maxParamIndex_toks: "maxParamIndex sql = foldl max 0 (param_indexes (toks None sql))"
  by (simp add: maxParamIndex_def scanParams_def scan_from_toks_none)

section \<open>No placeholder survives\<close>

lemma toks_literal_body:
  "toks (Some CHR 0x27) (ReplaceAllByte v CHR 0x27 [CHR 0x27, CHR 0x27] @ CHR 0x27 # rest) =
    map Chr (ReplaceAllByte v CHR 0x27 [CHR 0x27, CHR 0x27] @ [CHR 0x27]) @ toks None rest"
  by (induction v) (auto simp: is_quote_def)

lemma toks_param_text:
  "toks None (param_text params i @ rest) = map Chr (param_text params i) @ toks None rest"
proof (cases "i - 1 < length params \<and> params ! (i - 1) \<noteq> None")
  case True
  then show ?thesis
    using toks_literal_body [of "the (params ! (i - 1))" rest]
    by (simp add: param_text_def param_literal_def is_quote_def)
next
  case False
  then show ?thesis
    by (auto simp: param_text_def is_quote_def starts_param_def)
qed

lemma param_text_hd: "hd (param_text params i @ rest) \<in> {CHR 0x27, CHR ''N''}"
  by (cases "i - 1 < length params \<and> params ! (i - 1) \<noteq> None")
    (auto simp: param_text_def param_literal_def)

lemma starts_param_rendered:
  assumes "starts_param c (concat (map (render (param_text params)) (toks None s)))"
  shows "starts_param c s"
proof (cases s)
  case Nil
  with assms show ?thesis by (simp add: starts_param_def)
next
  case (Cons d t)
  show ?thesis
  proof (cases "\<not> is_quote d \<and> starts_param d t")
    case True
    then have "hd (concat (map (render (param_text params)) (toks None s))) \<in> {CHR 0x27, CHR ''N''}"
      using param_text_hd by (simp add: Cons)
    with assms show ?thesis
      by (auto simp: starts_param_def less_eq_char_def)
  next
    case False
    then have "hd (concat (map (render (param_text params)) (toks None s))) = d"
      by (cases "is_quote d") (simp_all add: Cons)
    with assms show ?thesis by (simp add: Cons starts_param_def)
  qed
qed

lemma toks_rendered:
  assumes "\<forall>q. quote = Some q \<longrightarrow> is_quote q"
  shows "toks quote (concat (map (render (param_text params)) (toks quote s))) =
    map Chr (concat (map (render (param_text params)) (toks quote s)))"
  using assms
proof (induction quote s rule: toks.induct)
  case (2 quote c s)
  show ?case
  proof (cases quote)
    case None
    with 2 show ?thesis
      using starts_param_rendered [of c params s]
      by (cases "is_quote c"; cases "starts_param c s")
        (auto simp: toks_param_text)
  next
    case (Some q)
    with 2 show ?thesis by (cases "c = q") auto
  qed
qed simp

lemma param_indexes_Chr [simp]: "param_indexes (map Chr s) = []"
  by (induction s) auto

section \<open>Where the values stand\<close>

text \<open>The quote that is open after a text, as the reader of the statement sees it.\<close>

fun open_quote :: "char option \<Rightarrow> string \<Rightarrow> char option" where
  "open_quote quote [] = quote"
| "open_quote quote (c # s) =
     (case quote of
        Some q \<Rightarrow> open_quote (if c = q then None else quote) s
      | None \<Rightarrow> open_quote (if is_quote c then Some c else None) s)"

lemma open_quote_append [simp]: "open_quote q (s @ t) = open_quote (open_quote q s) t"
  by (induction q s rule: open_quote.induct) (auto split: option.split)

lemma open_quote_literal_body:
  "open_quote (Some CHR 0x27) (ReplaceAllByte v CHR 0x27 [CHR 0x27, CHR 0x27]) = Some CHR 0x27"
  by (induction v) (auto simp: is_quote_def)

lemma open_quote_param_text [simp]: "open_quote None (param_text params i) = None"
  by (auto simp: param_text_def param_literal_def is_quote_def open_quote_literal_body)

text \<open>A placeholder is found outside quotes only, and stays outside when those before it are
  substituted.\<close>

lemma open_quote_before_param:
  "toks quote s = ts @ Par ds # us \<Longrightarrow>
    open_quote quote (concat (map (render (param_text params)) ts)) = None"
proof (induction quote s arbitrary: ts rule: toks.induct)
  case (2 quote c s)
  show ?case
  proof (cases quote)
    case (Some q)
    with 2 show ?thesis
      by (cases ts) (auto simp del: if_split split del: if_split)
  next
    case None
    with 2 show ?thesis
      by (cases "is_quote c"; cases "starts_param c s"; cases ts) auto
  qed
qed simp

lemma toks_after_param:
  "toks quote s = ts @ Par ds # us \<Longrightarrow> toks None (concat (map tok_text us)) = us"
proof (induction quote s arbitrary: ts rule: toks.induct)
  case (2 quote c s)
  show ?case
  proof (cases quote)
    case (Some q)
    with 2 show ?thesis by (cases "c = q"; cases ts) auto
  next
    case None
    with 2 show ?thesis
      by (cases "is_quote c"; cases "starts_param c s"; cases ts) (auto simp: toks_text)
  qed
qed simp

lemma render_Chr [simp]: "concat (map (render f \<circ> Chr) s) = s"
  by (simp add: comp_def)

lemma toks_substituteParams: "toks None (substituteParams sql params) = map Chr (substituteParams sql params)"
  by (simp add: substituteParams_toks toks_rendered)

lemma foldl_max_ge:
  fixes m :: nat
  shows "foldl max m ns = Max (set (m # ns))"
proof (induction ns arbitrary: m)
  case (Cons n ns)
  have "Max (set (max m n # ns)) = Max (set (m # n # ns))"
    by (cases ns) (auto simp: max.assoc)
  with Cons.IH [of "max m n"] show ?case by simp
qed simp

lemma param_indexes_set: "set (param_indexes ts) = {Atoi_digits ds | ds. Par ds \<in> set ts}"
proof (induction ts)
  case (Cons t ts)
  then show ?case by (cases t) auto
qed simp

lemma foldl_digits_ge: "m \<le> foldl (\<lambda>n c. 10 * n + digit_val c) m s"
proof (induction s arbitrary: m)
  case (Cons c s)
  have "m \<le> 10 * m + digit_val c" by simp
  also have "\<dots> \<le> foldl (\<lambda>n c. 10 * n + digit_val c) (10 * m + digit_val c) s" by (rule Cons.IH)
  finally show ?case by simp
qed simp

text \<open>A placeholder's first digit is not 0, so the index 0 never occurs.\<close>

lemma param_index_pos:
  "Par ds \<in> set (toks quote s) \<Longrightarrow> 0 < Atoi_digits ds"
proof (induction quote s rule: toks.induct)
  case (2 quote c s)
  have "0 < Atoi_digits (takeWhile is_digit s)" if "starts_param c s"
  proof -
    from that obtain d t where s: "s = d # t" and d: "CHR ''1'' \<le> d" "d \<le> CHR ''9''"
      by (cases s) (auto simp: starts_param_def)
    then have "is_digit d" and "0 < digit_val d"
      by (auto simp: is_digit_def digit_val_def less_eq_char_def)
    moreover have "digit_val d \<le> digits_val (takeWhile is_digit s)"
      using foldl_digits_ge [of "digit_val d" "takeWhile is_digit t"] \<open>is_digit d\<close>
      by (simp add: s digits_val_def)
    ultimately show ?thesis
      by (simp add: Atoi_digits_def clamp64_def max_int64_def)
  qed
  with 2 show ?case
    by (auto split: option.splits if_splits)
qed simp

section \<open>Properties\<close>

text \<open>C10. The substitution is complete: whatever the values contain, the statement handed to
  DuckDB has no placeholder left, and substituting again changes nothing.\<close>

theorem substituteParams_closed:
  "maxParamIndex (substituteParams sql params) = 0 \<and>
    substituteParams (substituteParams sql params) params' = substituteParams sql params"
  by (simp add: maxParamIndex_toks toks_substituteParams
      substituteParams_toks [of "substituteParams sql params"])

text \<open>C9. No value breaks out of its literal. At the place of each placeholder with a value,
  outside every quote, the statement has one string literal, and the reader of that literal
  gets back exactly the bytes of the value and stops exactly where the rest of the statement
  begins. The text that follows the placeholder must not itself begin with a quote.\<close>

theorem bound_value_is_one_literal:
  assumes "toks None sql = ts @ Par ds # us"
    and "Atoi_digits ds - 1 < length params" and "params ! (Atoi_digits ds - 1) = Some v"
    and "ends_token CHR 0x27 (substituteParams (concat (map tok_text us)) params)"
  shows "\<exists>before. open_quote None before = None \<and>
    substituteParams sql params =
      before @ param_literal v @ substituteParams (concat (map tok_text us)) params \<and>
    read_quoted CHR 0x27 (drop (length before) (substituteParams sql params)) =
      Some (v, substituteParams (concat (map tok_text us)) params)"
proof (intro exI conjI)
  let ?A = "concat (map (render (param_text params)) ts)"
  show "open_quote None ?A = None"
    using assms(1) by (rule open_quote_before_param)
  show split: "substituteParams sql params =
      ?A @ param_literal v @ substituteParams (concat (map tok_text us)) params"
    using assms(2,3) toks_after_param [OF assms(1)]
    by (simp add: substituteParams_toks assms(1) param_text_def)
  show "read_quoted CHR 0x27 (drop (length ?A) (substituteParams sql params)) =
      Some (v, substituteParams (concat (map tok_text us)) params)"
    using pg_literal.read_back [OF assms(4)] by (simp add: split)
qed

lemma bound_value_is_one_literal_witness:
  "\<exists>before. substituteParams ''f($1)'' [Some [CHR ''a'', CHR 0x27]] =
      before @ [CHR 0x27, CHR ''a'', CHR 0x27, CHR 0x27, CHR 0x27] @ '')''"
proof -
  let ?ps = "[Some [CHR ''a'', CHR 0x27]]" and ?us = "[Chr CHR '')'']"
  have tail: "substituteParams (concat (map tok_text ?us)) ?ps = '')''"
    by code_simp
  have "toks None ''f($1)'' = [Chr CHR ''f'', Chr CHR ''(''] @ Par ''1'' # ?us"
    and idx: "Atoi_digits ''1'' - 1 < length ?ps" "?ps ! (Atoi_digits ''1'' - 1) = Some [CHR ''a'', CHR 0x27]"
    by code_simp+
  note found = bound_value_is_one_literal [OF this, unfolded tail]
  have "param_literal [CHR ''a'', CHR 0x27] = [CHR 0x27, CHR ''a'', CHR 0x27, CHR 0x27, CHR 0x27]"
    by code_simp
  with found show ?thesis by (auto intro: exI)
qed

text \<open>The parameter count reported to the client is right: \<open>maxParamIndex\<close> bounds every
  placeholder of the statement and is the index of one of them (or 0 when there is none), and
  the values beyond that count never reach the statement.\<close>

theorem maxParamIndex_counts:
  "set (param_indexes (toks None sql)) \<subseteq> {1..maxParamIndex sql} \<and>
    maxParamIndex sql \<in> insert 0 (set (param_indexes (toks None sql))) \<and>
    substituteParams sql (params @ replicate (maxParamIndex sql - length params) None @ extra) =
      substituteParams sql params"
proof (intro conjI)
  let ?ns = "set (0 # param_indexes (toks None sql))"
  have m: "maxParamIndex sql = Max ?ns"
    unfolding maxParamIndex_toks by (rule foldl_max_ge)
  have le: "Atoi_digits ds \<le> maxParamIndex sql" if "Par ds \<in> set (toks None sql)" for ds
  proof -
    from that have "Atoi_digits ds \<in> ?ns" by (auto simp: param_indexes_set)
    then show ?thesis unfolding m by (intro Max_ge) simp_all
  qed
  have pos: "0 < Atoi_digits ds" if "Par ds \<in> set (toks None sql)" for ds
    using that by (rule param_index_pos)
  show "set (param_indexes (toks None sql)) \<subseteq> {1..maxParamIndex sql}"
    using le pos by (fastforce simp: param_indexes_set)
  have "maxParamIndex sql \<in> ?ns" unfolding m by (rule Max_in) auto
  then show "maxParamIndex sql \<in> insert 0 (set (param_indexes (toks None sql)))"
    by simp
  have "render (param_text (params @ replicate (maxParamIndex sql - length params) None @ extra)) t =
      render (param_text params) t" if "t \<in> set (toks None sql)" for t
  proof (cases t)
    case (Par ds)
    with that le pos have "Atoi_digits ds \<le> maxParamIndex sql" "0 < Atoi_digits ds"
      by blast+
    with Par show ?thesis
      by (auto simp: param_text_def nth_append)
  qed simp
  then show "substituteParams sql (params @ replicate (maxParamIndex sql - length params) None @ extra) =
      substituteParams sql params"
    unfolding substituteParams_toks by (metis (no_types, lifting) map_cong)
qed

text \<open>The command tag carries the row count where the client looks for it, after the last
  blank of the tag: for a statement whose first word is one of the counting commands, in
  whatever case, that last field of the tag is the decimal number of rows, and the first one
  is the command.\<close>

theorem commandTag_count:
  assumes "Fields (TrimSpace sql) = f # fs"
    and "ToUpper f \<in> {''SELECT'', ''WITH'', ''SHOW'', ''TABLE'', ''VALUES'', ''INSERT'', ''UPDATE'', ''DELETE''}"
  shows "scan_int (last (SplitByte (commandTag sql n) CHR '' '')) = Some (int n) \<and>
    hd (SplitByte (commandTag sql n) CHR '' '') =
      (if ToUpper f \<in> {''INSERT'', ''UPDATE'', ''DELETE''} then ToUpper f else ''SELECT'')"
proof -
  have digits: "CHR '' '' \<notin> set (show_nat n)"
    using show_nat_digits [of n] by (auto simp: list_all_iff is_digit_def less_eq_char_def)
  have alone: "SplitByte (show_nat n) CHR '' '' = [show_nat n]"
    using SplitByte_absent [OF digits] .
  have "scan_int (show_nat n) = Some (int n)"
    using scan_int_show_int [of "int n"] by (simp add: show_int_def)
  with assms alone show ?thesis
    by (auto simp: commandTag_def Let_def)
qed

lemma commandTag_count_witness:
  "scan_int (last (SplitByte (commandTag '' insert into t values (1)'' 12) CHR '' '')) = Some 12"
proof -
  have "Fields (TrimSpace '' insert into t values (1)'') = ''insert'' # [''into'', ''t'', ''values'', ''(1)'']"
    and "ToUpper ''insert'' \<in> {''SELECT'', ''WITH'', ''SHOW'', ''TABLE'', ''VALUES'', ''INSERT'', ''UPDATE'', ''DELETE''}"
    by code_simp+
  from commandTag_count [OF this, of 12] show ?thesis by simp
qed

text \<open>The tag is taken from the first blank-separated field, the transaction state from the
  first word: a semicolon stays in the tag.\<close>

lemma commandTag_semicolon:
  "commandTag ''COMMIT;'' 0 = ''COMMIT;'' \<and> firstKeyword ''COMMIT;'' = ''COMMIT''"
  by code_simp

end
