(* ===== verification/GoValues.thy ===== *)
theory GoValues
  imports GoNumbers
begin

text \<open>
  The dynamic values (Go's \<open>any\<close>) that the DuckDB driver scans into a result row and that
  drivers bind as parameters, with \<open>time.Time\<close> and the printing of values by \<open>fmt.Sprint\<close>.

  Floating point is a parameter: a \<open>float64\<close> is its IEEE bit pattern, and the conversions
  and the printing that hardware and \<open>strconv\<close> do are the fields of \<open>float_lib\<close>.
\<close>

section \<open>Time\<close>

text \<open>
  An instant, as nanoseconds since the Unix epoch, and the offset of its location from UTC
  in seconds.
\<close>

record gtime =
  t_ns :: int
  t_off :: int

definition ns_per_sec :: int where "ns_per_sec = 1000000000"
definition ns_per_day :: int where "ns_per_day = 86400000000000"

text \<open>The zero \<open>time.Time\<close>: January 1, year 1, 00:00:00 UTC.\<close>

definition zero_time :: gtime where
  "zero_time = \<lparr>t_ns = - 62135596800 * 1000000000, t_off = 0\<rparr>"

definition t_Unix :: "gtime \<Rightarrow> int" where
  "t_Unix t = t_ns t div ns_per_sec"

text \<open>\<open>t.Sub(u)\<close> is a \<open>Duration\<close>, an \<open>int64\<close> of nanoseconds, and saturates.\<close>

definition t_Sub :: "gtime \<Rightarrow> gtime \<Rightarrow> int" where
  "t_Sub t u = clamp64 (t_ns t - t_ns u)"

text \<open>Go's integer division truncates towards zero.\<close>

definition go_quot :: "int \<Rightarrow> int \<Rightarrow> int" where
  "go_quot a b = sgn a * sgn b * (\<bar>a\<bar> div \<bar>b\<bar>)"

definition d_Microseconds :: "int \<Rightarrow> int" where
  "d_Microseconds d = go_quot d 1000"

text \<open>Year, month and day of a day number (days since 1970-01-01, Gregorian calendar).\<close>

definition civil_of_days :: "int \<Rightarrow> int \<times> int \<times> int" where
  "civil_of_days z =
     (let z' = z + 719468;
          era = z' div 146097; doe = z' mod 146097;
          yoe = (doe - doe div 1460 + doe div 36524 - doe div 146096) div 365;
          doy = doe - (365 * yoe + yoe div 4 - yoe div 100);
          mp = (5 * doy + 2) div 153;
          d = doy - (153 * mp + 2) div 5 + 1;
          m = (if mp < 10 then mp + 3 else mp - 9)
      in (yoe + era * 400 + (if m \<le> 2 then 1 else 0), m, d))"

definition pad_left :: "nat \<Rightarrow> string \<Rightarrow> string" where
  "pad_left n s = replicate (n - length s) CHR ''0'' @ s"

definition show_year :: "int \<Rightarrow> string" where
  "show_year y = (if y < 0 then CHR ''-'' # pad_left 4 (show_nat (nat (- y)))
                  else pad_left 4 (show_nat (nat y)))"

definition show2 :: "int \<Rightarrow> string" where
  "show2 n = pad_left 2 (show_nat (nat n))"

text \<open>\<open>t.Format(''2006-01-02 15:04:05'')\<close>, and the same with \<open>.999999\<close> appended.\<close>

definition format_seconds :: "gtime \<Rightarrow> string" where
  "format_seconds t =
     (let s = t_Unix t + t_off t; day = s div 86400; r = s mod 86400;
          (y, m, d) = civil_of_days day
      in show_year y @ ''-'' @ show2 m @ ''-'' @ show2 d @ '' '' @
         show2 (r div 3600) @ '':'' @ show2 (r div 60 mod 60) @ '':'' @ show2 (r mod 60))"

definition format_fraction :: "gtime \<Rightarrow> string" where
  "format_fraction t =
     (let ds = pad_left 6 (show_nat (nat (t_ns t mod ns_per_sec div 1000)));
          kept = rev (dropWhile (\<lambda>c. c = CHR ''0'') (rev ds))
      in if kept = [] then [] else CHR ''.'' # kept)"

definition format_micros :: "gtime \<Rightarrow> string" where
  "format_micros t = format_seconds t @ format_fraction t"

lemma quote_not_in_show_nat: "CHR 0x27 \<notin> set (show_nat n)"
  using show_nat_digits [of n] by (auto simp: list_all_iff is_digit_def less_eq_char_def)

lemma quote_not_in_pad_left: "CHR 0x27 \<notin> set s \<Longrightarrow> CHR 0x27 \<notin> set (pad_left n s)"
  by (auto simp: pad_left_def)

lemma quote_not_in_format_micros: "CHR 0x27 \<notin> set (format_micros t)"
proof -
  have year: "CHR 0x27 \<notin> set (show_year y)" and two: "CHR 0x27 \<notin> set (show2 n)" for y n
    by (simp_all add: show_year_def show2_def quote_not_in_pad_left quote_not_in_show_nat)
  then have "CHR 0x27 \<notin> set (format_seconds t)"
    by (simp add: format_seconds_def Let_def split: prod.split)
  moreover have "CHR 0x27 \<notin> set (format_fraction t)"
    using quote_not_in_pad_left [OF quote_not_in_show_nat]
    by (auto simp: format_fraction_def Let_def dest!: set_dropWhileD)
  ultimately show ?thesis by (simp add: format_micros_def)
qed

lemma d_Microseconds_exact: "1000 dvd d \<Longrightarrow> d_Microseconds d = d div 1000"
  by (auto simp: d_Microseconds_def go_quot_def abs_if sgn_if elim!: dvdE)

lemma clamp64_range: "\<bar>clamp64 d\<bar> \<le> 2 ^ 63"
  by (simp add: clamp64_def max_int64_def min_int64_def)

lemma d_Microseconds_range: "\<bar>d\<bar> \<le> 2 ^ 63 \<Longrightarrow> in_int64 (d_Microseconds d)"
  by (auto simp: d_Microseconds_def go_quot_def in_int64_def max_int64_def min_int64_def
      sgn_if abs_if)

section \<open>Values\<close>

type_synonym f32 = "32 word"
type_synonym f64 = "64 word"

text \<open>
  \<open>VBigInt\<close> is a \<open>*big.Int\<close> (DuckDB's HUGEINT); \<open>VOther\<close> is a value of any other Go type
  (decimals, UUIDs, intervals, lists, \<dots>), known by the text \<open>fmt.Sprint\<close> gives it.
\<close>

datatype "value" =
    VNil | VBool bool
  | VInt "64 word" | VInt8 "8 word" | VInt16 "16 word" | VInt32 "32 word" | VInt64 "64 word"
  | VUint "64 word" | VUint8 "8 word" | VUint16 "16 word" | VUint32 "32 word" | VUint64 "64 word"
  | VFloat32 f32 | VFloat64 f64
  | VString string | VBytes string | VTime gtime | VBigInt int | VOther string

record float_lib =
  f_sprint32 :: "f32 \<Rightarrow> string"
  f_sprint64 :: "f64 \<Rightarrow> string"
  f_format_g :: "f64 \<Rightarrow> string"
  f_of_f32 :: "f32 \<Rightarrow> f64"
  f_to_f32 :: "f64 \<Rightarrow> f32"
  f_of_int :: "int \<Rightarrow> f64"
  f_to_int64 :: "f64 \<Rightarrow> 64 word"
  f_parse :: "string \<Rightarrow> f64"
  t_string :: "gtime \<Rightarrow> string"
  t_parse :: "string \<Rightarrow> string \<Rightarrow> gtime option"

text \<open>One such library, for the examples.\<close>

definition demo_floats :: float_lib where
  "demo_floats =
     \<lparr>f_sprint32 = (\<lambda>_. ''0''), f_sprint64 = (\<lambda>_. ''0''), f_format_g = (\<lambda>_. ''0''),
      f_of_f32 = (\<lambda>x. 0), f_to_f32 = (\<lambda>x. 0), f_of_int = (\<lambda>i. 0), f_to_int64 = (\<lambda>x. 0),
      f_parse = (\<lambda>s. 0), t_string = (\<lambda>t. []), t_parse = (\<lambda>l s. None)\<rparr>"

text \<open>\<open>fmt.Sprint\<close> of one operand.\<close>

fun Sprint :: "float_lib \<Rightarrow> value \<Rightarrow> string" where
  "Sprint F VNil = ''<nil>''"
| "Sprint F (VBool b) = (if b then ''true'' else ''false'')"
| "Sprint F (VInt w) = show_int (sint w)"
| "Sprint F (VInt8 w) = show_int (sint w)"
| "Sprint F (VInt16 w) = show_int (sint w)"
| "Sprint F (VInt32 w) = show_int (sint w)"
| "Sprint F (VInt64 w) = show_int (sint w)"
| "Sprint F (VUint w) = show_int (uint w)"
| "Sprint F (VUint8 w) = show_int (uint w)"
| "Sprint F (VUint16 w) = show_int (uint w)"
| "Sprint F (VUint32 w) = show_int (uint w)"
| "Sprint F (VUint64 w) = show_int (uint w)"
| "Sprint F (VFloat32 x) = f_sprint32 F x"
| "Sprint F (VFloat64 x) = f_sprint64 F x"
| "Sprint F (VString s) = s"
| "Sprint F (VBytes s) =
     ''['' @ JoinStr (map (\<lambda>c. show_nat (of_char c)) s) '' '' @ '']''"
| "Sprint F (VTime t) = t_string F t"
| "Sprint F (VBigInt i) = show_int i"
| "Sprint F (VOther s) = s"

text \<open>The integer that an integer-typed value holds.\<close>

fun int_of_value :: "value \<Rightarrow> int option" where
  "int_of_value (VInt w) = Some (sint w)"
| "int_of_value (VInt8 w) = Some (sint w)"
| "int_of_value (VInt16 w) = Some (sint w)"
| "int_of_value (VInt32 w) = Some (sint w)"
| "int_of_value (VInt64 w) = Some (sint w)"
| "int_of_value (VUint w) = Some (uint w)"
| "int_of_value (VUint8 w) = Some (uint w)"
| "int_of_value (VUint16 w) = Some (uint w)"
| "int_of_value (VUint32 w) = Some (uint w)"
| "int_of_value (VUint64 w) = Some (uint w)"
| "int_of_value (VBigInt i) = Some i"
| "int_of_value _ = None"

fun_cases int_of_value_SomeE: "int_of_value v = Some i"

lemma Sprint_int_of_value: "int_of_value v = Some i \<Longrightarrow> Sprint F v = show_int i"
  by (elim int_of_value_SomeE) auto

section \<open>Query results\<close>

text \<open>\<open>engine.Column\<close> and \<open>engine.QueryResult\<close>; \<open>VNil\<close> in a row is SQL NULL.\<close>

record column =
  c_name :: string
  c_type :: string

record query_result =
  q_cols :: "column list"
  q_rows :: "value list list"

definition empty_result :: query_result where
  "empty_result = \<lparr>q_cols = [], q_rows = []\<rparr>"

text \<open>The type name without its parameters, in upper case: \<open>DECIMAL(5,2)\<close> gives \<open>DECIMAL\<close>.\<close>

definition base_type :: "string \<Rightarrow> string" where
  "base_type t = (let u = ToUpper t in cut_at (IndexByte u CHR ''('') u)"

end
