(* ===== verification/Engine.thy ===== *)
theory Engine
  imports GoValues SqlQuote
begin

text \<open>
  Package \<open>engine\<close>, file internal/engine/duckdb.go: the engine's state, the registration of
  sources as tables, the execution of a query with its stub mode, and the classification of
  DuckDB errors. DuckDB and the file system are a parameter, the record \<open>env\<close>: each
  operation takes the state of the outside world and returns it changed, with the value or
  the error the Go call would return.
\<close>

section \<open>The world outside: DuckDB, the file system\<close>

text \<open>\<open>*sql.DB\<close> runs a statement on any pooled connection, \<open>*sql.Conn\<close> on one of them.\<close>

datatype querier = Pool | Pinned nat

text \<open>
  A \<open>*sql.Rows\<close>: what \<open>Columns()\<close> returns, the type names of \<open>ColumnTypes()\<close>, for each \<open>Next()\<close> the values of the row or the error of scanning it, and what
  \<open>Err()\<close> returns at the end.
\<close>

record rows =
  rw_columns :: "string list result"
  rw_types :: "string list result"
  rw_scans :: "value list result list"
  rw_err :: go_error

text \<open>
  The last four fields serve internal/engine/source\_clickhouse.go: parsing a DSN and
  pinging the server, a query on the server, and a prepared insert on DuckDB.
\<close>

record 'w env =
  x_floats :: float_lib
  x_open :: "string \<Rightarrow> 'w result"
  x_exec :: "'w \<Rightarrow> string \<Rightarrow> 'w \<times> go_error"
  x_query :: "'w \<Rightarrow> querier \<Rightarrow> string \<Rightarrow> 'w \<times> rows result"
  x_tables :: "'w \<Rightarrow> string \<Rightarrow> 'w \<times> ((string \<times> string) result list \<times> go_error) result"
  x_readdir :: "string \<Rightarrow> (string \<times> bool) list result"
  x_ch_connect :: "string \<Rightarrow> (string + string) option"
  x_ch_query :: "string \<Rightarrow> string \<Rightarrow> rows result"
  x_prepare :: "'w \<Rightarrow> string \<Rightarrow> 'w \<times> go_error"
  x_insert :: "'w \<Rightarrow> string \<Rightarrow> value list \<Rightarrow> 'w \<times> go_error"

section \<open>State\<close>

record 'w engine =
  e_db :: 'w
  e_tables :: "string list"
  e_seen :: "string \<rightharpoonup> string"
  e_stub :: bool
  e_logged :: "string set option"
  e_log :: "string list"

record source =
  s_name :: string
  s_type :: string
  s_path :: string
  s_dsn :: string
  s_tables :: "string list"

text \<open>
  \<open>e_logged\<close> is the map \<open>logged\<close>, \<open>None\<close> while it is nil; \<open>e_log\<close> is what the engine has
  printed on the process log.
\<close>

definition print_log :: "'w engine \<Rightarrow> string \<Rightarrow> 'w engine" where
  "print_log e line = e\<lparr>e_log := e_log e @ [line]\<rparr>"

definition SetStubMissing :: "'w engine \<Rightarrow> bool \<Rightarrow> 'w engine" where
  "SetStubMissing e on =
     (let e' = e\<lparr>e_stub := on\<rparr>
      in if e_logged e' = None then e'\<lparr>e_logged := Some {}\<rparr> else e')"

definition logOnce :: "'w engine \<Rightarrow> string \<Rightarrow> string \<Rightarrow> 'w engine" where
  "logOnce e key line =
     (let seen = (case e_logged e of None \<Rightarrow> {} | Some m \<Rightarrow> m);
          e' = e\<lparr>e_logged := Some seen\<rparr>
      in if key \<in> seen then e'
         else print_log (e'\<lparr>e_logged := Some (insert key seen)\<rparr>) line)"

section \<open>Quoting and naming\<close>

definition quoteIdent :: "string \<Rightarrow> string" where
  "quoteIdent name = [CHR 0x22] @ ReplaceAllByte name CHR 0x22 [CHR 0x22, CHR 0x22] @ [CHR 0x22]"

definition escapeSQL :: "string \<Rightarrow> string" where
  "escapeSQL s = ReplaceAllByte s CHR 0x27 [CHR 0x27, CHR 0x27]"

text \<open>The text \<open>'%s'\<close> with an escaped argument, as the loaders write a string literal.\<close>

definition sql_literal :: "string \<Rightarrow> string" where
  "sql_literal s = [CHR 0x27] @ escapeSQL s @ [CHR 0x27]"

definition fileTable :: "string \<Rightarrow> string" where
  "fileTable path = (let base = path_Base path in TrimSuffix base (path_Ext base))"

interpretation ident: sql_quoting "CHR 0x22" quoteIdent
  by unfold_locales (simp add: quoteIdent_def quote_doubled_def [symmetric] read_quoted_doubled)

interpretation literal: sql_quoting "CHR 0x27" sql_literal
  by unfold_locales
    (simp add: sql_literal_def escapeSQL_def quote_doubled_def [symmetric] read_quoted_doubled)

section \<open>Errors of DuckDB\<close>

datatype errClass = errApp | errMissingRelation | errDialectGap

definition classifyErr :: "go_error \<Rightarrow> errClass" where
  "classifyErr err =
     (case err of
        None \<Rightarrow> errApp
      | Some msg \<Rightarrow>
          (let m = ToLower msg
           in if Contains m ''does not exist'' \<and>
                 (Contains m ''table with name'' \<or> Contains m ''view with name'' \<or>
                  Contains m ''with name'' \<and> \<not> Contains m ''column'')
              then errMissingRelation
              else if Contains m ''not implemented error'' then errDialectGap
              else if Contains m ''unrecognized configuration parameter'' then errDialectGap
              else errApp))"

text \<open>
  The regular expression \<open>with name "?([^"\s]+)"? does not exist\<close>: the match that starts at
  the beginning of \<open>s\<close>. The class excludes what may follow it, so the greedy choices are the
  only ones.
\<close>

definition name_byte :: "char \<Rightarrow> bool" where
  "name_byte c \<longleftrightarrow> c \<notin> set [CHR 0x22, CHR '' '', CHR 0x09, CHR 0x0A, CHR 0x0C, CHR 0x0D]"

definition drop_quote :: "string \<Rightarrow> string" where
  "drop_quote s = (case s of c # t \<Rightarrow> if c = CHR 0x22 then t else s | [] \<Rightarrow> [])"

definition reMissingName_at :: "string \<Rightarrow> string option" where
  "reMissingName_at s =
     (if HasPrefix s ''with name '' then
        (let r = drop_quote (drop 10 s);
             name = takeWhile name_byte r
         in if name \<noteq> [] \<and> HasPrefix (drop_quote (drop (length name) r)) '' does not exist''
            then Some name else None)
      else None)"

fun reMissingName :: "string \<Rightarrow> string option" where
  "reMissingName [] = None"
| "reMissingName (c # s) =
     (case reMissingName_at (c # s) of Some name \<Rightarrow> Some name | None \<Rightarrow> reMissingName s)"

definition missingRelationName :: "go_error \<Rightarrow> string" where
  "missingRelationName err =
     (case err of
        None \<Rightarrow> ''?''
      | Some msg \<Rightarrow>
          (case reMissingName msg of Some m \<Rightarrow> TrimCut m [CHR 0x22] | None \<Rightarrow> ''?''))"

definition firstLine :: "string \<Rightarrow> string" where
  "firstLine s = cut_at (IndexByte s CHR 0x0A) s"

section \<open>Running a query\<close>

text \<open>A Go result \<open>(*QueryResult, error)\<close>: both parts may be present.\<close>

type_synonym run_result = "query_result option \<times> go_error"

text \<open>
  \<open>rows.Scan\<close> into \<open>n\<close> destinations fails unless the row has \<open>n\<close> values; a byte slice is
  then normalized to a string.
\<close>

definition scan_row :: "nat \<Rightarrow> value list result \<Rightarrow> value list result" where
  "scan_row n r =
     (case r of
        Inl err \<Rightarrow> Inl err
      | Inr vals \<Rightarrow> if length vals = n then Inr vals
                   else Inl ''sql: wrong number of destination arguments in Scan'')"

definition normalize_bytes :: "value \<Rightarrow> value" where
  "normalize_bytes v = (case v of VBytes b \<Rightarrow> VString b | _ \<Rightarrow> v)"

fun collect_rows :: "nat \<Rightarrow> value list result list \<Rightarrow> value list list result" where
  "collect_rows n [] = Inr []"
| "collect_rows n (r # rs) =
     (case scan_row n r of
        Inl err \<Rightarrow> Inl err
      | Inr vals \<Rightarrow>
          (case collect_rows n rs of
             Inl err \<Rightarrow> Inl err
           | Inr rest \<Rightarrow> Inr (map normalize_bytes vals # rest)))"

text \<open>Column \<open>i\<close> gets type name \<open>i\<close>, or the empty one when there are fewer types.\<close>

fun make_cols :: "string list \<Rightarrow> string list \<Rightarrow> column list" where
  "make_cols [] ts = []"
| "make_cols (n # ns) [] = \<lparr>c_name = n, c_type = []\<rparr> # make_cols ns []"
| "make_cols (n # ns) (t # ts) = \<lparr>c_name = n, c_type = t\<rparr> # make_cols ns ts"

definition buffer_rows :: "rows \<Rightarrow> run_result" where
  "buffer_rows r =
     (case rw_columns r of
        Inl err \<Rightarrow> (None, Some err)
      | Inr names \<Rightarrow>
          (case collect_rows (length names) (rw_scans r) of
             Inl err \<Rightarrow> (None, Some err)
           | Inr rws \<Rightarrow>
               (Some \<lparr>q_cols = make_cols names (case rw_types r of Inl _ \<Rightarrow> [] | Inr ts \<Rightarrow> ts),
                      q_rows = rws\<rparr>, rw_err r)))"

definition runOn :: "'w env \<Rightarrow> 'w engine \<Rightarrow> querier \<Rightarrow> string \<Rightarrow> 'w engine \<times> run_result" where
  "runOn X e q query =
     (case x_query X (e_db e) q query of
        (w, Inl err) \<Rightarrow>
          (let e = e\<lparr>e_db := w\<rparr>
           in case classifyErr (Some err) of
                errMissingRelation \<Rightarrow>
                  (let name = missingRelationName (Some err)
                   in if e_stub e
                      then (logOnce e (''missing:'' @ name)
                              (''engine: relation '' @ Quote name @
                               '' not found -- serving empty (stub-missing-schema)''),
                            Some empty_result, None)
                      else (logOnce e (''missing:'' @ name)
                              (''engine: relation '' @ Quote name @
                               '' not found -- query will error (load it, or run with -stub-missing-schema)''),
                            None, Some err))
              | errDialectGap \<Rightarrow>
                  (if e_stub e
                   then (logOnce e err
                           (''engine: WARNING fidelity gap, DuckDB can'' @ [CHR 0x27] @
                            ''t run this; serving empty: '' @ firstLine err),
                         Some empty_result, None)
                   else (e, None, Some err))
              | errApp \<Rightarrow> (e, None, Some err))
      | (w, Inr rws) \<Rightarrow> (e\<lparr>e_db := w\<rparr>, buffer_rows rws))"

definition Run :: "'w env \<Rightarrow> 'w engine \<Rightarrow> string \<Rightarrow> 'w engine \<times> run_result" where
  "Run X e query = runOn X e Pool query"

definition RunConn :: "'w env \<Rightarrow> 'w engine \<Rightarrow> nat \<Rightarrow> string \<Rightarrow> 'w engine \<times> run_result" where
  "RunConn X e c query = runOn X e (Pinned c) query"

section \<open>The contract of a query runner\<close>

text \<open>
  What every protocol front end relies on: a call without a result has an error (so a nil
  result is never dereferenced after the error check), a result is rectangular, and its
  values hold no byte slices (\<open>runOn\<close> turned them into strings).
\<close>

fun is_bytes :: "value \<Rightarrow> bool" where
  "is_bytes (VBytes b) = True"
| "is_bytes _ = False"

definition rect :: "query_result \<Rightarrow> bool" where
  "rect r \<longleftrightarrow>
     (\<forall>row \<in> set (q_rows r). length row = length (q_cols r) \<and> (\<forall>v \<in> set row. \<not> is_bytes v))"

locale query_runner =
  fixes run :: "'e \<Rightarrow> string \<Rightarrow> 'e \<times> run_result"
  assumes no_nil: "run e s = (e', None, err) \<Longrightarrow> err \<noteq> None"
    and result_rect: "run e s = (e', Some r, err) \<Longrightarrow> rect r"
begin

lemma ok_result:
  assumes "run e s = (e', res, None)"
  obtains r where "res = Some r" and "rect r"
proof (cases res)
  case None
  with assms no_nil show ?thesis by blast
next
  case (Some r)
  with assms result_rect that show ?thesis by blast
qed

lemma row_in_columns:
  assumes "run e s = (e', Some r, err)" and "row \<in> set (q_rows r)" and "i < length row"
  shows "i < length (q_cols r)"
  using result_rect [OF assms(1)] assms(2,3) by (simp add: rect_def)

end

lemma length_make_cols [simp]: "length (make_cols ns ts) = length ns"
  by (induction ns ts rule: make_cols.induct) auto

lemma map_c_name_make_cols [simp]: "map c_name (make_cols ns ts) = ns"
  by (induction ns ts rule: make_cols.induct) auto

lemma normalize_bytes_not_bytes [simp]: "\<not> is_bytes (normalize_bytes v)"
  by (cases v) (auto simp: normalize_bytes_def)

lemma scan_row_length: "scan_row n r = Inr vals \<Longrightarrow> length vals = n"
  by (auto simp: scan_row_def split: sum.splits if_splits)

lemma collect_rows_rect:
  "collect_rows n rs = Inr out \<Longrightarrow> row \<in> set out \<Longrightarrow>
    length row = n \<and> (\<forall>v \<in> set row. \<not> is_bytes v)"
  by (induction rs arbitrary: out) (fastforce split: sum.splits dest: scan_row_length)+

lemma buffer_rows_rect: "buffer_rows r = (Some res, err) \<Longrightarrow> rect res"
  by (auto simp: buffer_rows_def rect_def split: sum.splits dest: collect_rows_rect)

lemma buffer_rows_None: "buffer_rows r = (None, err) \<Longrightarrow> err \<noteq> None"
  by (auto simp: buffer_rows_def split: sum.splits)

lemma rect_empty [simp]: "rect empty_result"
  by (simp add: rect_def empty_result_def)

lemma runOn_rows:
  "x_query X (e_db e) q s = (w, Inr rws) \<Longrightarrow> runOn X e q s = (e\<lparr>e_db := w\<rparr>, buffer_rows rws)"
  by (simp add: runOn_def)

text \<open>On a DuckDB error the answer depends on the class of the error and the stub mode only.\<close>

lemma runOn_error:
  assumes "x_query X (e_db e) q s = (w, Inl err)"
  shows "snd (runOn X e q s) =
    (if e_stub e \<and> classifyErr (Some err) \<noteq> errApp then (Some empty_result, None)
     else (None, Some err))"
  using assms by (cases "classifyErr (Some err)") (simp_all add: runOn_def Let_def)

lemma runOn_cases:
  obtains (error) w err where "x_query X (e_db e) q s = (w, Inl err)"
  | (rows) w rws where "x_query X (e_db e) q s = (w, Inr rws)"
  by (metis old.prod.exhaust old.sum.exhaust)

lemma query_runner_runOn: "query_runner (\<lambda>e s. runOn X e q s)"
proof
  fix e e' s err
  assume "runOn X e q s = (e', None, err)"
  then show "err \<noteq> None"
    by (cases rule: runOn_cases [of X e q s])
       (use runOn_error runOn_rows buffer_rows_None in \<open>fastforce split: if_splits\<close>)+
next
  fix e e' s r err
  assume "runOn X e q s = (e', Some r, err)"
  then show "rect r"
    by (cases rule: runOn_cases [of X e q s])
       (use runOn_error runOn_rows buffer_rows_rect in \<open>fastforce split: if_splits\<close>)+
qed

interpretation run: query_runner "Run X"
  by (simp add: Run_def [abs_def] query_runner_runOn)

interpretation conn: query_runner "\<lambda>e s. RunConn X e c s"
  by (simp add: RunConn_def query_runner_runOn)

section \<open>One-time logging\<close>

definition logged_keys :: "'w engine \<Rightarrow> string set" where
  "logged_keys e = (case e_logged e of None \<Rightarrow> {} | Some m \<Rightarrow> m)"

lemma logged_keys_logOnce: "logged_keys (logOnce e k l) = insert k (logged_keys e)"
  by (auto simp: logged_keys_def logOnce_def print_log_def Let_def)

lemma e_log_logOnce:
  "e_log (logOnce e k l) = (if k \<in> logged_keys e then e_log e else e_log e @ [l])"
  by (auto simp: logged_keys_def logOnce_def print_log_def Let_def)

lemma logOnce_frame [frame_simps]:
  "e_db (logOnce e k l) = e_db e" "e_tables (logOnce e k l) = e_tables e"
  "e_seen (logOnce e k l) = e_seen e" "e_stub (logOnce e k l) = e_stub e"
  by (simp_all add: logOnce_def print_log_def Let_def)

lemma runOn_frame [frame_simps]:
  "e_tables (fst (runOn X e q s)) = e_tables e"
  "e_seen (fst (runOn X e q s)) = e_seen e"
  "e_stub (fst (runOn X e q s)) = e_stub e"
  by (auto simp: runOn_def Let_def frame_simps split: prod.splits sum.splits errClass.splits)

lemma e_db_runOn: "e_db (fst (runOn X e q s)) = fst (x_query X (e_db e) q s)"
  by (auto simp: runOn_def Let_def frame_simps split: prod.splits sum.splits errClass.splits)

text \<open>The log of an engine has exactly one line per key, on top of \<open>n\<close> older ones.\<close>

definition log_ok :: "nat \<Rightarrow> 'w engine \<Rightarrow> bool" where
  "log_ok n e \<longleftrightarrow> finite (logged_keys e) \<and> length (e_log e) = n + card (logged_keys e)"

lemma log_ok_logOnce: "log_ok n e \<Longrightarrow> log_ok n (logOnce e k l)"
  by (auto simp: log_ok_def logged_keys_logOnce e_log_logOnce insert_absorb)

lemma log_ok_e_db [simp]: "log_ok n (e\<lparr>e_db := w\<rparr>) \<longleftrightarrow> log_ok n e"
  by (simp add: log_ok_def logged_keys_def)

lemma log_ok_runOn: "log_ok n e \<Longrightarrow> log_ok n (fst (runOn X e q s))"
  by (auto simp: runOn_def Let_def log_ok_logOnce split: prod.splits sum.splits errClass.splits)

interpretation queries: inv_machine "\<lambda>e (q, s). fst (runOn X e q s)" "log_ok n"
  by unfold_locales (auto simp: log_ok_runOn)

section \<open>A concrete world\<close>

text \<open>
  A world that records the statements it executes and answers queries by a given function;
  the examples below run the model in it.
\<close>

definition demo_env :: "(string \<Rightarrow> rows result) \<Rightarrow> string list env" where
  "demo_env ans =
     \<lparr>x_floats = demo_floats, x_open = (\<lambda>path. Inr []),
      x_exec = (\<lambda>w s. (w @ [s], None)),
      x_query = (\<lambda>w q s. (w @ [s], ans s)),
      x_tables = (\<lambda>w s. (w, Inr ([Inr (''main'', ''t'')], None))),
      x_readdir = (\<lambda>d. Inr [(''a.csv'', False), (''a.parquet'', False), (''b.txt'', False)]),
      x_ch_connect = (\<lambda>d. None), x_ch_query = (\<lambda>d s. Inl ''no server''),
      x_prepare = (\<lambda>w s. (w, None)), x_insert = (\<lambda>w s vs. (w, None))\<rparr>"

definition one_row :: "string \<Rightarrow> string \<Rightarrow> value \<Rightarrow> rows" where
  "one_row name type v =
     \<lparr>rw_columns = Inr [name], rw_types = Inr [type], rw_scans = [Inr [v]], rw_err = None\<rparr>"

definition demo_engine :: "bool \<Rightarrow> string list engine" where
  "demo_engine stub =
     \<lparr>e_db = [], e_tables = [], e_seen = Map.empty, e_stub = stub, e_logged = None, e_log = []\<rparr>"

section \<open>Properties\<close>

text \<open>C21. Stub mode only ever replaces an error, and only one that is not the application's
  fault: with stub mode on, a query either answers exactly as with stub mode off, or it
  answers with the empty result where it would have failed with a missing relation or a
  dialect gap.\<close>

theorem stub_mode_effect:
  "let off = snd (runOn X (SetStubMissing e False) q s);
       on = snd (runOn X (SetStubMissing e True) q s)
   in (on = off \<and> (\<forall>err. off = (None, Some err) \<longrightarrow>
         snd (x_query X (e_db e) q s) = Inl err \<longrightarrow> classifyErr (Some err) = errApp)) \<or>
      (\<exists>err. off = (None, Some err) \<and> classifyErr (Some err) \<noteq> errApp \<and>
             on = (Some empty_result, None))"
proof -
  have stub [simp]: "e_db (SetStubMissing e b) = e_db e" "e_stub (SetStubMissing e b) = b" for b
    by (simp_all add: SetStubMissing_def Let_def)
  show ?thesis
  proof (cases rule: runOn_cases [of X e q s])
    case (error w err)
    then show ?thesis
      using runOn_error [of X "SetStubMissing e True" q s w err]
        runOn_error [of X "SetStubMissing e False" q s w err] by simp
  next
    case (rows w rws)
    then show ?thesis
      using runOn_rows [of X "SetStubMissing e True" q s w rws]
        runOn_rows [of X "SetStubMissing e False" q s w rws] by simp
  qed
qed

lemma stub_mode_effect_witness:
  "let X = demo_env (\<lambda>s. Inl ''Catalog Error: Table with name t does not exist!'')
   in snd (runOn X (SetStubMissing (demo_engine False) True) Pool ''SELECT * FROM t'') =
      (Some empty_result, None)"
proof -
  let ?X = "demo_env (\<lambda>s. Inl ''Catalog Error: Table with name t does not exist!'')"
  have "snd (runOn ?X (SetStubMissing (demo_engine False) False) Pool ''SELECT * FROM t'') =
      (None, Some ''Catalog Error: Table with name t does not exist!'')"
    and "snd (x_query ?X (e_db (demo_engine False)) Pool ''SELECT * FROM t'') =
      Inl ''Catalog Error: Table with name t does not exist!''"
    and "classifyErr (Some ''Catalog Error: Table with name t does not exist!'') \<noteq> errApp"
    by code_simp+
  then show ?thesis
    using stub_mode_effect [of ?X "demo_engine False" Pool "''SELECT * FROM t''"]
    by (auto simp: Let_def)
qed

text \<open>C22. A query never returns a nil result without an error, and every result it returns
  is rectangular: each row has one value per column, and no value is a byte slice.\<close>

theorem Run_result:
  assumes "Run X e query = (e', res, err)"
  shows "(err = None \<longrightarrow> res \<noteq> None) \<and>
    (\<forall>r row. res = Some r \<longrightarrow> row \<in> set (q_rows r) \<longrightarrow>
      length row = length (q_cols r) \<and> (\<forall>b. VBytes b \<notin> set row))"
proof (intro conjI allI impI)
  assume "err = None"
  with assms show "res \<noteq> None" by (metis run.ok_result option.distinct(1))
next
  fix r row
  assume "res = Some r" and "row \<in> set (q_rows r)"
  moreover from this assms have "rect r" by (auto intro: run.result_rect)
  ultimately show "length row = length (q_cols r)" and "VBytes b \<notin> set row" for b
    by (force simp: rect_def)+
qed

lemma Run_result_witness:
  "let X = demo_env (\<lambda>s. Inr (one_row ''c'' ''BLOB'' (VBytes ''x'')));
       e = \<lparr>e_db = [], e_tables = [], e_seen = Map.empty, e_stub = False, e_logged = None, e_log = []\<rparr>
   in fst (snd (Run X e ''SELECT c FROM t'')) \<noteq> None"
proof -
  let ?X = "demo_env (\<lambda>s. Inr (one_row ''c'' ''BLOB'' (VBytes ''x'')))"
  let ?e = "\<lparr>e_db = [], e_tables = [], e_seen = Map.empty, e_stub = False, e_logged = None,
    e_log = []\<rparr> :: string list engine"
  obtain e' res err where r: "Run ?X ?e ''SELECT c FROM t'' = (e', res, err)"
    by (metis prod.exhaust)
  have "err = None"
    using r by (simp add: Run_def runOn_def demo_env_def one_row_def buffer_rows_def scan_row_def)
  with Run_result [OF r] show ?thesis by (simp add: r)
qed

text \<open>C23. Queries never spam the log: from an engine that has logged no key yet, whatever
  queries are run, on whichever connections, the log grows by exactly one line per distinct
  message key.\<close>

theorem queries_log_once:
  assumes "logged_keys e = {}"
  shows "let e' = foldl (\<lambda>e (q, s). fst (runOn X e q s)) e qs
    in length (e_log e') = length (e_log e) + card (logged_keys e')"
  using queries.run_inv [of "length (e_log e)" e X qs] assms
  by (simp add: log_ok_def)

lemma queries_log_once_witness:
  "let X = demo_env (\<lambda>s. Inl ''Table with name t does not exist'');
       e' = foldl (\<lambda>e (q, s). fst (runOn X e q s)) (demo_engine True)
              [(Pool, ''SELECT 1''), (Pinned 0, ''SELECT 2'')]
   in length (e_log e') = card (logged_keys e') \<and> length (e_log e') = 1"
proof -
  let ?X = "demo_env (\<lambda>s. Inl ''Table with name t does not exist'')"
  let ?qs = "[(Pool, ''SELECT 1''), (Pinned 0, ''SELECT 2'')]"
  let ?e' = "foldl (\<lambda>e (q, s). fst (runOn ?X e q s)) (demo_engine True) ?qs"
  have "logged_keys (demo_engine True) = {}" and "e_log (demo_engine True) = []"
    by (simp_all add: demo_engine_def logged_keys_def)
  then have "length (e_log ?e') = card (logged_keys ?e')"
    using queries_log_once [of "demo_engine True" ?X ?qs] by (simp add: Let_def)
  moreover have "length (e_log ?e') = 1" by code_simp
  ultimately show ?thesis by simp
qed

lemma reMissingName_skip: "CHR ''w'' \<notin> set p \<Longrightarrow> reMissingName (p @ s) = reMissingName s"
  by (induction p) (auto simp: reMissingName_at_def HasPrefix_def)

lemma reMissingName_here:
  assumes "name \<noteq> []" and "\<forall>c \<in> set name. name_byte c"
  shows "reMissingName (''with name '' @ name @ '' does not exist'' @ rest) = Some name"
proof -
  have "drop_quote (name @ s) = name @ s" for s
    using assms by (cases name) (auto simp: drop_quote_def name_byte_def)
  moreover have "takeWhile name_byte (name @ CHR '' '' # s) = name" for s
    using assms(2) by (simp add: takeWhile_append2 name_byte_def)
  moreover have "drop_quote (CHR '' '' # s) = CHR '' '' # s" for s
    by (simp add: drop_quote_def)
  ultimately have "reMissingName_at (''with name '' @ name @ '' does not exist'' @ rest) = Some name"
    using assms(1) by (simp add: reMissingName_at_def HasPrefix_def Let_def)
  then show ?thesis by simp
qed

text \<open>A catalog error for a missing table is recognized, whatever the name of the table
  and whatever DuckDB appends to the message, and the logged name is the table's.\<close>

theorem missing_table_recognized:
  assumes "name \<noteq> []" and "\<forall>c \<in> set name. name_byte c" and "ascii name"
  shows "let err = Some (''Catalog Error: Table with name '' @ name @ '' does not exist'' @ rest)
    in classifyErr err = errMissingRelation \<and> missingRelationName err = name"
proof -
  let ?pre = "''Catalog Error: Table with name ''" and ?suf = "'' does not exist''"
  let ?msg = "?pre @ name @ ?suf @ rest"
  have low: "ToLower ?msg = ToLower ?pre @ ToLower name @ ToLower ?suf @ ToLower rest"
    by (rule ToLower_append3) (use assms(3) in \<open>simp_all\<close>)
  have "Contains (ToLower ?pre) ''table with name''" and "Contains (ToLower ?suf) ''does not exist''"
    by code_simp+
  then have "Contains (ToLower ?msg) ''table with name''" "Contains (ToLower ?msg) ''does not exist''"
    unfolding low by (blast intro: Contains_append)+
  then have "classifyErr (Some ?msg) = errMissingRelation"
    unfolding classifyErr_def Let_def option.case by (simp only: if_True simp_thms)
  moreover have "reMissingName ?msg = Some name"
    using reMissingName_here [OF assms(1,2), of rest]
      reMissingName_skip [of "''Catalog Error: Table ''" "''with name '' @ name @ ?suf @ rest"]
    by simp
  moreover have "TrimCut name [CHR 0x22] = name"
    using assms(2) by (intro TrimCut_absent) (auto simp: name_byte_def)
  ultimately show ?thesis
    unfolding Let_def missingRelationName_def option.case by (simp only: option.case simp_thms)
qed

lemma missing_table_recognized_witness:
  "missingRelationName (Some (''Catalog Error: Table with name '' @ ''users'' @ '' does not exist'' @ ''!'')) = ''users''"
  using missing_table_recognized [of "''users''" "''!''"] unfolding Let_def
  by (simp only: name_byte_def ascii_def) simp

text \<open>The exclusion of the word column, which keeps misspelled columns from being served
  as empty tables, also catches a missing sequence whose own name contains that word: its
  error is taken for an application error, in stub mode too.\<close>

lemma missing_sequence_misclassified:
  "let err = ''Catalog Error: Sequence with name column_seq does not exist!''
   in classifyErr (Some err) = errApp \<and>
      classifyErr (Some ''Catalog Error: Sequence with name order_seq does not exist!'') =
        errMissingRelation"
  by code_simp

end
