(* ===== verification/Fidelity.thy ===== *)
theory Fidelity
  imports GoValues "HOL-Library.AList"
begin

text \<open>
  Package \<open>fidelity\<close> (internal/fidelity/fidelity.go): the report of approximations that a
  query's answer carries. A \<open>*Report\<close> that may be nil is a \<open>report option\<close>; its map is an
  association list with distinct keys, whose order is Go's unspecified map order. The main
  theorems say that the warnings of a report depend only on how often each pair of column
  and reason was added, never on the order of the map or of the additions.
\<close>

section \<open>Wide integers\<close>

definition ExceedsInt64 :: "float_lib \<Rightarrow> value \<Rightarrow> bool" where
  "ExceedsInt64 F v =
     (case v of
        VUint64 x \<Rightarrow> uint x > max_int64
      | VBigInt i \<Rightarrow> \<not> in_int64 i
      | _ \<Rightarrow> (case scan_int (TrimSpace (Sprint F v)) of
                None \<Rightarrow> False
              | Some i \<Rightarrow> \<not> in_int64 i))"

lemma ExceedsInt64_iff:
  assumes "int_of_value v = Some i"
  shows "ExceedsInt64 F v \<longleftrightarrow> \<not> in_int64 i"
  using assms by (elim int_of_value_SomeE)
    (auto simp: ExceedsInt64_def in_int64_def max_int64_def min_int64_def
      intro: order_trans [OF _ uint_ge_0])

section \<open>Reports\<close>

record note_entry =
  nt_column :: string
  nt_reason :: string
  nt_count :: nat

record report =
  r_notes :: "(string \<times> note_entry) list"

type_synonym report_ptr = "report option"

definition New :: report_ptr where
  "New = Some \<lparr>r_notes = []\<rparr>"

definition note_key :: "string \<Rightarrow> string \<Rightarrow> string" where
  "note_key column reason = column @ [CHR 0x00] @ reason"

definition Add :: "report_ptr \<Rightarrow> string \<Rightarrow> string \<Rightarrow> report_ptr" where
  "Add r column reason =
     (case r of
        None \<Rightarrow> None
      | Some rep \<Rightarrow>
          (let key = note_key column reason;
               n = (case map_of (r_notes rep) key of
                      None \<Rightarrow> \<lparr>nt_column = column, nt_reason = reason, nt_count = 0\<rparr>
                    | Some n \<Rightarrow> n)
           in Some (rep\<lparr>r_notes := AList.update key (n\<lparr>nt_count := nt_count n + 1\<rparr>) (r_notes rep)\<rparr>)))"

definition Empty :: "report_ptr \<Rightarrow> bool" where
  "Empty r \<longleftrightarrow> (case r of None \<Rightarrow> True | Some rep \<Rightarrow> r_notes rep = [])"

text \<open>\<open>sort.Slice\<close> by column, then reason (bytewise string order).\<close>

definition sorted_notes :: "report \<Rightarrow> note_entry list" where
  "sorted_notes rep = sort_key (\<lambda>n. (nt_column n, nt_reason n)) (map snd (r_notes rep))"

definition warning_line :: "string \<Rightarrow> string \<Rightarrow> nat \<Rightarrow> string" where
  "warning_line column reason cnt =
     ''column '' @ Quote column @ '': '' @ reason @
     (if cnt > 1 then '' (x'' @ show_nat cnt @ '')'' else [])"

definition Warnings :: "report_ptr \<Rightarrow> string list" where
  "Warnings r =
     (if Empty r then []
      else map (\<lambda>n. warning_line (nt_column n) (nt_reason n) (nt_count n)) (sorted_notes (the r)))"

definition Summary :: "report_ptr \<Rightarrow> string" where
  "Summary r =
     (if Empty r then []
      else ''served with approximations: '' @ JoinStr (Warnings r) ''; '')"

section \<open>Well-formed reports\<close>

text \<open>The pairs a report records, with their counts.\<close>

definition count_of :: "report_ptr \<Rightarrow> string \<Rightarrow> string \<Rightarrow> nat" where
  "count_of r c s =
     (case r of None \<Rightarrow> 0
      | Some rep \<Rightarrow> (case map_of (r_notes rep) (note_key c s) of None \<Rightarrow> 0 | Some n \<Rightarrow> nt_count n))"

definition nul_free :: "string \<Rightarrow> bool" where
  "nul_free s \<longleftrightarrow> CHR 0x00 \<notin> set s"

definition note_ok :: "string \<times> note_entry \<Rightarrow> bool" where
  "note_ok p \<longleftrightarrow> fst p = note_key (nt_column (snd p)) (nt_reason (snd p)) \<and>
     nul_free (nt_reason (snd p)) \<and> 0 < nt_count (snd p)"

definition report_wf :: "report_ptr \<Rightarrow> bool" where
  "report_wf r \<longleftrightarrow>
     (case r of None \<Rightarrow> True
      | Some rep \<Rightarrow> distinct (map fst (r_notes rep)) \<and> (\<forall>p \<in> set (r_notes rep). note_ok p))"

text \<open>
  The NUL separator makes the key injective as long as the reasons hold no NUL: the last NUL
  of a key is the separator. Every reason the program uses is a fixed ASCII text.
\<close>

lemma note_key_inject:
  assumes "nul_free s" and "nul_free s'"
  shows "note_key c s = note_key c' s' \<longleftrightarrow> c = c' \<and> s = s'"
proof
  assume "note_key c s = note_key c' s'"
  then have "rev (note_key c s) = rev (note_key c' s')" by simp
  then have "rev s @ CHR 0x00 # rev c = rev s' @ CHR 0x00 # rev c'"
    by (simp add: note_key_def)
  then show "c = c' \<and> s = s'"
    using assms append_Cons_eq_split [of "CHR 0x00" "rev s" "rev s'" "rev c" "rev c'"]
    by (auto simp: nul_free_def)
qed simp

lemma report_wf_New [simp]: "report_wf New"
  by (simp add: report_wf_def New_def)

lemma set_update_subset: "set (AList.update k v ps) \<subseteq> insert (k, v) (set ps)"
  by (induction ps) auto

lemma report_wf_update:
  assumes "report_wf (Some rep)" and "note_ok (k, n)"
  shows "report_wf (Some (rep\<lparr>r_notes := AList.update k n (r_notes rep)\<rparr>))"
  using assms set_update_subset [of k n "r_notes rep"]
  by (auto simp: report_wf_def distinct_update)

lemma report_wf_Add:
  assumes wf: "report_wf r" and nf: "nul_free s"
  shows "report_wf (Add r c s)"
proof (cases r)
  case (Some rep)
  let ?k = "note_key c s"
  show ?thesis
  proof (cases "map_of (r_notes rep) ?k")
    case None
    have "note_ok (?k, \<lparr>nt_column = c, nt_reason = s, nt_count = 1\<rparr>)"
      using nf by (simp add: note_ok_def)
    with wf Some None show ?thesis
      by (simp add: Add_def Let_def report_wf_update)
  next
    case (Some n)
    from wf \<open>r = Some rep\<close> map_of_SomeD [OF Some] have "note_ok (?k, n)"
      by (auto simp: report_wf_def)
    then have "note_ok (?k, n\<lparr>nt_count := nt_count n + 1\<rparr>)"
      by (simp add: note_ok_def)
    with wf \<open>r = Some rep\<close> Some show ?thesis
      by (simp add: Add_def Let_def report_wf_update)
  qed
qed (simp add: report_wf_def Add_def)

lemma count_of_Add:
  assumes "nul_free s" and "nul_free s'"
  shows "count_of (Add (Some rep) c s) c' s' =
    count_of (Some rep) c' s' + (if c = c' \<and> s = s' then 1 else 0)"
  using assms
  by (auto simp: count_of_def Add_def Let_def update_conv' note_key_inject split: option.splits)

text \<open>A report is filled by a sequence of additions.\<close>

definition add_all :: "report_ptr \<Rightarrow> (string \<times> string) list \<Rightarrow> report_ptr" where
  "add_all r ps = foldl (\<lambda>r (c, s). Add r c s) r ps"

lemma add_all_simps [simp]:
  "add_all r [] = r"
  "add_all r ((c, s) # ps) = add_all (Add r c s) ps"
  "add_all r (ps @ qs) = add_all (add_all r ps) qs"
  by (simp_all add: add_all_def)

lemma Add_Some_cases:
  obtains rep' where "Add (Some rep) c s = Some rep'"
  by (simp add: Add_def Let_def)

lemma add_all_Some:
  obtains rep' where "add_all (Some rep) ps = Some rep'"
proof (induction ps arbitrary: rep thesis)
  case (Cons p ps)
  obtain c s where "p = (c, s)" by force
  moreover obtain rep1 where "Add (Some rep) c s = Some rep1" by (rule Add_Some_cases)
  ultimately show ?case using Cons.IH [of rep1] Cons.prems by auto
qed simp

lemma report_wf_add_all:
  "report_wf r \<Longrightarrow> \<forall>(c, s) \<in> set ps. nul_free s \<Longrightarrow> report_wf (add_all r ps)"
  by (induction ps arbitrary: r) (auto simp: report_wf_Add)

lemma count_of_add_all:
  assumes "\<forall>(c, s) \<in> set ps. nul_free s" and "nul_free s'"
  shows "count_of (add_all (Some rep) ps) c' s' =
    count_of (Some rep) c' s' + count_list ps (c', s')"
  using assms
proof (induction ps arbitrary: rep)
  case (Cons p ps)
  obtain c s where p: "p = (c, s)" by force
  obtain rep' where rep': "Add (Some rep) c s = Some rep'" by (rule Add_Some_cases)
  from Cons.prems p have "nul_free s" and "\<forall>(c, s) \<in> set ps. nul_free s" by auto
  with Cons.IH [of rep'] Cons.prems count_of_Add [of s s' rep c c'] show ?case
    by (auto simp: p rep')
qed simp

section \<open>What the warnings of a report are\<close>

abbreviation note_pair :: "note_entry \<Rightarrow> string \<times> string" where
  "note_pair n \<equiv> (nt_column n, nt_reason n)"

lemma count_of_note:
  assumes "report_wf (Some rep)" and "(k, n) \<in> set (r_notes rep)"
  shows "count_of (Some rep) (nt_column n) (nt_reason n) = nt_count n"
proof -
  from assms have "map_of (r_notes rep) k = Some n" and "note_ok (k, n)"
    by (auto simp: report_wf_def)
  then show ?thesis by (simp add: count_of_def note_ok_def)
qed

lemma count_of_pos:
  assumes wf: "report_wf (Some rep)" and nf: "nul_free s" and pos: "0 < count_of (Some rep) c s"
  shows "(c, s) \<in> note_pair ` snd ` set (r_notes rep)"
proof -
  from pos obtain n where n: "map_of (r_notes rep) (note_key c s) = Some n"
    by (auto simp: count_of_def split: option.splits)
  then have "note_ok (note_key c s, n)" and mem: "(note_key c s, n) \<in> set (r_notes rep)"
    using wf by (auto simp: report_wf_def dest: map_of_SomeD)
  then have "nul_free (nt_reason n)" and "note_key c s = note_key (nt_column n) (nt_reason n)"
    by (simp_all add: note_ok_def)
  then have "(c, s) = note_pair n"
    using note_key_inject [OF nf] by simp
  with mem show ?thesis by force
qed

lemma distinct_note_pairs:
  assumes "report_wf (Some rep)"
  shows "distinct (map note_pair (map snd (r_notes rep)))"
proof -
  have "map (\<lambda>p. note_key (fst p) (snd p)) (map note_pair (map snd (r_notes rep))) =
      map fst (r_notes rep)"
    using assms by (auto simp: report_wf_def note_ok_def)
  moreover have "distinct (map fst (r_notes rep))"
    using assms by (simp add: report_wf_def)
  ultimately show ?thesis
    by (metis distinct_map_mapD)
qed

lemma sorted_notes_pairs:
  assumes wf: "report_wf (Some rep)"
  shows "map note_pair (sorted_notes rep) =
    sorted_list_of_set (note_pair ` snd ` set (r_notes rep))"
proof (rule sorted_distinct_set_unique)
  have "mset (map note_pair (sorted_notes rep)) = mset (map note_pair (map snd (r_notes rep)))"
    by (simp add: sorted_notes_def multiset.map_comp)
  then show "distinct (map note_pair (sorted_notes rep))"
    using distinct_note_pairs [OF wf] mset_eq_imp_distinct_iff by blast
qed (simp_all add: sorted_notes_def)

lemma warnings_of_counts:
  assumes wf: "report_wf (Some rep)"
  shows "Warnings (Some rep) =
    map (\<lambda>(c, s). warning_line c s (count_of (Some rep) c s))
      (sorted_list_of_set (note_pair ` snd ` set (r_notes rep)))"
proof -
  have "nt_count n = count_of (Some rep) (nt_column n) (nt_reason n)"
    if "n \<in> set (sorted_notes rep)" for n
    using that count_of_note [OF wf] by (force simp: sorted_notes_def)
  then have "Warnings (Some rep) =
      map (\<lambda>(c, s). warning_line c s (count_of (Some rep) c s)) (map note_pair (sorted_notes rep))"
    by (auto simp: Warnings_def Empty_def sorted_notes_def)
  then show ?thesis by (simp only: sorted_notes_pairs [OF wf])
qed

lemma pairs_of_add_all:
  assumes "\<forall>(c, s) \<in> set ps. nul_free s" and rep: "add_all New ps = Some rep"
  shows "note_pair ` snd ` set (r_notes rep) = set ps"
proof -
  have wf: "report_wf (Some rep)"
    using report_wf_add_all [of New ps] assms by simp
  have counts: "count_of (Some rep) c s = count_list ps (c, s)" if "nul_free s" for c s
    using count_of_add_all [OF assms(1) that, of "\<lparr>r_notes = []\<rparr>" c] rep
    by (simp add: New_def count_of_def)
  show ?thesis
  proof
    show "set ps \<subseteq> note_pair ` snd ` set (r_notes rep)"
      using assms(1) count_of_pos [OF wf] by (force simp: counts count_list_0_iff)
    have "note_pair n \<in> set ps" if "(k, n) \<in> set (r_notes rep)" for k n
    proof -
      from that wf have "note_ok (k, n)" by (auto simp: report_wf_def)
      then show ?thesis
        using count_of_note [OF wf that] counts [of "nt_reason n" "nt_column n"]
          count_list_0_iff [of ps "note_pair n"] by (auto simp: note_ok_def)
    qed
    then show "note_pair ` snd ` set (r_notes rep) \<subseteq> set ps" by auto
  qed
qed

lemma Warnings_add_all:
  assumes nf: "\<forall>(c, s) \<in> set ps. nul_free s"
  shows "Warnings (add_all New ps) =
    map (\<lambda>(c, s). warning_line c s (count_list ps (c, s))) (sorted_list_of_set (set ps))"
proof -
  obtain rep where rep: "add_all New ps = Some rep"
    unfolding New_def by (rule add_all_Some)
  have "count_of (Some rep) c s = count_list ps (c, s)" if "(c, s) \<in> set ps" for c s
    using count_of_add_all [OF nf, of s "\<lparr>r_notes = []\<rparr>" c] rep nf that
    by (auto simp: New_def count_of_def)
  then show ?thesis
    using warnings_of_counts [of rep] report_wf_add_all [OF report_wf_New nf]
    unfolding pairs_of_add_all [OF nf rep] rep by auto
qed

section \<open>The contract of a front end's report\<close>

text \<open>
  Each front end fills a report by walking over the columns and the rows of a result. What
  the rest of it relies on: the report comes from a fixed list of additions, its reasons are
  plain texts, and it only speaks of columns of the result.
\<close>

locale fidelity_source =
  fixes report :: "query_result \<Rightarrow> report_ptr"
    and additions :: "query_result \<Rightarrow> (string \<times> string) list"
  assumes report_adds: "report res = add_all New (additions res)"
    and plain_reasons: "(c, s) \<in> set (additions res) \<Longrightarrow> nul_free s"
    and known_columns: "(c, s) \<in> set (additions res) \<Longrightarrow> c \<in> c_name ` set (q_cols res)"
begin

lemma report_wf: "report_wf (report res)"
  using plain_reasons unfolding report_adds by (auto intro!: report_wf_add_all)

lemma report_warnings:
  "Warnings (report res) =
    map (\<lambda>(c, s). warning_line c s (count_list (additions res) (c, s)))
      (sorted_list_of_set (set (additions res)))"
  using plain_reasons unfolding report_adds by (intro Warnings_add_all) auto

lemma no_warnings_iff: "Warnings (report res) = [] \<longleftrightarrow> additions res = []"
  by (simp add: report_warnings)

lemma empty_iff: "Empty (report res) \<longleftrightarrow> additions res = []"
proof -
  obtain rep where rep: "add_all New (additions res) = Some rep"
    unfolding New_def by (rule add_all_Some)
  have "note_pair ` snd ` set (r_notes rep) = set (additions res)"
    using plain_reasons by (intro pairs_of_add_all [OF _ rep]) auto
  then have "r_notes rep = [] \<longleftrightarrow> additions res = []" by force
  then show ?thesis by (simp add: report_adds rep Empty_def)
qed

text \<open>A warning names its column, and every column with an addition has a warning.\<close>

lemma warned_column:
  assumes "w \<in> set (Warnings (report res))"
  obtains c s n where "c \<in> c_name ` set (q_cols res)" and "w = warning_line c s n"
proof -
  from assms obtain c s where "(c, s) \<in> set (additions res)"
    and "w = warning_line c s (count_list (additions res) (c, s))"
    by (auto simp: report_warnings)
  with known_columns [of c s res] that show ?thesis by blast
qed

lemma addition_warned:
  assumes "(c, s) \<in> set (additions res)"
  shows "warning_line c s (count_list (additions res) (c, s)) \<in> set (Warnings (report res))"
  using assms by (force simp: report_warnings)

end

text \<open>Nested loops of additions, as one list of additions.\<close>

lemma foldl_add_all:
  assumes "\<And>r x. x \<in> set xs \<Longrightarrow> f r x = add_all r (g x)"
  shows "foldl f r xs = add_all r (concat (map g xs))"
  using assms by (induction xs arbitrary: r) auto

lemma add_all_if [simp]: "(if b then Add r c s else r) = add_all r (if b then [(c, s)] else [])"
  by simp

section \<open>Properties\<close>

lemma mset_imp_count_list_eq: "mset xs = mset ys \<Longrightarrow> count_list xs = count_list ys"
  by (metis count_mset ext)



text \<open>Go iterates a map in an unspecified order. Reports whose maps are listed in
  different orders have the same warnings and the same summary.\<close>

theorem warnings_map_order:
  assumes "report_wf (Some (\<lparr>r_notes = xs\<rparr>))" and "mset ys = mset xs"
  shows "Warnings (Some \<lparr>r_notes = ys\<rparr>) = Warnings (Some \<lparr>r_notes = xs\<rparr>) \<and>
    Summary (Some \<lparr>r_notes = ys\<rparr>) = Summary (Some \<lparr>r_notes = xs\<rparr>)"
proof -
  have "sorted_notes \<lparr>r_notes = xs\<rparr> = sorted_notes \<lparr>r_notes = ys\<rparr>"
    unfolding sorted_notes_def report.simps
    by (rule sort_key_mset_cong)
       (use assms(2) distinct_note_pairs [OF assms(1)] in \<open>simp_all\<close>)
  moreover have "ys = [] \<longleftrightarrow> xs = []" using assms(2) by force
  ultimately show ?thesis by (simp add: Warnings_def Summary_def Empty_def)
qed

lemma warnings_map_order_witness:
  "let n = \<lambda>c. (note_key c ''r'', \<lparr>nt_column = c, nt_reason = ''r'', nt_count = 1\<rparr>)
   in Warnings (Some \<lparr>r_notes = [n ''b'', n ''a'']\<rparr>) = Warnings (Some \<lparr>r_notes = [n ''a'', n ''b'']\<rparr>)"
  unfolding Let_def
  by (rule warnings_map_order [THEN conjunct1])
     (simp_all add: report_wf_def note_ok_def note_key_def nul_free_def)

text \<open>For a value of any integer type, \<open>ExceedsInt64\<close> says exactly whether the integer
  does not fit a signed 64-bit integer, and it says the same of the decimal text of the
  integer.\<close>

theorem ExceedsInt64_correct:
  assumes "int_of_value v = Some i"
  shows "(ExceedsInt64 F v \<longleftrightarrow> i < - (2 ^ 63) \<or> 2 ^ 63 \<le> i) \<and>
    ExceedsInt64 F (VString (show_int i)) = ExceedsInt64 F v"
proof -
  have "in_int64 i \<longleftrightarrow> \<not> (i < - (2 ^ 63) \<or> 2 ^ 63 \<le> i)"
    by (auto simp: in_int64_def max_int64_def min_int64_def)
  moreover have "ExceedsInt64 F (VString (show_int i)) \<longleftrightarrow> \<not> in_int64 i"
    by (simp add: ExceedsInt64_def)
  ultimately show ?thesis by (simp add: ExceedsInt64_iff [OF assms])
qed

lemma ExceedsInt64_correct_witness:
  "ExceedsInt64 demo_floats (VUint64 (2 ^ 63)) \<and> \<not> ExceedsInt64 demo_floats (VInt64 (- 1))"
  using ExceedsInt64_correct [of "VUint64 (2 ^ 63)" "2 ^ 63" demo_floats]
    ExceedsInt64_correct [of "VInt64 (- 1)" "- 1" demo_floats]
  by simp

end
