(* ===== verification/PgEncode.thy ===== *)
theory PgEncode
  imports Complex_Main Engine Fidelity
begin

text \<open>
  The result encoding of internal/pg/handler.go (type OIDs, result formats, the text and the
  binary form of a value, row descriptions and data rows) and the fidelity report of
  internal/pg/fidelity.go.
\<close>

section \<open>Rounding to float64\<close>

text \<open>
  The nearest \<open>float64\<close> of a rational number, ties to even. The numbers the encoder
  computes with (hours of a duration and their 24th part) are neither subnormal nor too
  large, so no limit on the exponent is needed.
\<close>

definition pow2 :: "int \<Rightarrow> rat" where
  "pow2 e = (if 0 \<le> e then 2 ^ nat e else 1 / 2 ^ nat (- e))"

definition round_even :: "rat \<Rightarrow> int" where
  "round_even x =
     (let f = \<lfloor>x\<rfloor>; r = x - of_int f
      in if r < 1 / 2 \<or> r = 1 / 2 \<and> even f then f else f + 1)"

function bit_len :: "int \<Rightarrow> int" where
  "bit_len n = (if n \<le> 0 then 0 else bit_len (n div 2) + 1)"
  by auto
termination
  by (relation "measure nat") (auto simp: nat_less_iff)

declare bit_len.simps [simp del]

definition float_exponent :: "rat \<Rightarrow> int" where
  "float_exponent x =
     (let (n, d) = quotient_of x;
          e = bit_len \<bar>n\<bar> - bit_len d - 53
      in if 2 ^ 53 * pow2 e \<le> \<bar>x\<bar> then e + 1 else e)"

definition float64_of :: "rat \<Rightarrow> rat" where
  "float64_of x =
     (if x = 0 then 0
      else let e = float_exponent x in of_int (round_even (x / pow2 e)) * pow2 e)"

text \<open>\<open>d.Hours()\<close>: the whole hours plus the rest as a fraction.\<close>

definition ns_per_hour :: int where "ns_per_hour = 3600000000000"

definition d_Hours :: "int \<Rightarrow> rat" where
  "d_Hours d =
     (let h = go_quot d ns_per_hour; r = d - h * ns_per_hour
      in float64_of (of_int h + float64_of (of_int r / of_int ns_per_hour)))"

lemma round_even_int [simp]: "round_even (of_int k) = k"
  by (simp add: round_even_def)

lemma bit_len_le: "n < 2 ^ m \<Longrightarrow> bit_len n \<le> int m"
proof (induction m arbitrary: n)
  case 0
  then show ?case by (simp add: bit_len.simps [of n])
next
  case (Suc m)
  then have "n div 2 < 2 ^ m" by simp
  from Suc.IH [OF this] show ?case by (simp add: bit_len.simps [of n])
qed

lemma float64_of_int:
  assumes "\<bar>k\<bar> < 2 ^ 53"
  shows "float64_of (of_int k) = of_int k"
proof (cases "k = 0")
  case False
  define e where "e = float_exponent (of_int k)"
  have "bit_len \<bar>k\<bar> \<le> 53"
    using assms bit_len_le [of "\<bar>k\<bar>" 53] by simp
  moreover have "bit_len 1 = 1"
    by (simp add: bit_len.simps)
  ultimately have "e \<le> 0"
    by (simp add: e_def float_exponent_def Let_def)
  then have "of_int k / pow2 e = (of_int (k * 2 ^ nat (- e)) :: rat)"
    by (auto simp: pow2_def)
  then have "float64_of (of_int k) = of_int (k * 2 ^ nat (- e)) * pow2 e"
    using False by (simp add: float64_of_def e_def [symmetric] Let_def del: of_int_mult)
  also have "\<dots> = of_int k"
    using \<open>e \<le> 0\<close> by (auto simp: pow2_def)
  finally show ?thesis .
qed (simp add: float64_of_def)

text \<open>Whole days are exact.\<close>

lemma d_Hours_days:
  assumes "\<bar>k\<bar> < 2 ^ 40"
  shows "d_Hours (k * ns_per_day) = of_int (24 * k)"
    and "\<lfloor>float64_of (d_Hours (k * ns_per_day) / 24)\<rfloor> = k"
proof -
  have q: "go_quot (k * ns_per_day) ns_per_hour = 24 * k"
    by (auto simp: go_quot_def ns_per_day_def ns_per_hour_def sgn_if abs_if)
  have zero: "float64_of 0 = 0" by (simp add: float64_of_def)
  have "float64_of (of_int (24 * k)) = of_int (24 * k)"
    using assms by (intro float64_of_int) simp
  then show h: "d_Hours (k * ns_per_day) = of_int (24 * k)"
    by (simp add: d_Hours_def q zero) (simp add: ns_per_day_def ns_per_hour_def zero)
  have "float64_of (of_int k) = of_int k"
    using assms by (intro float64_of_int) simp
  then show "\<lfloor>float64_of (d_Hours (k * ns_per_day) / 24)\<rfloor> = k"
    by (simp add: h)
qed

section \<open>Types and formats\<close>

definition oidForType :: "string \<Rightarrow> 32 word" where
  "oidForType t =
     (let base = base_type t
      in if base \<in> set [''BOOLEAN'', ''BOOL''] then 16
         else if base \<in> set [''TINYINT'', ''SMALLINT'', ''INT2'', ''UTINYINT''] then 21
         else if base \<in> set [''INTEGER'', ''INT'', ''INT4'', ''USMALLINT''] then 23
         else if base \<in> set [''BIGINT'', ''INT8'', ''UINTEGER''] then 20
         else if base \<in> set [''HUGEINT'', ''UBIGINT'', ''UHUGEINT''] then 20
         else if base \<in> set [''REAL'', ''FLOAT'', ''FLOAT4''] then 700
         else if base \<in> set [''DOUBLE'', ''FLOAT8'', ''DECIMAL'', ''NUMERIC''] then 701
         else if base \<in> set [''DATE''] then 1082
         else if base \<in> set [''TIMESTAMP'', ''DATETIME''] then 1114
         else 25)"

definition resolveFormat :: "16 word list \<Rightarrow> nat \<Rightarrow> 16 word" where
  "resolveFormat formats col =
     (case formats of
        [] \<Rightarrow> 0
      | [f] \<Rightarrow> f
      | _ \<Rightarrow> if col < length formats then formats ! col else 0)"

section \<open>Conversions\<close>

fun toInt :: "float_lib \<Rightarrow> value \<Rightarrow> 64 word" where
  "toInt F (VInt64 x) = x"
| "toInt F (VInt32 x) = scast x"
| "toInt F (VInt16 x) = scast x"
| "toInt F (VInt x) = x"
| "toInt F (VUint64 x) = x"
| "toInt F (VUint32 x) = ucast x"
| "toInt F (VFloat64 x) = f_to_int64 F x"
| "toInt F (VBool x) = (if x then 1 else 0)"
| "toInt F v = fst (ParseInt64 (TrimSpace (Sprint F v)))"

fun toFloat :: "float_lib \<Rightarrow> value \<Rightarrow> f64" where
  "toFloat F (VFloat64 x) = x"
| "toFloat F (VFloat32 x) = f_of_f32 F x"
| "toFloat F (VInt64 x) = f_of_int F (sint x)"
| "toFloat F (VInt32 x) = f_of_int F (sint x)"
| "toFloat F v = f_parse F (TrimSpace (Sprint F v))"

fun toBool :: "float_lib \<Rightarrow> value \<Rightarrow> bool" where
  "toBool F (VBool x) = x"
| "toBool F (VString x) = (x = ''true'' \<or> x = ''t'' \<or> x = ''1'')"
| "toBool F v = (toInt F v \<noteq> 0)"

fun first_parse :: "float_lib \<Rightarrow> string list \<Rightarrow> string \<Rightarrow> gtime" where
  "first_parse F [] x = zero_time"
| "first_parse F (l # ls) x =
     (case t_parse F l x of Some t \<Rightarrow> t | None \<Rightarrow> first_parse F ls x)"

fun toTime :: "float_lib \<Rightarrow> value \<Rightarrow> gtime" where
  "toTime F (VTime x) = x"
| "toTime F (VString x) =
     first_parse F [''2006-01-02 15:04:05.999999'', ''2006-01-02 15:04:05'', ''2006-01-02''] x"
| "toTime F v = zero_time"

section \<open>Encoding a value\<close>

text \<open>\<open>None\<close> is a nil byte slice, which goes on the wire as SQL NULL.\<close>

definition pgEpoch :: gtime where
  "pgEpoch = \<lparr>t_ns = 946684800 * 1000000000, t_off = 0\<rparr>"

fun encodeText :: "float_lib \<Rightarrow> value \<Rightarrow> string option" where
  "encodeText F VNil = None"
| "encodeText F (VBool x) = Some (if x then ''t'' else ''f'')"
| "encodeText F (VTime x) = Some (format_micros x)"
| "encodeText F (VString x) = Some x"
| "encodeText F (VBytes x) = Some x"
| "encodeText F v = Some (Sprint F v)"

definition timestamp_micros :: "float_lib \<Rightarrow> value \<Rightarrow> 64 word" where
  "timestamp_micros F v = word_of_int (d_Microseconds (t_Sub (toTime F v) pgEpoch))"

definition date_days :: "float_lib \<Rightarrow> value \<Rightarrow> 32 word" where
  "date_days F v = word_of_int \<lfloor>float64_of (d_Hours (t_Sub (toTime F v) pgEpoch) / 24)\<rfloor>"

definition encodeBinary :: "float_lib \<Rightarrow> value \<Rightarrow> 32 word \<Rightarrow> string option" where
  "encodeBinary F v oid =
     (if oid = 16 then Some [if toBool F v then CHR 0x01 else CHR 0x00]
      else if oid = 21 then Some (PutUint16 (ucast (toInt F v)))
      else if oid = 23 then Some (PutUint32 (ucast (toInt F v)))
      else if oid = 20 then Some (PutUint64 (toInt F v))
      else if oid = 700 then Some (PutUint32 (f_to_f32 F (toFloat F v)))
      else if oid = 701 then Some (PutUint64 (toFloat F v))
      else if oid = 1114 then Some (PutUint64 (timestamp_micros F v))
      else if oid = 1082 then Some (PutUint32 (date_days F v))
      else encodeText F v)"

definition encodeValue :: "float_lib \<Rightarrow> value \<Rightarrow> 32 word \<Rightarrow> 16 word \<Rightarrow> string option" where
  "encodeValue F v oid format =
     (if v = VNil then None
      else if format = 1 then encodeBinary F v oid
      else encodeText F v)"

section \<open>Row descriptions and data rows\<close>

record field =
  fd_name :: string
  fd_oid :: "32 word"
  fd_size :: "16 word"
  fd_modifier :: "32 word"
  fd_format :: "16 word"

definition rowDescription :: "query_result \<Rightarrow> 16 word list \<Rightarrow> field list" where
  "rowDescription res formats =
     map (\<lambda>(i, c). \<lparr>fd_name = c_name c, fd_oid = oidForType (c_type c), fd_size = - 1,
                   fd_modifier = - 1, fd_format = resolveFormat formats i\<rparr>)
       (enumerate 0 (q_cols res))"

definition dataRow ::
  "float_lib \<Rightarrow> query_result \<Rightarrow> value list \<Rightarrow> 16 word list \<Rightarrow> string option list" where
  "dataRow F res row formats =
     map (\<lambda>(i, v).
         let oid = (if i < length (q_cols res) then oidForType (c_type (q_cols res ! i)) else 25)
         in encodeValue F v oid (resolveFormat formats i))
       (enumerate 0 row)"

section \<open>The fidelity report\<close>

definition wide_note :: string where
  "wide_note = ''value exceeds int64 and is sent as 0''"

definition pg_type_note :: "string \<Rightarrow> string option" where
  "pg_type_note base =
     (if base \<in> set [''DECIMAL'', ''NUMERIC'']
        then Some ''DECIMAL shown as float8; precision may be lost''
      else if base \<in> set [''UTINYINT'', ''USMALLINT'', ''UINTEGER'', ''UBIGINT'', ''UHUGEINT'']
        then Some ''unsigned integer shown as signed''
      else if base \<in> set [''TIME'', ''INTERVAL'', ''UUID'', ''BLOB'', ''BIT'']
        then Some (base @ '' shown as text'')
      else None)"

definition pg_column_report ::
  "float_lib \<Rightarrow> value list list \<Rightarrow> report_ptr \<Rightarrow> nat \<times> column \<Rightarrow> report_ptr" where
  "pg_column_report F rows r p =
     (let (ci, c) = p; base = base_type (c_type c);
          r1 = (case pg_type_note base of Some s \<Rightarrow> Add r (c_name c) s | None \<Rightarrow> r)
      in if base \<in> set [''HUGEINT'', ''UHUGEINT'', ''UBIGINT''] then
           foldl (\<lambda>r row. if ci < length row \<and> ExceedsInt64 F (row ! ci)
                          then Add r (c_name c) wide_note else r) r1 rows
         else r1)"

definition pg_report :: "float_lib \<Rightarrow> query_result \<Rightarrow> report_ptr" where
  "pg_report F res = foldl (pg_column_report F (q_rows res)) New (enumerate 0 (q_cols res))"

definition pg_column_additions ::
  "float_lib \<Rightarrow> value list list \<Rightarrow> nat \<times> column \<Rightarrow> (string \<times> string) list" where
  "pg_column_additions F rows p =
     (let (ci, c) = p; base = base_type (c_type c)
      in map (Pair (c_name c)) (case pg_type_note base of Some s \<Rightarrow> [s] | None \<Rightarrow> []) @
         (if base \<in> set [''HUGEINT'', ''UHUGEINT'', ''UBIGINT''] then
            concat (map (\<lambda>row. if ci < length row \<and> ExceedsInt64 F (row ! ci)
                               then [(c_name c, wide_note)] else []) rows)
          else []))"

definition pg_additions :: "float_lib \<Rightarrow> query_result \<Rightarrow> (string \<times> string) list" where
  "pg_additions F res =
     concat (map (pg_column_additions F (q_rows res)) (enumerate 0 (q_cols res)))"

lemma pg_column_report_additions:
  "pg_column_report F rows r p = add_all r (pg_column_additions F rows p)"
proof -
  obtain ci c where p: "p = (ci, c)" by force
  have "foldl (\<lambda>r row. if ci < length row \<and> ExceedsInt64 F (row ! ci)
           then Add r (c_name c) wide_note else r) r1 rows =
      add_all r1 (concat (map (\<lambda>row. if ci < length row \<and> ExceedsInt64 F (row ! ci)
           then [(c_name c, wide_note)] else []) rows))" for r1
    by (rule foldl_add_all) simp
  then show ?thesis
    by (simp add: pg_column_report_def pg_column_additions_def p Let_def split: option.split)
qed

lemma nul_free_pg_type_note: "pg_type_note base = Some s \<Longrightarrow> nul_free s"
proof -
  have "nul_free ''DECIMAL shown as float8; precision may be lost''"
    and "nul_free ''unsigned integer shown as signed''"
    and "\<forall>b \<in> set [''TIME'', ''INTERVAL'', ''UUID'', ''BLOB'', ''BIT'']. nul_free (b @ '' shown as text'')"
    by code_simp+
  then show "pg_type_note base = Some s \<Longrightarrow> nul_free s"
    unfolding pg_type_note_def by (auto simp only: option.inject option.distinct split: if_splits)
qed

lemma nul_free_wide_note: "nul_free wide_note"
  by code_simp

lemma pg_column_additions_mem:
  "(c', s) \<in> set (pg_column_additions F rows (ci, c)) \<Longrightarrow> c' = c_name c \<and> nul_free s"
  by (auto simp: pg_column_additions_def nul_free_wide_note Let_def
      intro: nul_free_pg_type_note [OF sym] split: option.splits if_splits)

interpretation pg_fidelity: fidelity_source "pg_report F" "pg_additions F"
proof
  show "pg_report F res = add_all New (pg_additions F res)" for res
    unfolding pg_report_def pg_additions_def
    by (rule foldl_add_all) (rule pg_column_report_additions)
next
  fix c s res
  assume "(c, s) \<in> set (pg_additions F res)"
  then obtain ci col where "(ci, col) \<in> set (enumerate 0 (q_cols res))"
    and "(c, s) \<in> set (pg_column_additions F (q_rows res) (ci, col))"
    by (auto simp: pg_additions_def)
  then show "nul_free s" and "c \<in> c_name ` set (q_cols res)"
    using pg_column_additions_mem [of c s F "q_rows res" ci col]
    by (auto simp: in_set_enumerate_eq)
qed

section \<open>Integers on the wire\<close>

text \<open>The integer a big-endian two's complement encoding stands for.\<close>

definition wire_int :: "string \<Rightarrow> int" where
  "wire_int bs = signed_take_bit (8 * length bs - 1) (be_val bs)"

definition fits_signed :: "nat \<Rightarrow> int \<Rightarrow> bool" where
  "fits_signed n i \<longleftrightarrow> - (2 ^ (8 * n - 1)) \<le> i \<and> i < 2 ^ (8 * n - 1)"

definition int_width :: "32 word \<Rightarrow> nat" where
  "int_width oid = (if oid = 21 then 2 else if oid = 23 then 4 else 8)"


lemma wire_int_Put:
  "wire_int (PutUint16 v) = sint v" "wire_int (PutUint32 u) = sint u" "wire_int (PutUint64 w) = sint w"
  by (simp_all add: wire_int_def sint_uint)

lemma sint_ucast_fits:
  fixes w :: "64 word"
  assumes "- (2 ^ (LENGTH('b) - 1)) \<le> sint w" "sint w < 2 ^ (LENGTH('b) - 1)" "LENGTH('b::len) \<le> 64"
  shows "sint (ucast w :: 'b word) = sint w"
proof -
  have "LENGTH('b) - Suc 0 < 64"
    using assms(3) len_gt_0 [where 'a = 'b] by linarith
  moreover have "uint w = take_bit 64 (sint w)"
    using uint_sint [of w] by simp
  ultimately have "sint (ucast w :: 'b word) = signed_take_bit (LENGTH('b) - Suc 0) (sint w)"
    by (simp add: signed_ucast_eq signed_take_bit_take_bit)
  then show ?thesis
    using assms(1,2) by (simp add: signed_take_bit_int_eq_self)
qed

text \<open>What \<open>toInt\<close> makes of an integer: a \<open>uint64\<close> wraps, any other type saturates.\<close>

lemma toInt_value:
  assumes "int_of_value v = Some i"
  shows "sint (toInt F v) =
    (if \<exists>w. v = VUint64 w then signed_take_bit 63 i else clamp64 i)"
proof -
  have small: "clamp64 (sint (w :: 'a::len word)) = sint w" if "LENGTH('a) \<le> 64" for w
  proof -
    have "LENGTH('a) - 1 \<le> 63" using that by simp
    then have "(2::int) ^ (LENGTH('a) - 1) \<le> 2 ^ 63" by (rule power_increasing) simp
    then have "in_int64 (sint w)"
      using sint_ge [of w] sint_lt [of w] by (simp add: in_int64_def max_int64_def min_int64_def)
    then show ?thesis by (rule clamp64_id)
  qed
  have scast16: "sint (scast (x :: 16 word) :: 64 word) = sint x"
    and scast32: "sint (scast (y :: 32 word) :: 64 word) = sint y" for x y
    using sint_ge [of x] sint_lt [of x] sint_ge [of y] sint_lt [of y]
    by (simp_all add: signed_scast_eq signed_take_bit_int_eq_self)
  have lo: "- (2 ^ 63) \<le> uint (y :: 32 word)" for y
    using uint_ge_0 [of y] by (rule order_trans [rotated]) simp
  have hi: "uint (y :: 32 word) < 2 ^ 63" for y
    using uint_lt2p [of y] by simp
  with lo have ucast32: "sint (ucast (y :: 32 word) :: 64 word) = uint y" for y
    by (simp add: signed_ucast_eq signed_take_bit_int_eq_self)
  have "clamp64 (uint (y :: 32 word)) = uint y" for y
    using lo [of y] hi [of y]
    by (intro clamp64_id) (simp add: in_int64_def max_int64_def min_int64_def)
  then show ?thesis
    using assms by (elim int_of_value_SomeE)
      (simp_all add: small ParseInt64_show_int scast16 scast32 ucast32 sint_uint [where 'a = 64, simplified, symmetric])
qed

definition int_oids :: "32 word set" where
  "int_oids = {20, 21, 23}"

lemma encodeBinary_int:
  assumes "oid \<in> int_oids"
  obtains bs where "encodeBinary F v oid = Some bs" and "length bs = int_width oid"
    and "fits_signed (int_width oid) (sint (toInt F v)) \<Longrightarrow> wire_int bs = sint (toInt F v)"
    and "oid = 20 \<Longrightarrow> wire_int bs = sint (toInt F v)"
proof -
  consider "oid = 20" | "oid = 21" | "oid = 23"
    using assms by (auto simp: int_oids_def)
  then show thesis
  proof cases
    case 1
    then show ?thesis
      using that [of "PutUint64 (toInt F v)"] by (simp add: encodeBinary_def int_width_def wire_int_Put)
  next
    case 2
    then show ?thesis
      using that [of "PutUint16 (ucast (toInt F v))"] sint_ucast_fits [where 'b = 16, of "toInt F v"]
      by (simp add: encodeBinary_def int_width_def wire_int_Put fits_signed_def)
  next
    case 3
    then show ?thesis
      using that [of "PutUint32 (ucast (toInt F v))"] sint_ucast_fits [where 'b = 32, of "toInt F v"]
      by (simp add: encodeBinary_def int_width_def wire_int_Put fits_signed_def)
  qed
qed

lemma int_width_cases: "int_width oid \<in> {2, 4, 8}"
  by (simp add: int_width_def)

lemma fits_signed_mono:
  assumes "fits_signed m i" and "m \<le> n"
  shows "fits_signed n i"
proof -
  have "(2::int) ^ (8 * m - 1) \<le> 2 ^ (8 * n - 1)"
    using assms(2) by (intro power_increasing) auto
  with assms(1) show ?thesis unfolding fits_signed_def by linarith
qed

lemma fits_signed_8: "fits_signed 8 i \<longleftrightarrow> in_int64 i"
  by (auto simp: fits_signed_def in_int64_def max_int64_def min_int64_def)

lemma toInt_exact:
  assumes "int_of_value v = Some i" and "fits_signed n i" and "n \<le> 8"
  shows "sint (toInt F v) = i"
proof -
  have "in_int64 i"
    using fits_signed_mono [OF assms(2,3)] by (simp add: fits_signed_8)
  moreover from this have "signed_take_bit 63 i = i"
    by (intro signed_take_bit_int_eq_self) (simp_all add: in_int64_def max_int64_def min_int64_def)
  ultimately show ?thesis
    by (simp add: toInt_value [OF assms(1)] clamp64_id)
qed

lemma encodeText_int: "int_of_value v = Some i \<Longrightarrow> encodeText F v = Some (show_int i)"
  by (elim int_of_value_SomeE) (simp_all add: Sprint_int_of_value)

lemma int_not_nil: "int_of_value v = Some i \<Longrightarrow> v \<noteq> VNil"
  by auto

lemma wire_exact:
  assumes "int_of_value v = Some i" and "oid \<in> int_oids" and "fits_signed (int_width oid) i"
  shows "\<exists>bs. encodeValue F v oid 1 = Some bs \<and> length bs = int_width oid \<and> wire_int bs = i"
proof -
  have "sint (toInt F v) = i"
    using assms(1,3) int_width_cases [of oid] by (intro toInt_exact) auto
  moreover obtain bs where "encodeBinary F v oid = Some bs" and "length bs = int_width oid"
    and "fits_signed (int_width oid) (sint (toInt F v)) \<Longrightarrow> wire_int bs = sint (toInt F v)"
    using encodeBinary_int [OF assms(2)] by metis
  ultimately show ?thesis
    using assms(3) int_not_nil [OF assms(1)] by (simp add: encodeValue_def)
qed

text \<open>An integer outside int64 never becomes 0: it wraps to a negative number or saturates.\<close>

lemma toInt_nonzero:
  assumes "int_of_value v = Some i" and "\<not> in_int64 i"
  shows "sint (toInt F v) \<noteq> 0"
proof (cases "\<exists>w. v = VUint64 w")
  case True
  then obtain w where "v = VUint64 w" ..
  with assms have "w \<noteq> 0" by (auto simp: in_int64_def max_int64_def min_int64_def)
  with \<open>v = VUint64 w\<close> show ?thesis by (simp add: signed_eq_0_iff)
next
  case False
  with assms(2) show ?thesis
    by (auto simp: toInt_value [OF assms(1)] clamp64_def in_int64_def max_int64_def min_int64_def)
qed

text \<open>The Go type the driver scans a column of an integer type into.\<close>

fun driver_kind :: "string \<Rightarrow> value \<Rightarrow> bool" where
  "driver_kind t (VInt8 _) = (base_type t = ''TINYINT'')"
| "driver_kind t (VInt16 _) = (base_type t \<in> {''SMALLINT'', ''INT2''})"
| "driver_kind t (VInt32 _) = (base_type t \<in> {''INTEGER'', ''INT'', ''INT4''})"
| "driver_kind t (VInt64 _) = (base_type t \<in> {''BIGINT'', ''INT8''})"
| "driver_kind t (VUint8 _) = (base_type t = ''UTINYINT'')"
| "driver_kind t (VUint16 _) = (base_type t = ''USMALLINT'')"
| "driver_kind t (VUint32 _) = (base_type t = ''UINTEGER'')"
| "driver_kind t _ = False"

lemma fits_sint: "LENGTH('a) \<le> 8 * n \<Longrightarrow> fits_signed n (sint (w :: 'a::len word))"
proof -
  assume "LENGTH('a) \<le> 8 * n"
  then have "(2::int) ^ (LENGTH('a) - 1) \<le> 2 ^ (8 * n - 1)"
    by (intro power_increasing) auto
  then show ?thesis
    using sint_ge [of w] sint_lt [of w] unfolding fits_signed_def by linarith
qed

lemma fits_uint: "LENGTH('a) < 8 * n \<Longrightarrow> fits_signed n (uint (w :: 'a::len word))"
proof -
  assume "LENGTH('a) < 8 * n"
  then have "(2::int) ^ LENGTH('a) \<le> 2 ^ (8 * n - 1)"
    by (intro power_increasing) auto
  moreover have "- (2 ^ (8 * n - 1)) \<le> (0::int)" by simp
  ultimately show ?thesis
    using uint_lt2p [of w] uint_ge_0 [of w] unfolding fits_signed_def by linarith
qed

lemma driver_kind_fits:
  assumes "driver_kind t v" and "int_of_value v = Some i"
  shows "oidForType t \<in> int_oids \<and> fits_signed (int_width (oidForType t)) i"
  using assms by (cases "(t, v)" rule: driver_kind.cases)
    (auto simp: oidForType_def Let_def int_oids_def int_width_def fits_sint fits_uint)

section \<open>Properties\<close>

text \<open>C12. An integer that fits the width of its column's type is sent exactly, in both
  formats: the binary form has that width and its two's complement value is the integer, and
  the text form is its decimal text.\<close>

theorem integers_sent_exactly:
  assumes "int_of_value v = Some i" and "oidForType t \<in> int_oids"
    and "fits_signed (int_width (oidForType t)) i"
  shows "\<exists>bs txt. encodeValue F v (oidForType t) 1 = Some bs \<and>
    length bs = int_width (oidForType t) \<and> wire_int bs = i \<and>
    encodeValue F v (oidForType t) 0 = Some txt \<and> scan_int txt = Some i"
  using wire_exact [OF assms, of F] encodeText_int [OF assms(1), of F] int_not_nil [OF assms(1)]
  by (simp add: encodeValue_def)

lemma integers_sent_exactly_witness:
  "\<exists>bs txt. encodeValue demo_floats (VBigInt (- 5)) (oidForType ''hugeint'') 1 = Some bs \<and>
    length bs = int_width (oidForType ''hugeint'') \<and> wire_int bs = - 5 \<and>
    encodeValue demo_floats (VBigInt (- 5)) (oidForType ''hugeint'') 0 = Some txt \<and>
    scan_int txt = Some (- 5)"
proof (rule integers_sent_exactly)
  have "oidForType ''hugeint'' = 20" by code_simp
  then show "oidForType ''hugeint'' \<in> int_oids"
    and "fits_signed (int_width (oidForType ''hugeint'')) (- 5)"
    by (simp_all add: int_oids_def int_width_def fits_signed_def)
qed simp



text \<open>C11. No integer is changed silently: when a cell of a 128-bit or unsigned 64-bit column
  does not arrive as the integer it holds, the report of the result has a warning for that
  column. (The warning says the value is sent as 0. What is sent is never 0.)\<close>

theorem no_silent_integer_loss:
  assumes col: "ci < length (q_cols res)" and row: "row \<in> set (q_rows res)" "ci < length row"
    and wide: "base_type (c_type (q_cols res ! ci)) \<in> {''HUGEINT'', ''UHUGEINT'', ''UBIGINT''}"
    and cell: "int_of_value (row ! ci) = Some i"
    and sent: "encodeValue F (row ! ci) (oidForType (c_type (q_cols res ! ci))) 1 = Some bs"
    and lost: "wire_int bs \<noteq> i"
  shows "wire_int bs \<noteq> 0 \<and>
    (\<exists>n>0. warning_line (c_name (q_cols res ! ci)) wide_note n \<in> set (Warnings (pg_report F res)))"
proof
  let ?v = "row ! ci" and ?c = "q_cols res ! ci"
  have oid: "oidForType (c_type ?c) = 20"
    using wide by (auto simp: oidForType_def)
  then have wire: "wire_int bs = sint (toInt F ?v)"
    using sent encodeBinary_int [of 20 F ?v] int_not_nil [OF cell]
    by (auto simp: encodeValue_def int_oids_def)
  have "\<not> in_int64 i"
    using wire lost toInt_exact [OF cell, of 8 F] by (auto simp: fits_signed_8)
  then have exceeds: "ExceedsInt64 F ?v"
    using ExceedsInt64_iff [OF cell, of F] by simp
  show "wire_int bs \<noteq> 0"
    using \<open>\<not> in_int64 i\<close> toInt_nonzero [OF cell] wire by simp
  have "(ci, ?c) \<in> set (enumerate 0 (q_cols res))"
    using col by (simp add: in_set_enumerate_eq)
  moreover have "(c_name ?c, wide_note) \<in> set (pg_column_additions F (q_rows res) (ci, ?c))"
    using row wide exceeds by (auto simp: pg_column_additions_def Let_def)
  ultimately have mem: "(c_name ?c, wide_note) \<in> set (pg_additions F res)"
    unfolding pg_additions_def by force
  then have "0 < count_list (pg_additions F res) (c_name ?c, wide_note)"
    using count_list_0_iff [of "pg_additions F res"] by fastforce
  with pg_fidelity.addition_warned [OF mem]
  show "\<exists>n>0. warning_line (c_name ?c) wide_note n \<in> set (Warnings (pg_report F res))"
    by blast
qed

lemma no_silent_integer_loss_witness:
  "let res = \<lparr>q_cols = [\<lparr>c_name = ''n'', c_type = ''HUGEINT''\<rparr>], q_rows = [[VBigInt (2 ^ 63)]]\<rparr>
   in \<exists>n>0. warning_line ''n'' wide_note n \<in> set (Warnings (pg_report demo_floats res))"
proof -
  let ?res = "\<lparr>q_cols = [\<lparr>c_name = ''n'', c_type = ''HUGEINT''\<rparr>], q_rows = [[VBigInt (2 ^ 63)]]\<rparr>"
  have oid: "oidForType ''HUGEINT'' = 20" and base: "base_type ''HUGEINT'' = ''HUGEINT''"
    by code_simp+
  have "sint (toInt demo_floats (VBigInt (2 ^ 63))) = max_int64"
    using toInt_value [of "VBigInt (2 ^ 63)" "2 ^ 63" demo_floats]
    by (simp add: clamp64_def max_int64_def min_int64_def)
  then have "wire_int (PutUint64 (toInt demo_floats (VBigInt (2 ^ 63)))) \<noteq> 2 ^ 63"
    by (simp add: wire_int_Put max_int64_def)
  then show ?thesis
    using no_silent_integer_loss [of 0 ?res "[VBigInt (2 ^ 63)]" "2 ^ 63" demo_floats
        "PutUint64 (toInt demo_floats (VBigInt (2 ^ 63)))"]
    by (simp add: oid base encodeValue_def encodeBinary_def Let_def)
qed



text \<open>A date within the same 292 years is sent exactly, before the epoch too, although
  its day number goes through floating-point hours: the four bytes are the number of days
  since 2000-01-01.\<close>

theorem date_sent:
  assumes "t_ns t = t_ns pgEpoch + k * ns_per_day" and "\<bar>k\<bar> \<le> 106751"
  shows "\<exists>bs. encodeValue F (VTime t) (oidForType ''DATE'') 1 = Some bs \<and> length bs = 4 \<and> wire_int bs = k"
proof -
  have oid: "oidForType ''DATE'' = 1082" by code_simp
  have "in_int64 (k * ns_per_day)"
    using assms(2) by (simp add: in_int64_def max_int64_def min_int64_def ns_per_day_def abs_le_iff)
  then have "t_Sub t pgEpoch = k * ns_per_day"
    using assms(1) by (simp add: t_Sub_def clamp64_id)
  then have "date_days F (VTime t) = word_of_int k"
    using assms(2) d_Hours_days [of k] by (simp add: date_days_def)
  moreover have "sint (word_of_int k :: 32 word) = k"
    using assms(2) by (simp add: sint_sbintrunc' signed_take_bit_int_eq_self abs_le_iff)
  ultimately show ?thesis
    by (simp add: oid encodeValue_def encodeBinary_def wire_int_Put)
qed

lemma date_sent_witness:
  "\<exists>bs. encodeValue demo_floats (VTime \<lparr>t_ns = 946684800000000000 - ns_per_day, t_off = 0\<rparr>)
      (oidForType ''DATE'') 1 = Some bs \<and> wire_int bs = - 1"
  using date_sent [of "\<lparr>t_ns = 946684800000000000 - ns_per_day, t_off = 0\<rparr>" "- 1" demo_floats]
  by (auto simp: pgEpoch_def)

text \<open>The number of bytes of a binary value of a type, as the client decodes it.\<close>

definition type_size :: "32 word \<Rightarrow> nat option" where
  "type_size oid =
     map_of [(16, 1), (21, 2), (23, 4), (20, 8), (700, 4), (701, 8), (1114, 8), (1082, 4)] oid"

lemma encodeBinary_size:
  "type_size oid = Some n \<Longrightarrow> \<exists>bs. encodeBinary F v oid = Some bs \<and> length bs = n"
  by (auto simp: type_size_def encodeBinary_def split: if_splits)

text \<open>C15. A data row agrees with the row description of the same result and formats: as many
  cells as fields, a cell is NULL exactly when the value is, and a cell of a field announced
  as binary with a fixed-size type has that size.\<close>

theorem dataRow_matches_description:
  assumes "row \<in> set (q_rows res)" and "rect res"
  shows "length (dataRow F res row formats) = length (rowDescription res formats) \<and>
    (\<forall>i < length row.
       (dataRow F res row formats ! i = None \<longleftrightarrow> row ! i = VNil) \<and>
       (\<forall>n bs. fd_format (rowDescription res formats ! i) = 1 \<longrightarrow>
          type_size (fd_oid (rowDescription res formats ! i)) = Some n \<longrightarrow>
          dataRow F res row formats ! i = Some bs \<longrightarrow> length bs = n))"
proof -
  have len: "length row = length (q_cols res)"
    using assms by (simp add: rect_def)
  have "encodeText F v = None \<longleftrightarrow> v = VNil" for v
    by (cases v) auto
  moreover have "encodeBinary F v oid = None \<longleftrightarrow> encodeText F v = None \<and> type_size oid = None" for v oid
    by (auto simp: encodeBinary_def type_size_def)
  ultimately have nil: "encodeValue F v oid f = None \<longleftrightarrow> v = VNil" for v oid f
    by (auto simp: encodeValue_def)
  have size: "length bs = n" if "encodeValue F v oid 1 = Some bs" "type_size oid = Some n" for v oid bs n
    using that encodeBinary_size [of oid n F v] by (auto simp: encodeValue_def split: if_splits)
  have cell: "dataRow F res row formats ! i =
      encodeValue F (row ! i) (fd_oid (rowDescription res formats ! i))
        (fd_format (rowDescription res formats ! i))" if "i < length row" for i
    using that len by (simp add: dataRow_def rowDescription_def nth_enumerate_eq)
  show ?thesis
    using len by (auto simp: cell nil dest: size) (simp_all add: dataRow_def rowDescription_def)
qed

lemma dataRow_matches_description_witness:
  "let res = \<lparr>q_cols = [\<lparr>c_name = ''n'', c_type = ''BIGINT''\<rparr>], q_rows = [[VNil]]\<rparr>
   in length (dataRow demo_floats res [VNil] [1]) = length (rowDescription res [1])"
  using dataRow_matches_description [of "[VNil]"
      "\<lparr>q_cols = [\<lparr>c_name = ''n'', c_type = ''BIGINT''\<rparr>], q_rows = [[VNil]]\<rparr>" demo_floats "[1]"]
  by (simp add: rect_def)

end
