(* ===== verification/Pg.thy ===== *)
theory Pg
  imports PgSql PgEncode
begin

text \<open>
  A session of the PostgreSQL front end (internal/pg/handler.go): its state, one function per
  message handler, the startup handshake and the connection loop. The wire protocol library
  is not modelled: what a session does to its \<open>pgproto3.Backend\<close> and to the socket is
  recorded as the list of calls it makes, in order.
\<close>

section \<open>Messages\<close>

datatype be_msg =
    AuthenticationOk | ParameterStatus string string | BackendKeyData nat string
  | ReadyForQuery char | EmptyQueryResponse | ParseComplete | BindComplete | CloseComplete
  | NoData | ParameterDescription "32 word list" | RowDescription "field list"
  | DataRow "string option list" | CommandComplete string
  | ErrorResponse string string string | NoticeResponse string string string

datatype call = Send be_msg | Flush | ConnWrite string

datatype fe_msg =
    Query string | Parse string string | Bind string string "string option list" "16 word list"
  | Describe char string | Execute string | Sync | FlushMsg | Close char string | Terminate
  | OtherMessage

section \<open>State\<close>

record portal =
  p_sql :: string
  p_params :: "string option list"
  p_formats :: "16 word list"

definition no_portal :: portal where
  "no_portal = \<lparr>p_sql = [], p_params = [], p_formats = []\<rparr>"

text \<open>
  \<open>s_calls\<close> are the calls on the backend and the socket so far, \<open>s_plog\<close> the lines this
  session has printed on the process log.
\<close>

record 'w session =
  s_eng :: "'w engine"
  s_conn :: nat
  s_stmts :: "string \<rightharpoonup> string"
  s_portals :: "string \<rightharpoonup> portal"
  s_failed :: bool
  s_inTx :: bool
  s_txFail :: bool
  s_lastSQL :: string
  s_lastRes :: "query_result option"
  s_lastErr :: go_error
  s_calls :: "call list"
  s_plog :: "string list"

text \<open>A handler goes on, ends the connection, or panics; \<open>handleConn\<close> recovers a panic and
  ends the connection.\<close>

datatype outcome = Continue | Quit | Panic

definition send :: "'w session \<Rightarrow> be_msg \<Rightarrow> 'w session" where
  "send s m = s\<lparr>s_calls := s_calls s @ [Send m]\<rparr>"

definition flush :: "'w session \<Rightarrow> 'w session" where
  "flush s = s\<lparr>s_calls := s_calls s @ [Flush]\<rparr>"

section \<open>Handlers\<close>

definition run :: "'w env \<Rightarrow> 'w session \<Rightarrow> string \<Rightarrow> 'w session \<times> run_result" where
  "run X s sql =
     (if s_lastRes s \<noteq> None \<and> s_lastSQL s = sql then (s, s_lastRes s, s_lastErr s)
      else (let (e, res, err) = RunConn X (s_eng s) (s_conn s) sql
            in (s\<lparr>s_eng := e, s_lastSQL := sql, s_lastRes := res, s_lastErr := err\<rparr>, res, err)))"

definition txStatus :: "'w session \<Rightarrow> char" where
  "txStatus s = (if s_txFail s then CHR ''E'' else if s_inTx s then CHR ''T'' else CHR ''I'')"

definition trackTx :: "'w session \<Rightarrow> string \<Rightarrow> go_error \<Rightarrow> 'w session" where
  "trackTx s sql execErr =
     (let w = firstKeyword sql
      in if w \<in> set [''BEGIN'', ''START''] then s\<lparr>s_inTx := True, s_txFail := False\<rparr>
         else if w \<in> set [''COMMIT'', ''ROLLBACK'', ''END'']
           then s\<lparr>s_inTx := False, s_txFail := False\<rparr>
         else if execErr \<noteq> None \<and> s_inTx s then s\<lparr>s_txFail := True\<rparr>
         else s)"

definition ready :: "'w session \<Rightarrow> 'w session" where
  "ready s = flush (send s (ReadyForQuery (txStatus s)))"

definition sendError :: "'w session \<Rightarrow> string \<Rightarrow> 'w session" where
  "sendError s msg = send s (ErrorResponse ''ERROR'' ''XX000'' msg)"

definition emitFidelity :: "'w session \<Rightarrow> report_ptr \<Rightarrow> 'w session" where
  "emitFidelity s rep =
     (if Empty rep then s
      else foldl (\<lambda>s w. send s (NoticeResponse ''WARNING'' ''01000'' (''spoofdb: '' @ w)))
             (s\<lparr>s_plog := s_plog s @ [''pg: '' @ Summary rep]\<rparr>) (Warnings rep))"

definition send_rows ::
  "float_lib \<Rightarrow> query_result \<Rightarrow> 16 word list \<Rightarrow> 'w session \<Rightarrow> 'w session" where
  "send_rows F res formats s =
     foldl (\<lambda>s row. send s (DataRow (dataRow F res row formats))) s (q_rows res)"

definition is_blank :: "string \<Rightarrow> bool" where
  "is_blank sql \<longleftrightarrow>
     TrimCut sql [CHR '';'', CHR '' '', CHR 0x09, CHR 0x0D, CHR 0x0A, CHR 0x0B, CHR 0x0C] = []"

text \<open>A result that is nil where the code reads its fields is a panic.\<close>

definition simpleQuery :: "'w env \<Rightarrow> 'w session \<Rightarrow> string \<Rightarrow> 'w session \<times> outcome" where
  "simpleQuery X s sql =
     (if is_blank sql then (ready (send s EmptyQueryResponse), Continue)
      else
        (case RunConn X (s_eng s) (s_conn s) sql of
           (e, res, err) \<Rightarrow>
             (let s = trackTx (s\<lparr>s_eng := e\<rparr>) sql err
              in case err of
                   Some msg \<Rightarrow> (ready (sendError s msg), Continue)
                 | None \<Rightarrow>
                     (case res of
                        None \<Rightarrow> (s, Panic)
                      | Some r \<Rightarrow>
                          (let s = (if q_cols r \<noteq> []
                                    then send_rows (x_floats X) r [] (send s (RowDescription (rowDescription r [])))
                                    else s);
                               s = emitFidelity s (pg_report (x_floats X) r);
                               s = send s (CommandComplete (commandTag sql (length (q_rows r))))
                           in (ready s, Continue))))))"

text \<open>
  \<open>make([]uint32, n)\<close> panics when the slice would not fit the address space of the Go
  runtime (48 bits on 64-bit Linux).
\<close>

definition makeslice_ok :: "nat \<Rightarrow> bool" where
  "makeslice_ok n \<longleftrightarrow> 4 * n \<le> 2 ^ 48"

definition describe_shape ::
  "'w env \<Rightarrow> 'w session \<Rightarrow> string \<Rightarrow> 16 word list \<Rightarrow> 'w session \<times> outcome" where
  "describe_shape X s raw formats =
     (if \<not> returnsRows raw then (send s NoData, Continue)
      else
        (case run X s (substituteParams raw []) of
           (s, res, err) \<Rightarrow>
             (case err of
                Some msg \<Rightarrow> ((sendError s msg)\<lparr>s_failed := True\<rparr>, Continue)
              | None \<Rightarrow>
                  (case res of
                     None \<Rightarrow> (s, Panic)
                   | Some r \<Rightarrow>
                       (if q_cols r = [] then (send s NoData, Continue)
                        else (send s (RowDescription (rowDescription r formats)), Continue))))))"

definition describe :: "'w env \<Rightarrow> 'w session \<Rightarrow> char \<Rightarrow> string \<Rightarrow> 'w session \<times> outcome" where
  "describe X s objectType name =
     (if objectType = CHR ''S'' then
        (let raw = (case s_stmts s name of Some q \<Rightarrow> q | None \<Rightarrow> []); n = maxParamIndex raw
         in if \<not> makeslice_ok n then (s, Panic)
            else describe_shape X (send s (ParameterDescription (replicate n 0))) raw [])
      else
        (case s_portals s name of
           Some p \<Rightarrow> describe_shape X s (p_sql p) (p_formats p)
         | None \<Rightarrow> describe_shape X s [] []))"

definition execute :: "'w env \<Rightarrow> 'w session \<Rightarrow> string \<Rightarrow> 'w session \<times> outcome" where
  "execute X s name =
     (let p = (case s_portals s name of Some p \<Rightarrow> p | None \<Rightarrow> no_portal)
      in case run X s (substituteParams (p_sql p) (p_params p)) of
           (s, res, err) \<Rightarrow>
             (let s = trackTx s (p_sql p) err
              in case err of
                   Some msg \<Rightarrow> ((sendError s msg)\<lparr>s_failed := True\<rparr>, Continue)
                 | None \<Rightarrow>
                     (case res of
                        None \<Rightarrow> (s, Panic)
                      | Some r \<Rightarrow>
                          (let s = send_rows (x_floats X) r (p_formats p) s;
                               s = emitFidelity s (pg_report (x_floats X) r)
                           in (send s (CommandComplete (commandTag (p_sql p) (length (q_rows r)))),
                               Continue)))))"

fun handle :: "'w env \<Rightarrow> 'w session \<Rightarrow> fe_msg \<Rightarrow> 'w session \<times> outcome" where
  "handle X s (Query sql) = simpleQuery X s sql"
| "handle X s (Parse name query) =
     (if s_failed s then (s, Continue)
      else (send (s\<lparr>s_stmts := (s_stmts s)(name \<mapsto> query)\<rparr>) ParseComplete, Continue))"
| "handle X s (Bind portal statement params formats) =
     (if s_failed s then (s, Continue)
      else (send (s\<lparr>s_portals := (s_portals s)(portal \<mapsto>
                 \<lparr>p_sql = (case s_stmts s statement of Some q \<Rightarrow> q | None \<Rightarrow> []),
                  p_params = params, p_formats = formats\<rparr>)\<rparr>) BindComplete, Continue))"
| "handle X s (Describe objectType name) =
     (if s_failed s then (s, Continue) else describe X s objectType name)"
| "handle X s (Execute portal) =
     (if s_failed s then (s, Continue) else execute X s portal)"
| "handle X s Sync =
     (flush (send (s\<lparr>s_failed := False, s_lastSQL := [], s_lastRes := None, s_lastErr := None\<rparr>)
              (ReadyForQuery (txStatus s))), Continue)"
| "handle X s FlushMsg = (flush s, Continue)"
| "handle X s (Close objectType name) =
     (send (if objectType = CHR ''S'' then s\<lparr>s_stmts := (s_stmts s)(name := None)\<rparr>
            else s\<lparr>s_portals := (s_portals s)(name := None)\<rparr>) CloseComplete, Continue)"
| "handle X s Terminate = (s, Quit)"
| "handle X s OtherMessage = (s, Continue)"

section \<open>The connection\<close>

text \<open>The receive loop; the list holds the messages received before the connection ends.\<close>

fun serve :: "'w env \<Rightarrow> 'w session \<Rightarrow> fe_msg list \<Rightarrow> 'w session \<times> outcome" where
  "serve X s [] = (s, Quit)"
| "serve X s (m # ms) =
     (case handle X s m of
        (s, Continue) \<Rightarrow> serve X s ms
      | (s, out) \<Rightarrow> (s, out))"

datatype startup_msg = SSLRequest | GSSEncRequest | StartupMessage | OtherStartup

definition server_params :: "(string \<times> string) list" where
  "server_params =
     [(''server_version'', ''15.0 (spoofdb)''), (''server_encoding'', ''UTF8''),
      (''client_encoding'', ''UTF8''), (''DateStyle'', ''ISO, MDY''), (''TimeZone'', ''UTC''),
      (''integer_datetimes'', ''on''), (''standard_conforming_strings'', ''on'')]"

text \<open>
  The socket during startup: the error, if any, of each write of the answer \<open>N\<close> and of the
  final flush; and the order in which Go iterates over the parameter map.
\<close>

record startup_env =
  u_write :: go_error
  u_flush :: go_error
  u_order :: "(string \<times> string) list \<Rightarrow> (string \<times> string) list"

definition send_all :: "'w session \<Rightarrow> be_msg list \<Rightarrow> 'w session" where
  "send_all s ms = foldl send s ms"

fun startup ::
  "startup_env \<Rightarrow> 'w session \<Rightarrow> startup_msg result list \<Rightarrow> 'w session \<times> go_error" where
  "startup U s [] = (s, Some ''EOF'')"
| "startup U s (Inl err # ms) = (s, Some err)"
| "startup U s (Inr m # ms) =
     (if m = SSLRequest \<or> m = GSSEncRequest then
        (let s = s\<lparr>s_calls := s_calls s @ [ConnWrite ''N'']\<rparr>
         in case u_write U of Some err \<Rightarrow> (s, Some err) | None \<Rightarrow> startup U s ms)
      else if m = StartupMessage then
        (let s = send s AuthenticationOk;
             s = send_all s (map (\<lambda>(k, v). ParameterStatus k v) (u_order U server_params));
             s = send s (BackendKeyData 1 [CHR 0x00, CHR 0x00, CHR 0x00, CHR 0x01]);
             s = send s (ReadyForQuery CHR ''I'')
         in (flush s, u_flush U))
      else (s, Some ''pg: unexpected startup message''))"

definition new_session :: "'w engine \<Rightarrow> nat \<Rightarrow> 'w session" where
  "new_session e c =
     \<lparr>s_eng = e, s_conn = c, s_stmts = Map.empty, s_portals = Map.empty, s_failed = False,
      s_inTx = False, s_txFail = False, s_lastSQL = [], s_lastRes = None, s_lastErr = None,
      s_calls = [], s_plog = []\<rparr>"

text \<open>
  \<open>handleConn\<close>: \<open>None\<close> when no database connection can be acquired, otherwise the final
  state of the session and how it ended.
\<close>

definition handleConn ::
  "'w env \<Rightarrow> startup_env \<Rightarrow> 'w engine \<Rightarrow> nat result \<Rightarrow> startup_msg result list \<Rightarrow> fe_msg list \<Rightarrow>
    ('w session \<times> outcome) option" where
  "handleConn X U e conn startup_msgs msgs =
     (case conn of
        Inl err \<Rightarrow> None
      | Inr c \<Rightarrow>
          (case startup U (new_session e c) startup_msgs of
             (s, Some err) \<Rightarrow> Some (s, Quit)
           | (s, None) \<Rightarrow> Some (serve X s msgs)))"

section \<open>What the operations do to the session\<close>

lemma foldl_send:
  "foldl (\<lambda>s x. send s (g x)) s xs = s\<lparr>s_calls := s_calls s @ map (Send \<circ> g) xs\<rparr>"
  by (induction xs arbitrary: s) (simp_all add: send_def)

text \<open>The notices of a report and the line it puts on the process log.\<close>

definition notices :: "report_ptr \<Rightarrow> be_msg list" where
  "notices rep =
     map (\<lambda>w. NoticeResponse ''WARNING'' ''01000'' (''spoofdb: '' @ w)) (Warnings rep)"

definition report_log :: "report_ptr \<Rightarrow> string list" where
  "report_log rep = (if Empty rep then [] else [''pg: '' @ Summary rep])"

lemma emitFidelity_eq:
  "emitFidelity s rep =
    s\<lparr>s_calls := s_calls s @ map Send (notices rep), s_plog := s_plog s @ report_log rep\<rparr>"
  by (auto simp: emitFidelity_def foldl_send notices_def report_log_def Warnings_def)

lemma send_rows_eq:
  "send_rows F res formats s =
    s\<lparr>s_calls := s_calls s @ map (\<lambda>row. Send (DataRow (dataRow F res row formats))) (q_rows res)\<rparr>"
  by (simp add: send_rows_def foldl_send comp_def)

lemma send_all_eq: "send_all s ms = s\<lparr>s_calls := s_calls s @ map Send ms\<rparr>"
  using foldl_send [of "\<lambda>m. m" s ms] by (simp add: send_all_def comp_def)

lemmas session_ops = send_def flush_def ready_def sendError_def emitFidelity_eq send_rows_eq

lemma trackTx_frame [frame_simps]:
  "s_eng (trackTx s q err) = s_eng s" "s_conn (trackTx s q err) = s_conn s"
  "s_stmts (trackTx s q err) = s_stmts s" "s_portals (trackTx s q err) = s_portals s"
  "s_failed (trackTx s q err) = s_failed s" "s_lastSQL (trackTx s q err) = s_lastSQL s"
  "s_lastRes (trackTx s q err) = s_lastRes s" "s_lastErr (trackTx s q err) = s_lastErr s"
  "s_calls (trackTx s q err) = s_calls s" "s_plog (trackTx s q err) = s_plog s"
  by (simp_all add: trackTx_def Let_def)

text \<open>The messages among the calls.\<close>

definition msgs_of :: "call list \<Rightarrow> be_msg list" where
  "msgs_of cs = concat (map (\<lambda>c. case c of Send m \<Rightarrow> [m] | _ \<Rightarrow> []) cs)"

lemma msgs_of_simps [simp]:
  "msgs_of [] = []" "msgs_of (Send m # cs) = m # msgs_of cs" "msgs_of (Flush # cs) = msgs_of cs"
  "msgs_of (ConnWrite b # cs) = msgs_of cs" "msgs_of (cs @ ds) = msgs_of cs @ msgs_of ds"
  by (simp_all add: msgs_of_def)

lemma msgs_of_map_Send [simp]: "msgs_of (map Send ms) = ms" "msgs_of (map (\<lambda>x. Send (g x)) xs) = map g xs"
  by (induction ms, simp_all) (induction xs, simp_all)

text \<open>The memo holds what a query runner returned: a result that is rectangular, and never
  neither a result nor an error together with a marker that it is valid.\<close>

definition memo_ok :: "'w session \<Rightarrow> bool" where
  "memo_ok s \<longleftrightarrow> (case s_lastRes s of None \<Rightarrow> True | Some r \<Rightarrow> rect r)"

definition session_ok :: "'w session \<Rightarrow> bool" where
  "session_ok s \<longleftrightarrow> memo_ok s \<and> (s_txFail s \<longrightarrow> s_inTx s)"

lemma session_ok_new [simp]: "session_ok (new_session e c)"
  by (simp add: session_ok_def memo_ok_def new_session_def)

text \<open>\<open>run\<close> is a query runner on the sessions whose memo is in order.\<close>

lemma run_cases:
  assumes "run X s sql = (s', res, err)"
  obtains (memo) "s' = s" and "res = s_lastRes s" and "err = s_lastErr s"
      and "s_lastRes s \<noteq> None" and "s_lastSQL s = sql"
  | (query) e where "RunConn X (s_eng s) (s_conn s) sql = (e, res, err)"
      and "s' = s\<lparr>s_eng := e, s_lastSQL := sql, s_lastRes := res, s_lastErr := err\<rparr>"
proof (cases "s_lastRes s \<noteq> None \<and> s_lastSQL s = sql")
  case True
  with assms show ?thesis by (intro memo) (auto simp: run_def)
next
  case False
  obtain e r er where rc: "RunConn X (s_eng s) (s_conn s) sql = (e, r, er)"
    by (rule prod_cases3)
  with False assms show ?thesis by (intro query [of e]) (auto simp: run_def)
qed

lemma run_no_nil:
  assumes "run X s sql = (s', None, err)"
  shows "err \<noteq> None"
  using assms
proof (cases rule: run_cases)
  case (query e)
  then show ?thesis using conn.no_nil by blast
qed simp

lemma run_ok:
  assumes "run X s sql = (s', res, None)"
  obtains r where "res = Some r"
  using assms run_no_nil by (cases res) blast+

lemma run_rect:
  assumes "run X s sql = (s', Some r, err)" and "memo_ok s"
  shows "rect r"
  using assms(1)
proof (cases rule: run_cases)
  case memo
  with assms(2) show ?thesis by (simp add: memo_ok_def split: option.splits)
next
  case (query e)
  then show ?thesis using conn.result_rect by blast
qed

lemma run_keeps:
  assumes "run X s sql = (s', res, err)"
  shows "s_conn s' = s_conn s" "s_stmts s' = s_stmts s" "s_portals s' = s_portals s"
    "s_failed s' = s_failed s" "s_inTx s' = s_inTx s" "s_txFail s' = s_txFail s"
    "s_calls s' = s_calls s" "s_plog s' = s_plog s"
  using assms by (cases rule: run_cases; simp)+

lemma run_memo_ok:
  assumes "run X s sql = (s', res, err)" and "memo_ok s"
  shows "memo_ok s'"
  using assms(1)
proof (cases rule: run_cases)
  case (query e)
  then show ?thesis using conn.result_rect by (auto simp: memo_ok_def split: option.split)
qed (use assms(2) in simp)

section \<open>The protocol a client expects\<close>

text \<open>
  The abstract protocol: whether an error puts the extended protocol into the skipping mode,
  and the transaction state. A step takes a frontend message and the messages that answer it.
  What the database answers is left open.
\<close>

datatype tx = Idle | InTx | TxFailed

fun tx_byte :: "tx \<Rightarrow> char" where
  "tx_byte Idle = CHR ''I''"
| "tx_byte InTx = CHR ''T''"
| "tx_byte TxFailed = CHR ''E''"

definition tx_next :: "string \<Rightarrow> bool \<Rightarrow> tx \<Rightarrow> tx" where
  "tx_next q ok t =
     (if firstKeyword q \<in> {''BEGIN'', ''START''} then InTx
      else if firstKeyword q \<in> {''COMMIT'', ''ROLLBACK'', ''END''} then Idle
      else if \<not> ok \<and> t = InTx then TxFailed else t)"

type_synonym proto = "bool \<times> tx"

definition error_reply :: "string \<Rightarrow> be_msg" where
  "error_reply e = ErrorResponse ''ERROR'' ''XX000'' e"

definition is_notice :: "be_msg \<Rightarrow> bool" where
  "is_notice m \<longleftrightarrow> (\<exists>t. m = NoticeResponse ''WARNING'' ''01000'' t)"

definition extended :: "fe_msg \<Rightarrow> bool" where
  "extended m \<longleftrightarrow> (case m of Parse _ _ \<Rightarrow> True | Bind _ _ _ _ \<Rightarrow> True | Describe _ _ \<Rightarrow> True
                    | Execute _ \<Rightarrow> True | _ \<Rightarrow> False)"

text \<open>The answer to a Describe of a statement starts with its parameters.\<close>

definition param_reply :: "char \<Rightarrow> be_msg list \<Rightarrow> bool" where
  "param_reply ty ms \<longleftrightarrow> (if ty = CHR ''S'' then \<exists>oids. ms = [ParameterDescription oids] else ms = [])"

inductive pstep :: "proto \<Rightarrow> fe_msg \<Rightarrow> be_msg list \<Rightarrow> proto \<Rightarrow> bool" where
  blank: "is_blank q \<Longrightarrow>
    pstep (f, t) (Query q) [EmptyQueryResponse, ReadyForQuery (tx_byte t)] (f, t)"
| query_error: "\<not> is_blank q \<Longrightarrow> t' = tx_next q False t \<Longrightarrow>
    pstep (f, t) (Query q) [error_reply e, ReadyForQuery (tx_byte t')] (f, t')"
| query_rows: "\<not> is_blank q \<Longrightarrow> t' = tx_next q True t \<Longrightarrow> list_all is_notice ns \<Longrightarrow>
    \<forall>row \<in> set rws. length row = length fs \<Longrightarrow>
    pstep (f, t) (Query q)
      ([RowDescription fs] @ map DataRow rws @ ns @
       [CommandComplete (commandTag q (length rws)), ReadyForQuery (tx_byte t')]) (f, t')"
| query_done: "\<not> is_blank q \<Longrightarrow> t' = tx_next q True t \<Longrightarrow> list_all is_notice ns \<Longrightarrow>
    pstep (f, t) (Query q) (ns @ [CommandComplete tag, ReadyForQuery (tx_byte t')]) (f, t')"
| skip: "extended m \<Longrightarrow> pstep (True, t) m [] (True, t)"
| parse: "pstep (False, t) (Parse n q) [ParseComplete] (False, t)"
| bind: "pstep (False, t) (Bind p n vs fs) [BindComplete] (False, t)"
| describe_none: "param_reply ty ps \<Longrightarrow> pstep (False, t) (Describe ty n) (ps @ [NoData]) (False, t)"
| describe_rows: "param_reply ty ps \<Longrightarrow> fs \<noteq> [] \<Longrightarrow>
    pstep (False, t) (Describe ty n) (ps @ [RowDescription fs]) (False, t)"
| describe_error: "param_reply ty ps \<Longrightarrow>
    pstep (False, t) (Describe ty n) (ps @ [error_reply e]) (True, t)"
| execute_done: "t' = tx_next q True t \<Longrightarrow> list_all is_notice ns \<Longrightarrow>
    pstep (False, t) (Execute n)
      (map DataRow rws @ ns @ [CommandComplete (commandTag q (length rws))]) (False, t')"
| execute_error: "t' = tx_next q False t \<Longrightarrow>
    pstep (False, t) (Execute n) [error_reply e] (True, t')"
| sync: "pstep (f, t) Sync [ReadyForQuery (tx_byte t)] (False, t)"
| quiet: "m = FlushMsg \<or> m = OtherMessage \<Longrightarrow> pstep p m [] p"
| close: "pstep p (Close ty n) [CloseComplete] p"

inductive_cases pstep_queryE: "pstep p (Query q) ms p'"
inductive_cases pstep_syncE: "pstep p Sync ms p'"
inductive_simps pstep_quiet: "pstep p FlushMsg ms p'" "pstep p OtherMessage ms p'"

definition tx_of :: "'w session \<Rightarrow> tx" where
  "tx_of s = (if s_txFail s then TxFailed else if s_inTx s then InTx else Idle)"

definition proto_of :: "'w session \<Rightarrow> proto" where
  "proto_of s = (s_failed s, tx_of s)"

text \<open>The messages a step has sent.\<close>

definition sent :: "'w session \<Rightarrow> 'w session \<Rightarrow> be_msg list" where
  "sent s s' = msgs_of (drop (length (s_calls s)) (s_calls s'))"

lemma txStatus_tx_of: "txStatus s = tx_byte (tx_of s)"
  by (simp add: txStatus_def tx_of_def)

lemma tx_of_trackTx:
  assumes "s_txFail s \<longrightarrow> s_inTx s"
  shows "tx_of (trackTx s q err) = tx_next q (err = None) (tx_of s)"
  using assms by (auto simp: trackTx_def tx_next_def tx_of_def Let_def)

lemma txFail_trackTx:
  "s_txFail s \<longrightarrow> s_inTx s \<Longrightarrow> s_txFail (trackTx s q err) \<longrightarrow> s_inTx (trackTx s q err)"
  by (auto simp: trackTx_def Let_def)

lemma tx_of_frame [simp]:
  "tx_of (s\<lparr>s_calls := cs\<rparr>) = tx_of s" "tx_of (s\<lparr>s_plog := pl\<rparr>) = tx_of s"
  "tx_of (s\<lparr>s_eng := e\<rparr>) = tx_of s" "tx_of (s\<lparr>s_failed := b\<rparr>) = tx_of s"
  "tx_of (s\<lparr>s_stmts := st\<rparr>) = tx_of s" "tx_of (s\<lparr>s_portals := po\<rparr>) = tx_of s"
  "tx_of (s\<lparr>s_lastSQL := q\<rparr>) = tx_of s" "tx_of (s\<lparr>s_lastRes := r\<rparr>) = tx_of s"
  "tx_of (s\<lparr>s_lastErr := er\<rparr>) = tx_of s"
  by (simp_all add: tx_of_def)

lemma is_notice_notices [simp]: "list_all is_notice (notices rep)"
  by (simp add: notices_def is_notice_def list_all_iff)

section \<open>Each handler follows the protocol\<close>

text \<open>A handler's step is right when it goes on, keeps the invariant and answers as the
  protocol allows.\<close>

definition good_step :: "'w session \<Rightarrow> fe_msg \<Rightarrow> 'w session \<times> outcome \<Rightarrow> bool" where
  "good_step s m r \<longleftrightarrow> snd r = Continue \<and> session_ok (fst r) \<and>
     take (length (s_calls s)) (s_calls (fst r)) = s_calls s \<and>
     pstep (proto_of s) m (sent s (fst r)) (proto_of (fst r))"

lemma session_ok_calls [simp]:
  "session_ok (s\<lparr>s_calls := cs\<rparr>) = session_ok s" "session_ok (s\<lparr>s_plog := pl\<rparr>) = session_ok s"
  "session_ok (s\<lparr>s_failed := b\<rparr>) = session_ok s" "session_ok (s\<lparr>s_eng := e\<rparr>) = session_ok s"
  "session_ok (s\<lparr>s_stmts := st\<rparr>) = session_ok s" "session_ok (s\<lparr>s_portals := po\<rparr>) = session_ok s"
  by (simp_all add: session_ok_def memo_ok_def)

lemma session_ok_trackTx: "session_ok s \<Longrightarrow> session_ok (trackTx s q err)"
  using txFail_trackTx [of s q err]
  by (simp add: session_ok_def memo_ok_def frame_simps)

lemma session_ok_tx: "session_ok s \<Longrightarrow> s_txFail s \<longrightarrow> s_inTx s"
  by (simp add: session_ok_def)

lemma length_rows:
  assumes "rect r"
  shows "\<forall>row \<in> set (map (\<lambda>row. dataRow F r row fm) (q_rows r)). length row = length (rowDescription r fm)"
  using assms by (auto simp: rect_def dataRow_def rowDescription_def)

lemma simpleQuery_good:
  assumes ok: "session_ok s"
  shows "good_step s (Query q) (simpleQuery X s q)"
proof (cases "is_blank q")
  case True
  then show ?thesis
    using ok by (auto simp: good_step_def simpleQuery_def session_ops proto_of_def sent_def
        txStatus_tx_of intro: pstep.blank)
next
  case nonblank: False
  obtain e res err where rc: "RunConn X (s_eng s) (s_conn s) q = (e, res, err)"
    by (rule prod_cases3)
  define s1 where "s1 = trackTx (s\<lparr>s_eng := e\<rparr>) q err"
  have s1: "session_ok s1" "s_failed s1 = s_failed s" "s_calls s1 = s_calls s"
    using ok by (simp_all add: s1_def session_ok_trackTx frame_simps)
  have tx: "tx_of s1 = tx_next q (err = None) (tx_of s)"
    using ok by (simp add: s1_def tx_of_trackTx session_ok_tx)
  show ?thesis
  proof (cases err)
    case (Some msg)
    then have tr: "trackTx (s\<lparr>s_eng := e\<rparr>) q (Some msg) = s1" by (simp add: s1_def)
    show ?thesis
      using nonblank s1 tx pstep.query_error [OF nonblank, of "tx_of s1" "tx_of s" "s_failed s" msg]
      by (simp add: good_step_def simpleQuery_def rc tr Some session_ops Let_def
          proto_of_def sent_def txStatus_tx_of error_reply_def)
  next
    case None
    with rc obtain r where r: "res = Some r" and rect: "rect r"
      using conn.ok_result by blast
    let ?fs = "rowDescription r []"
    let ?rows = "map (\<lambda>row. dataRow (x_floats X) r row []) (q_rows r)"
    let ?ns = "notices (pg_report (x_floats X) r)"
    have tx': "tx_of s1 = tx_next q True (tx_of s)" using tx None by simp
    from None have tr: "trackTx (s\<lparr>s_eng := e\<rparr>) q None = s1" by (simp add: s1_def)
    show ?thesis
    proof (cases "q_cols r = []")
      case True
      then show ?thesis
        using nonblank s1 pstep.query_done [OF nonblank tx', of ?ns "s_failed s" "commandTag q (length (q_rows r))"]
        by (simp add: good_step_def simpleQuery_def rc tr None r session_ops Let_def
            proto_of_def sent_def txStatus_tx_of)
    next
      case False
      then show ?thesis
        using nonblank s1 pstep.query_rows [OF nonblank tx', of ?ns ?rows ?fs "s_failed s"] length_rows [OF rect]
        by (simp add: good_step_def simpleQuery_def rc tr None r session_ops Let_def
            proto_of_def sent_def txStatus_tx_of comp_def)
    qed
  qed
qed

lemma describe_shape_good:
  assumes ok: "session_ok s" and nf: "\<not> s_failed s0" and ps: "param_reply ty ps"
    and s: "s_calls s = s_calls s0 @ map Send ps" "s_failed s = s_failed s0" "tx_of s = tx_of s0"
  shows "good_step s0 (Describe ty n) (describe_shape X s raw formats)"
proof (cases "returnsRows raw")
  case False
  then show ?thesis
    using ok s nf pstep.describe_none [OF ps, of "tx_of s0" n]
    by (simp add: good_step_def describe_shape_def session_ops proto_of_def sent_def)
next
  case True
  obtain s1 res err where run: "run X s (substituteParams raw []) = (s1, res, err)"
    by (rule prod_cases3)
  note keeps = run_keeps [OF run]
  have "tx_of s1 = tx_of s" using keeps by (simp add: tx_of_def)
  then have s1: "session_ok s1" "tx_of s1 = tx_of s0"
    using ok s keeps run_memo_ok [OF run] by (simp_all add: session_ok_def)
  show ?thesis
  proof (cases err)
    case (Some msg)
    then show ?thesis
      using True s1 s nf keeps pstep.describe_error [OF ps, of "tx_of s0" n msg]
      by (simp add: good_step_def describe_shape_def run session_ops proto_of_def sent_def error_reply_def)
  next
    case None
    with run obtain r where r: "res = Some r"
      using run_ok by blast
    show ?thesis
    proof (cases "q_cols r = []")
      case c: True
      then show ?thesis
        using True s1 s nf keeps pstep.describe_none [OF ps, of "tx_of s0" n]
        by (simp add: good_step_def describe_shape_def run None r session_ops proto_of_def sent_def)
    next
      case c: False
      then have "rowDescription r formats \<noteq> []" by (simp add: rowDescription_def enumerate_eq_zip)
      with c show ?thesis
        using True s1 s nf keeps pstep.describe_rows [OF ps, of "rowDescription r formats" "tx_of s0" n]
        by (simp add: good_step_def describe_shape_def run None r session_ops proto_of_def sent_def)
    qed
  qed
qed

text \<open>The one message that can panic: a Describe of a statement with an absurd placeholder.\<close>

definition oversized :: "'w session \<Rightarrow> fe_msg \<Rightarrow> bool" where
  "oversized s m \<longleftrightarrow>
     (case m of
        Describe ty n \<Rightarrow> \<not> s_failed s \<and> ty = CHR ''S'' \<and>
          \<not> makeslice_ok (maxParamIndex (case s_stmts s n of Some q \<Rightarrow> q | None \<Rightarrow> []))
      | _ \<Rightarrow> False)"

lemma describe_good:
  assumes ok: "session_ok s" and nf: "\<not> s_failed s" and small: "\<not> oversized s (Describe ty n)"
  shows "good_step s (Describe ty n) (describe X s ty n)"
proof (cases "ty = CHR ''S''")
  case True
  let ?raw = "case s_stmts s n of Some q \<Rightarrow> q | None \<Rightarrow> []"
  let ?ps = "[ParameterDescription (replicate (maxParamIndex ?raw) 0)]"
  have "good_step s (Describe ty n) (describe_shape X (send s (hd ?ps)) ?raw [])"
    using ok nf True by (intro describe_shape_good [where ps = ?ps]) (simp_all add: param_reply_def send_def)
  with True small nf show ?thesis
    by (simp add: describe_def oversized_def Let_def)
next
  case False
  then have "good_step s (Describe ty n) (describe_shape X s raw fm)" for raw fm
    using ok nf by (intro describe_shape_good [where ps = "[]"]) (simp_all add: param_reply_def)
  with False show ?thesis
    by (simp add: describe_def split: option.split)
qed

lemma execute_good:
  assumes ok: "session_ok s" and nf: "\<not> s_failed s"
  shows "good_step s (Execute n) (execute X s n)"
proof -
  define p where "p = (case s_portals s n of Some p \<Rightarrow> p | None \<Rightarrow> no_portal)"
  obtain s1 res err where run: "run X s (substituteParams (p_sql p) (p_params p)) = (s1, res, err)"
    by (rule prod_cases3)
  note keeps = run_keeps [OF run]
  have s1: "session_ok s1" "tx_of s1 = tx_of s"
    using ok keeps run_memo_ok [OF run] by (simp_all add: session_ok_def tx_of_def)
  define s2 where "s2 = trackTx s1 (p_sql p) err"
  have s2: "session_ok s2" "s_failed s2 = s_failed s" "s_calls s2 = s_calls s"
    using s1 keeps by (simp_all add: s2_def session_ok_trackTx frame_simps)
  have tx: "tx_of s2 = tx_next (p_sql p) (err = None) (tx_of s)"
    using s1 by (simp add: s2_def tx_of_trackTx session_ok_tx)
  show ?thesis
  proof (cases err)
    case (Some msg)
    then have tr: "trackTx s1 (p_sql p) (Some msg) = s2" by (simp add: s2_def)
    show ?thesis
      using nf s2 tx pstep.execute_error [of "tx_of s2" "p_sql p" "tx_of s" n msg]
      by (simp add: good_step_def execute_def p_def [symmetric] run tr Some session_ops Let_def
          proto_of_def sent_def error_reply_def)
  next
    case None
    with run obtain r where r: "res = Some r"
      using run_ok by blast
    from None have tr: "trackTx s1 (p_sql p) None = s2" by (simp add: s2_def)
    show ?thesis
      using nf s2 tx None
        pstep.execute_done [of "tx_of s2" "p_sql p" "tx_of s" "notices (pg_report (x_floats X) r)" n
          "map (\<lambda>row. dataRow (x_floats X) r row (p_formats p)) (q_rows r)"]
      by (simp add: good_step_def execute_def p_def [symmetric] run tr r session_ops Let_def
          proto_of_def sent_def comp_def)
  qed
qed

lemma handle_good:
  assumes ok: "session_ok s" and "m \<noteq> Terminate" and "\<not> oversized s m"
  shows "good_step s m (handle X s m)"
proof -
  note defs = good_step_def proto_of_def sent_def session_ops txStatus_tx_of
  have skipped: "good_step s m (s, Continue)" if "s_failed s" "extended m"
    using that ok pstep.skip [of m "tx_of s"] by (simp add: defs)
  show ?thesis
  proof (cases m)
    case (Query q)
    then show ?thesis using simpleQuery_good [OF ok] by simp
  next
    case (Describe ty n)
    then show ?thesis
      using assms skipped describe_good [OF ok] by (simp add: extended_def)
  next
    case (Execute n)
    then show ?thesis
      using skipped execute_good [OF ok] by (simp add: extended_def)
  next
    case (Parse n q)
    then show ?thesis
      using ok skipped pstep.parse [of "tx_of s" n q] by (simp add: extended_def defs)
  next
    case (Bind p n vs fs)
    then show ?thesis
      using ok skipped pstep.bind [of "tx_of s" p n vs fs] by (simp add: extended_def defs)
  next
    case Sync
    have "session_ok (s\<lparr>s_failed := False, s_lastSQL := [], s_lastRes := None, s_lastErr := None\<rparr>)"
      using ok by (simp add: session_ok_def memo_ok_def)
    with Sync show ?thesis
      using pstep.sync [of "s_failed s" "tx_of s"] by (simp add: defs)
  next
    case (Close ty n)
    then show ?thesis
      using ok pstep.close [of "(s_failed s, tx_of s)" ty n] by (auto simp: defs)
  qed (use assms pstep.quiet [of m "(s_failed s, tx_of s)"] in \<open>simp_all add: defs\<close>)
qed

section \<open>The session as a machine\<close>

definition step :: "'w env \<Rightarrow> 'w session \<Rightarrow> fe_msg \<Rightarrow> 'w session" where
  "step X s m = fst (handle X s m)"

lemma handle_oversized:
  "oversized s m \<Longrightarrow> handle X s m = (s, Panic)"
  by (auto simp: oversized_def describe_def Let_def split: fe_msg.splits)

lemma session_ok_step: "session_ok s \<Longrightarrow> session_ok (step X s m)"
  using handle_good [of s m X] handle_oversized [of s m X]
  by (cases "m = Terminate"; cases "oversized s m") (auto simp: step_def good_step_def)

interpretation pg_session: started_machine "step X" session_ok "new_session e c"
  by unfold_locales (simp_all add: session_ok_step)

fun is_ready :: "be_msg \<Rightarrow> bool" where
  "is_ready (ReadyForQuery _) = True"
| "is_ready _ = False"

fun asks_ready :: "fe_msg \<Rightarrow> bool" where
  "asks_ready (Query _) = True"
| "asks_ready Sync = True"
| "asks_ready _ = False"

lemma notices_not_ready: "list_all is_notice ns \<Longrightarrow> filter is_ready ns = []"
  by (induction ns) (auto simp: is_notice_def)

lemma rows_not_ready [simp]: "filter is_ready (map DataRow rws) = []"
  by (induction rws) auto

lemma pstep_ready:
  "pstep p m ms p' \<Longrightarrow> length (filter is_ready ms) = (if asks_ready m then 1 else 0)"
  by (induction rule: pstep.induct)
    (auto simp: notices_not_ready extended_def error_reply_def param_reply_def
      split: if_splits fe_msg.splits)

text \<open>A message is plain when it neither ends the session nor makes it panic.\<close>

definition plain :: "'w session \<Rightarrow> fe_msg \<Rightarrow> bool" where
  "plain s m \<longleftrightarrow> m \<noteq> Terminate \<and> \<not> oversized s m"

fun all_plain :: "'w env \<Rightarrow> 'w session \<Rightarrow> fe_msg list \<Rightarrow> bool" where
  "all_plain X s [] = True"
| "all_plain X s (m # ms) = (plain s m \<and> all_plain X (step X s m) ms)"

lemma handle_plain:
  "session_ok s \<Longrightarrow> plain s m \<Longrightarrow> handle X s m = (step X s m, Continue) \<and> good_step s m (step X s m, Continue)"
  using handle_good [of s m X] by (cases "handle X s m") (auto simp: plain_def step_def good_step_def)

lemma msgs_step:
  assumes "session_ok s" and "plain s m"
  shows "msgs_of (s_calls (step X s m)) = msgs_of (s_calls s) @ sent s (step X s m)"
proof -
  have "take (length (s_calls s)) (s_calls (step X s m)) = s_calls s"
    using handle_plain [OF assms, of X] by (simp add: good_step_def)
  then show ?thesis
    unfolding sent_def by (metis append_take_drop_id msgs_of_simps(5))
qed

lemma serve_plain:
  "session_ok s \<Longrightarrow> all_plain X s ms \<Longrightarrow> serve X s ms = (foldl (step X) s ms, Quit)"
  by (induction ms arbitrary: s) (simp_all add: handle_plain session_ok_step)

lemma ready_count:
  "session_ok s \<Longrightarrow> all_plain X s ms \<Longrightarrow>
    length (filter is_ready (msgs_of (s_calls (foldl (step X) s ms)))) =
    length (filter is_ready (msgs_of (s_calls s))) + length (filter asks_ready ms)"
proof (induction ms arbitrary: s)
  case (Cons m ms)
  then have "pstep (proto_of s) m (sent s (step X s m)) (proto_of (step X s m))"
    using handle_plain [of s m X] by (simp add: good_step_def)
  from pstep_ready [OF this] Cons show ?case
    by (simp add: session_ok_step msgs_step)
qed simp

section \<open>Properties\<close>



text \<open>C3. Nothing a client sends makes a session dereference a missing result: a handler
  panics for one reason only, a Describe of a prepared statement whose highest placeholder
  index asks for a slice beyond the address space.\<close>

theorem panic_only_oversized:
  "let s = foldl (step X) (new_session e c) ms
   in snd (handle X s m) = Panic \<longleftrightarrow> oversized s m"
proof -
  define s where "s = foldl (step X) (new_session e c) ms"
  have "session_ok s"
    unfolding s_def by (rule pg_session.reachable_inv)
  then show ?thesis
    using handle_good [of s m X] handle_oversized [of s m X]
    by (cases "m = Terminate"; cases "oversized s m")
      (auto simp: s_def [symmetric] good_step_def oversized_def)
qed








definition select_one :: portal where
  "select_one = \<lparr>p_sql = ''SELECT 1'', p_params = [], p_formats = []\<rparr>"


text \<open>C7. A Describe never changes data through a statement that does not return rows: it
  answers NoData (after the parameter description, for a prepared statement) and neither the
  database nor the memo is touched.\<close>

theorem describe_without_effect:
  assumes "\<not> returnsRows (if ty = CHR ''S'' then (case s_stmts s n of Some q \<Rightarrow> q | None \<Rightarrow> [])
                          else (case s_portals s n of Some p \<Rightarrow> p_sql p | None \<Rightarrow> []))"
    and "plain s (Describe ty n)" and "\<not> s_failed s"
  shows "let s' = step X s (Describe ty n)
    in s_eng s' = s_eng s \<and> s_lastRes s' = s_lastRes s \<and> proto_of s' = proto_of s \<and>
       msgs_of (s_calls s') = msgs_of (s_calls s) @
         (if ty = CHR ''S''
          then [ParameterDescription (replicate (maxParamIndex (case s_stmts s n of Some q \<Rightarrow> q | None \<Rightarrow> [])) 0)]
          else []) @ [NoData]"
  using assms
  by (cases "ty = CHR ''S''"; cases "s_portals s n")
    (auto simp: step_def describe_def describe_shape_def plain_def oversized_def send_def
      proto_of_def Let_def)

lemma describe_without_effect_witness:
  "let X = demo_env (\<lambda>s. Inl ''no''); s = (new_session (demo_engine False) 0)\<lparr>s_stmts := [[] \<mapsto> ''INSERT INTO t VALUES ($1)'']\<rparr>
   in s_eng (step X s (Describe CHR ''S'' [])) = demo_engine False"
proof -
  let ?s = "(new_session (demo_engine False) 0)\<lparr>s_stmts := [[] \<mapsto> ''INSERT INTO t VALUES ($1)'']\<rparr>"
  have nr: "\<not> returnsRows ''INSERT INTO t VALUES ($1)''" and "maxParamIndex ''INSERT INTO t VALUES ($1)'' = 1"
    by code_simp+
  then have "plain ?s (Describe CHR ''S'' [])"
    by (simp add: plain_def oversized_def makeslice_ok_def)
  from describe_without_effect [OF _ this, of "demo_env (\<lambda>s. Inl ''no'')"] nr show ?thesis
    by (simp add: Let_def new_session_def)
qed

definition greeting :: "startup_env \<Rightarrow> be_msg list" where
  "greeting U =
     [AuthenticationOk] @ map (\<lambda>(k, v). ParameterStatus k v) (u_order U server_params) @
     [BackendKeyData 1 [CHR 0x00, CHR 0x00, CHR 0x00, CHR 0x01], ReadyForQuery CHR ''I'']"

lemma startup_ok:
  "startup U s0 msgs = (s, None) \<Longrightarrow>
    \<exists>declined rest. msgs = map Inr declined @ Inr StartupMessage # rest \<and>
      set declined \<subseteq> {SSLRequest, GSSEncRequest} \<and>
      s = s0\<lparr>s_calls := s_calls s0 @ map (\<lambda>_. ConnWrite ''N'') declined @ map Send (greeting U) @ [Flush]\<rparr>"
proof (induction msgs arbitrary: s0)
  case (Cons x msgs)
  from Cons.prems obtain m where x: "x = Inr m" by (cases x) auto
  show ?case
  proof (cases "m = SSLRequest \<or> m = GSSEncRequest")
    case True
    then have "startup U (s0\<lparr>s_calls := s_calls s0 @ [ConnWrite ''N'']\<rparr>) msgs = (s, None)"
      using Cons.prems x by (auto simp: Let_def split: option.splits)
    from Cons.IH [OF this] obtain declined rest where
      "msgs = map Inr declined @ Inr StartupMessage # rest" "set declined \<subseteq> {SSLRequest, GSSEncRequest}"
      "s = s0\<lparr>s_calls := s_calls s0 @ map (\<lambda>_. ConnWrite ''N'') (m # declined) @ map Send (greeting U) @ [Flush]\<rparr>"
      by auto
    with True x show ?thesis
      by (intro exI [of _ "m # declined"] exI [of _ rest]) auto
  next
    case False
    with Cons.prems x have "m = StartupMessage"
      by (auto split: if_splits)
    with Cons.prems x show ?thesis
      by (intro exI [of _ "[]"] exI [of _ msgs])
        (auto simp: Let_def session_ops send_all_eq greeting_def comp_def case_prod_unfold)
  qed
qed simp



text \<open>The memo also answers for a second Execute: two executions of the same statement before a
  Sync run it once, so a repeated INSERT is lost although both are acknowledged.\<close>

lemma repeated_execute_dropped:
  assumes "\<not> s_failed s" and "s_lastRes s = None" and "s_portals s n = Some p"
    and "RunConn X (s_eng s) (s_conn s) (substituteParams (p_sql p) (p_params p)) = (e', Some r, None)"
  shows "s_eng (step X (step X s (Execute n)) (Execute n)) = e' \<and>
    msgs_of (s_calls (step X (step X s (Execute n)) (Execute n))) =
      msgs_of (s_calls s) @ concat (replicate 2
        (map (\<lambda>row. DataRow (dataRow (x_floats X) r row (p_formats p))) (q_rows r) @
         notices (pg_report (x_floats X) r) @
         [CommandComplete (commandTag (p_sql p) (length (q_rows r)))]))"
  using assms
  by (simp add: step_def execute_def run_def session_ops Let_def frame_simps numeral_2_eq_2)

text \<open>A BEGIN that DuckDB rejects still opens a transaction in the session's eyes.\<close>

lemma failed_begin_opens:
  "txStatus (trackTx (new_session e c) ''BEGIN'' (Some ''error'')) = CHR ''T''"
proof -
  have "firstKeyword ''BEGIN'' = ''BEGIN''" by code_simp
  then show ?thesis by (simp add: trackTx_def txStatus_def new_session_def)
qed

end
