(* ===== verification/Mysql.thy ===== *)
theory Mysql
  imports Engine Fidelity
begin

text \<open>
  The MySQL front end (internal/mysql/handler.go and fidelity.go): the rewriting of back
  ticks, the substitution of prepared-statement arguments, the execution of a statement with
  its warnings, and the handler of one connection. The go-mysql library, which speaks the
  wire protocol and builds result sets, is the record \<open>my_lib\<close>.
\<close>

section \<open>Statement text\<close>

text \<open>The loop of \<open>backticksToQuotes\<close>; the flag is \<open>inStr\<close>.\<close>

fun backticks_from :: "bool \<Rightarrow> string \<Rightarrow> string" where
  "backticks_from inStr [] = []"
| "backticks_from inStr (c # s) =
     (if c = CHR 0x27 then c # backticks_from (\<not> inStr) s
      else if c = CHR 0x60 \<and> \<not> inStr then CHR 0x22 # backticks_from inStr s
      else c # backticks_from inStr s)"

definition backticksToQuotes :: "string \<Rightarrow> string" where
  "backticksToQuotes q = (if \<not> Contains q [CHR 0x60] then q else backticks_from False q)"

definition my_escapeSQL :: "string \<Rightarrow> string" where
  "my_escapeSQL s = ReplaceAllByte s CHR 0x27 [CHR 0x27, CHR 0x27]"

definition my_literal :: "string \<Rightarrow> string" where
  "my_literal s = [CHR 0x27] @ my_escapeSQL s @ [CHR 0x27]"

fun quoteArg :: "float_lib \<Rightarrow> value \<Rightarrow> string" where
  "quoteArg F VNil = ''NULL''"
| "quoteArg F (VInt64 x) = show_int (sint x)"
| "quoteArg F (VUint64 x) = show_int (uint x)"
| "quoteArg F (VFloat64 x) = f_format_g F x"
| "quoteArg F (VBool x) = (if x then ''1'' else ''0'')"
| "quoteArg F (VTime x) = [CHR 0x27] @ format_micros x @ [CHR 0x27]"
| "quoteArg F (VBytes x) = my_literal x"
| "quoteArg F (VString x) = my_literal x"
| "quoteArg F v = my_literal (Sprint F v)"

definition my_quote :: "char \<Rightarrow> bool" where
  "my_quote c \<longleftrightarrow> c = CHR 0x27 \<or> c = CHR 0x22 \<or> c = CHR 0x60"

text \<open>
  The loop of \<open>substituteArgs\<close>: the open quote, the arguments not used yet, the rest of the
  query.
\<close>

function subst_from :: "(value \<Rightarrow> string) \<Rightarrow> char option \<Rightarrow> value list \<Rightarrow> string \<Rightarrow> string" where
  "subst_from qa quote args [] = []"
| "subst_from qa quote args (c # s) =
     (case quote of
        Some q \<Rightarrow>
          (if c = CHR 0x5C \<and> s \<noteq> [] then c # hd s # subst_from qa quote args (tl s)
           else if c = q then c # subst_from qa None args s
           else c # subst_from qa quote args s)
      | None \<Rightarrow>
          (if my_quote c then c # subst_from qa (Some c) args s
           else if c = CHR ''?'' \<and> args \<noteq> [] then qa (hd args) @ subst_from qa None (tl args) s
           else c # subst_from qa None args s))"
  by pat_completeness auto
termination
  by (relation "measure (\<lambda>(qa, quote, args, s). length s)") auto

definition substituteArgs :: "float_lib \<Rightarrow> string \<Rightarrow> value list \<Rightarrow> string" where
  "substituteArgs F query args =
     (if args = [] then query else subst_from (quoteArg F) None args query)"

definition isShowWarnings :: "string \<Rightarrow> bool" where
  "isShowWarnings q \<longleftrightarrow>
     (let u = TrimSuffix (ToUpper (JoinStr (Fields q) '' '')) '';''
      in u = ''SHOW WARNINGS'' \<or> HasPrefix u ''SHOW WARNINGS '')"

definition firstWord :: "string \<Rightarrow> string" where
  "firstWord q = ToUpper (cut_at (IndexAny q [CHR '' '', CHR 0x09, CHR 0x0D, CHR 0x0A]) q)"

definition isSessionNoop :: "string \<Rightarrow> bool" where
  "isSessionNoop word \<longleftrightarrow>
     word \<in> set [''SET'', ''USE'', ''BEGIN'', ''START'', ''COMMIT'', ''ROLLBACK'']"

section \<open>Results\<close>

text \<open>
  \<open>*gomysql.Result\<close>, and what the library provides: the status flag of an OK packet, the
  construction of a result around a result set, and the two encoders, which may fail.
\<close>

record 'rs my_result =
  mr_status :: "16 word"
  mr_warnings :: "16 word"
  mr_affected :: "64 word"
  mr_set :: "'rs option"

record 'rs my_lib =
  l_autocommit :: "16 word"
  l_text :: "string list \<Rightarrow> value list list \<Rightarrow> 'rs result"
  l_binary :: "string list \<Rightarrow> value list list \<Rightarrow> 'rs result"
  l_result :: "'rs \<Rightarrow> 'rs my_result"

definition okResult :: "'rs my_lib \<Rightarrow> nat \<Rightarrow> 'rs my_result" where
  "okResult L affected =
     \<lparr>mr_status = l_autocommit L, mr_warnings = 0, mr_affected = of_nat affected, mr_set = None\<rparr>"

fun coerce :: "float_lib \<Rightarrow> value \<Rightarrow> value" where
  "coerce F (VBool x) = VInt64 (if x then 1 else 0)"
| "coerce F (VBigInt i) = VString (Sprint F (VBigInt i))"
| "coerce F (VOther s) = VString (Sprint F (VOther s))"
| "coerce F v = v"

section \<open>The fidelity report\<close>

definition my_type_note :: "string \<Rightarrow> string option" where
  "my_type_note base =
     (if base \<in> set [''BOOLEAN'', ''BOOL''] then Some ''BOOLEAN shown as integer 0/1''
      else if base \<in> set [''DECIMAL'', ''NUMERIC''] then Some ''DECIMAL shown as text''
      else if base \<in> set [''HUGEINT'', ''UHUGEINT''] then Some (base @ '' shown as text'')
      else None)"

definition my_report :: "query_result \<Rightarrow> report_ptr" where
  "my_report res =
     foldl (\<lambda>r c. case my_type_note (base_type (c_type c)) of
                    Some s \<Rightarrow> Add r (c_name c) s | None \<Rightarrow> r) New (q_cols res)"

section \<open>The handler of a connection\<close>

record 'w my_handler =
  h_eng :: "'w engine"
  h_warnings :: "string list"
  h_log :: "string list"

text \<open>The answer to a statement; a nil result that is dereferenced is a panic.\<close>

datatype 'rs answer = Answer "'rs my_result" | Failed string | Panicked

definition showWarnings :: "'rs my_lib \<Rightarrow> 'w my_handler \<Rightarrow> 'rs answer" where
  "showWarnings L h =
     (case l_text L [''Level'', ''Code'', ''Message'']
             (map (\<lambda>w. [VString ''Warning'', VInt64 1105, VString (''spoofdb: '' @ w)]) (h_warnings h)) of
        Inl err \<Rightarrow> Failed err
      | Inr rs \<Rightarrow> Answer (l_result L rs))"

text \<open>The part of \<open>exec\<close> that answers with rows.\<close>

definition row_answer ::
  "float_lib \<Rightarrow> 'rs my_lib \<Rightarrow> 'w my_handler \<Rightarrow> query_result \<Rightarrow> bool \<Rightarrow> 'w my_handler \<times> 'rs answer" where
  "row_answer F L h r binary =
     (let names = map c_name (q_cols r);
          values = map (map (coerce F)) (q_rows r)
      in case (if binary then l_binary L names values else l_text L names values) of
           Inl err \<Rightarrow> (h, Failed err)
         | Inr rs \<Rightarrow>
             (let result = l_result L rs; rep = my_report r
              in if \<not> Empty rep then
                   (h\<lparr>h_log := h_log h @ [''mysql: '' @ Summary rep], h_warnings := Warnings rep\<rparr>,
                    Answer (result\<lparr>mr_warnings := of_nat (length (Warnings rep))\<rparr>))
                 else (h, Answer result)))"

definition exec ::
  "'w env \<Rightarrow> 'rs my_lib \<Rightarrow> 'w my_handler \<Rightarrow> string \<Rightarrow> bool \<Rightarrow> 'w my_handler \<times> 'rs answer" where
  "exec X L h query0 binary =
     (let query = backticksToQuotes query0; q = TrimSpace query
      in if q = [] then (h, Answer (okResult L 0))
         else if isShowWarnings q then (h, showWarnings L h)
         else
           (case Run X (h_eng h) query of
              (e, res, Some err) \<Rightarrow>
                (h\<lparr>h_eng := e\<rparr>,
                 if isSessionNoop (firstWord q) then Answer (okResult L 0) else Failed err)
            | (e, res, None) \<Rightarrow>
                (let h = h\<lparr>h_eng := e, h_warnings := []\<rparr>
                 in case res of
                      None \<Rightarrow> (h, Panicked)
                    | Some r \<Rightarrow>
                        (if q_cols r = [] then (h, Answer (okResult L (length (q_rows r))))
                         else row_answer (x_floats X) L h r binary))))"

text \<open>The commands go-mysql dispatches to the handler, and what it sends back for them.\<close>

datatype my_command =
    ComQuery string | ComPrepare string | ComExecute string "value list" | ComFieldList string string
  | ComInitDB string | ComStmtClose | ComOther "8 word"

datatype 'rs my_reply = Statement "'rs answer" | Prepared nat nat | NoFields | Done | Unsupported string

definition HandleQuery :: "'w env \<Rightarrow> 'rs my_lib \<Rightarrow> 'w my_handler \<Rightarrow> string \<Rightarrow> 'w my_handler \<times> 'rs answer" where
  "HandleQuery X L h query = exec X L h query False"

definition HandleStmtPrepare :: "string \<Rightarrow> nat \<times> nat" where
  "HandleStmtPrepare query = (CountByte query CHR ''?'', 0)"

definition HandleStmtExecute ::
  "'w env \<Rightarrow> 'rs my_lib \<Rightarrow> 'w my_handler \<Rightarrow> string \<Rightarrow> value list \<Rightarrow> 'w my_handler \<times> 'rs answer" where
  "HandleStmtExecute X L h query args = exec X L h (substituteArgs (x_floats X) query args) True"

definition HandleOtherCommand :: "8 word \<Rightarrow> string" where
  "HandleOtherCommand cmd = ''mysql: unsupported command '' @ show_int (uint cmd)"

fun my_handle :: "'w env \<Rightarrow> 'rs my_lib \<Rightarrow> 'w my_handler \<Rightarrow> my_command \<Rightarrow> 'w my_handler \<times> 'rs my_reply" where
  "my_handle X L h (ComQuery query) = map_prod id Statement (HandleQuery X L h query)"
| "my_handle X L h (ComPrepare query) = (h, case HandleStmtPrepare query of (p, c) \<Rightarrow> Prepared p c)"
| "my_handle X L h (ComExecute query args) = map_prod id Statement (HandleStmtExecute X L h query args)"
| "my_handle X L h (ComFieldList table wildcard) = (h, NoFields)"
| "my_handle X L h (ComInitDB db) = (h, Done)"
| "my_handle X L h ComStmtClose = (h, Done)"
| "my_handle X L h (ComOther cmd) = (h, Unsupported (HandleOtherCommand cmd))"

definition my_step :: "'w env \<Rightarrow> 'rs my_lib \<Rightarrow> 'w my_handler \<Rightarrow> my_command \<Rightarrow> 'w my_handler" where
  "my_step X L h c = fst (my_handle X L h c)"

definition my_new :: "'w engine \<Rightarrow> 'w my_handler" where
  "my_new e = \<lparr>h_eng = e, h_warnings = [], h_log = []\<rparr>"

section \<open>Interfaces\<close>

interpretation my_literal_quoting: sql_quoting "CHR 0x27" my_literal
  by unfold_locales
    (simp add: my_literal_def my_escapeSQL_def quote_doubled_def [symmetric] read_quoted_doubled)

definition my_additions :: "query_result \<Rightarrow> (string \<times> string) list" where
  "my_additions res =
     concat (map (\<lambda>c. case my_type_note (base_type (c_type c)) of
                        Some s \<Rightarrow> [(c_name c, s)] | None \<Rightarrow> []) (q_cols res))"

lemma nul_free_my_type_note: "my_type_note base = Some s \<Longrightarrow> nul_free s"
proof -
  have "nul_free ''BOOLEAN shown as integer 0/1''" and "nul_free ''DECIMAL shown as text''"
    and "\<forall>b \<in> set [''HUGEINT'', ''UHUGEINT'']. nul_free (b @ '' shown as text'')"
    by code_simp+
  then show "my_type_note base = Some s \<Longrightarrow> nul_free s"
    unfolding my_type_note_def by (auto simp only: option.inject option.distinct split: if_splits)
qed

interpretation my_fidelity: fidelity_source my_report my_additions
proof
  show "my_report res = add_all New (my_additions res)" for res
    unfolding my_report_def my_additions_def
    by (rule foldl_add_all) (simp split: option.split)
  show "nul_free s" and "c \<in> c_name ` set (q_cols res)" if "(c, s) \<in> set (my_additions res)" for c s res
    using that by (auto simp: my_additions_def intro: nul_free_my_type_note [OF sym] split: option.splits)
qed

section \<open>The tokens of a statement\<close>

text \<open>A character that is copied or a placeholder, in MySQL's reading: three kinds of quotes,
  and a backslash that protects the next character inside them.\<close>

datatype mtok = MChr char | MPar

fun mtok_text :: "mtok \<Rightarrow> string" where
  "mtok_text (MChr c) = [c]"
| "mtok_text MPar = ''?''"

function mtoks :: "char option \<Rightarrow> string \<Rightarrow> mtok list" where
  "mtoks quote [] = []"
| "mtoks quote (c # s) =
     (case quote of
        Some q \<Rightarrow>
          (if c = CHR 0x5C \<and> s \<noteq> [] then MChr c # MChr (hd s) # mtoks quote (tl s)
           else MChr c # mtoks (if c = q then None else quote) s)
      | None \<Rightarrow>
          (if c = CHR ''?'' then MPar # mtoks None s
           else MChr c # mtoks (if my_quote c then Some c else None) s))"
  by pat_completeness auto
termination
  by (relation "measure (\<lambda>(quote, s). length s)") auto

text \<open>The placeholders take the arguments from left to right; one without an argument stays.\<close>

fun render_args :: "(value \<Rightarrow> string) \<Rightarrow> value list \<Rightarrow> mtok list \<Rightarrow> string" where
  "render_args qa args [] = []"
| "render_args qa args (MChr c # ts) = c # render_args qa args ts"
| "render_args qa [] (MPar # ts) = CHR ''?'' # render_args qa [] ts"
| "render_args qa (v # args) (MPar # ts) = qa v @ render_args qa args ts"

definition placeholders :: "mtok list \<Rightarrow> nat" where
  "placeholders ts = length (filter (\<lambda>t. t = MPar) ts)"

lemma placeholders_simps [simp]:
  "placeholders [] = 0" "placeholders (MChr c # ts) = placeholders ts"
  "placeholders (MPar # ts) = Suc (placeholders ts)"
  by (simp_all add: placeholders_def)

lemma mtoks_text: "concat (map mtok_text (mtoks quote s)) = s"
proof (induction quote s rule: mtoks.induct)
  case (2 quote c s)
  then show ?case
    by (cases quote; cases s) (auto split: if_splits)
qed simp

lemma subst_from_mtoks: "subst_from qa quote args s = render_args qa args (mtoks quote s)"
proof (induction qa quote args s rule: subst_from.induct)
  case (2 qa quote args c s)
  show ?case
  proof (cases quote)
    case None
    with 2 show ?thesis
      by (cases args) (auto simp: my_quote_def)
  next
    case (Some q)
    with 2 show ?thesis by auto
  qed
qed simp

lemma render_no_args: "render_args qa [] ts = concat (map mtok_text ts)"
  by (induction qa "[] :: value list" ts rule: render_args.induct) auto

lemma substituteArgs_mtoks: "substituteArgs F q args = render_args (quoteArg F) args (mtoks None q)"
  by (simp add: substituteArgs_def subst_from_mtoks render_no_args mtoks_text)

lemma render_args_append:
  "render_args qa args (ts @ us) =
    render_args qa args ts @ render_args qa (drop (placeholders ts) args) us"
  by (induction qa args ts rule: render_args.induct) auto

lemma CountByte_simps [simp]:
  "CountByte [] c = 0" "CountByte (d # s) c = (if d = c then Suc (CountByte s c) else CountByte s c)"
  "CountByte (s @ t) c = CountByte s c + CountByte t c"
  by (simp_all add: CountByte_def)

lemma placeholders_le: "placeholders ts \<le> CountByte (concat (map mtok_text ts)) CHR ''?''"
proof (induction ts)
  case (Cons t ts)
  then show ?case by (cases t) auto
qed simp

section \<open>Back ticks and literals\<close>

lemma Contains_byte: "Contains q [c] \<longleftrightarrow> c \<in> set q"
  by (induction q) (auto simp: HasPrefix_def)

lemma backticks_absent: "CHR 0x60 \<notin> set q \<Longrightarrow> backticks_from b q = q"
  by (induction q arbitrary: b) auto

lemma backticksToQuotes_from: "backticksToQuotes q = backticks_from False q"
  by (simp add: backticksToQuotes_def Contains_byte backticks_absent)

lemma backticks_append:
  "backticks_from b (s @ t) =
    backticks_from b s @ backticks_from (if even (CountByte s CHR 0x27) then b else \<not> b) t"
  by (induction s arbitrary: b) auto

lemma backticks_escaped: "backticks_from True (my_escapeSQL s) = my_escapeSQL s"
  by (induction s) (auto simp: my_escapeSQL_def ReplaceAllByte_def)

lemma even_escaped: "even (CountByte (my_escapeSQL s) CHR 0x27)"
  by (induction s) (auto simp: my_escapeSQL_def ReplaceAllByte_def)

lemma backticks_literal:
  "backticks_from False (my_literal s @ t) = my_literal s @ backticks_from False t"
  using even_escaped [of s] by (simp add: my_literal_def backticks_append backticks_escaped)

lemma even_literal: "even (CountByte (my_literal s) CHR 0x27)"
  using even_escaped [of s] by (simp add: my_literal_def)

lemma CountByte_absent: "c \<notin> set s \<Longrightarrow> CountByte s c = 0"
  by (auto simp: CountByte_def filter_empty_conv)

text \<open>Every argument brings an even number of quotes into the statement.\<close>

lemma quote_not_in_show_int: "CHR 0x27 \<notin> set (show_int i)"
  by (simp add: show_int_def quote_not_in_show_nat)

lemma even_quoteArg:
  assumes "\<And>x. CHR 0x27 \<notin> set (f_format_g F x)"
  shows "even (CountByte (quoteArg F v) CHR 0x27)"
  using assms even_literal
  by (cases v) (simp_all add: CountByte_absent quote_not_in_show_int quote_not_in_format_micros)

lemma even_render_args:
  assumes "\<And>x. CHR 0x27 \<notin> set (f_format_g F x)"
  shows "even (CountByte (render_args (quoteArg F) args ts) CHR 0x27) =
    even (CountByte (concat (map mtok_text ts)) CHR 0x27)"
  using even_quoteArg [OF assms]
  by (induction "quoteArg F" args ts rule: render_args.induct) auto

section \<open>Properties\<close>


text \<open>The count is too large when a question mark stands inside a literal.\<close>

lemma prepare_counts_literals:
  "let q = ''SELECT '' @ [CHR 0x27, CHR ''?'', CHR 0x27] @ '', ?''
   in fst (HandleStmtPrepare q) = 2 \<and> placeholders (mtoks None q) = 1"
  by code_simp



text \<open>A back tick inside a MySQL string in double quotes is not protected, nor are back ticks
  that follow a single quote inside one.\<close>

lemma double_quotes_not_protected:
  "backticksToQuotes ([CHR 0x22] @ ''a'' @ [CHR 0x60] @ ''b'' @ [CHR 0x22]) =
      [CHR 0x22] @ ''a'' @ [CHR 0x22] @ ''b'' @ [CHR 0x22] \<and>
    backticksToQuotes ([CHR 0x22, CHR 0x27, CHR 0x22] @ '', '' @ [CHR 0x60, CHR ''c'', CHR 0x60]) =
      [CHR 0x22, CHR 0x27, CHR 0x22] @ '', '' @ [CHR 0x60, CHR ''c'', CHR 0x60]"
  by code_simp

text \<open>What a statement does, as far as its warnings are concerned: nothing (blank, SHOW
  WARNINGS, or an error), or a result that was executed.\<close>

definition executed :: "'w env \<Rightarrow> 'w my_handler \<Rightarrow> string \<Rightarrow> query_result option" where
  "executed X h query =
     (let q = TrimSpace (backticksToQuotes query)
      in if q = [] \<or> isShowWarnings q then None
         else (case Run X (h_eng h) (backticksToQuotes query) of
                 (e, res, Some err) \<Rightarrow> None
               | (e, res, None) \<Rightarrow> res))"

definition encodes :: "float_lib \<Rightarrow> 'rs my_lib \<Rightarrow> query_result \<Rightarrow> bool \<Rightarrow> bool" where
  "encodes F L r binary \<longleftrightarrow>
     isl ((if binary then l_binary L else l_text L) (map c_name (q_cols r)) (map (map (coerce F)) (q_rows r))) = False"

lemma row_answer_warnings:
  "h_warnings (fst (row_answer F L h r binary)) =
    (if encodes F L r binary then (if Empty (my_report r) then h_warnings h else Warnings (my_report r))
     else h_warnings h)"
  by (auto simp: row_answer_def encodes_def Let_def split: sum.split)

lemma row_answer_no_panic: "snd (row_answer F L h r binary) \<noteq> Panicked"
  by (auto simp: row_answer_def Let_def split: sum.split)

lemma Empty_Warnings: "Empty rep \<Longrightarrow> Warnings rep = []"
  by (simp add: Warnings_def)


fun encodable :: "value \<Rightarrow> bool" where
  "encodable (VBool _) = False"
| "encodable (VBigInt _) = False"
| "encodable (VOther _) = False"
| "encodable v = True"

lemma coerce_encodable: "encodable (coerce F v)"
  by (cases v) auto

lemma coerce_int:
  "int_of_value v = Some i \<Longrightarrow> int_of_value (coerce F v) = Some i \<or> coerce F v = VString (show_int i)"
  by (elim int_of_value_SomeE) auto


definition demo_lib :: "value list list my_lib" where
  "demo_lib =
     \<lparr>l_autocommit = 2, l_text = (\<lambda>ns vs. Inr vs), l_binary = (\<lambda>ns vs. Inr vs),
      l_result = (\<lambda>rs. \<lparr>mr_status = 0, mr_warnings = 0, mr_affected = 0, mr_set = Some rs\<rparr>)\<rparr>"


end
