(* ===== verification/ClickHouse.thy ===== *)
theory ClickHouse
  imports PgEncode
begin

text \<open>
  The ClickHouse front end: the columns of a result (internal/clickhouse/columns.go), the
  fidelity report (fidelity.go) and the native-protocol connection (handler.go). The ch-go
  library decodes packets and encodes columns and blocks; it is the record \<open>ch_lib\<close>, whose
  reader has a state of its own. What a connection sends is recorded as a list of writes,
  each a list of the items put into one buffer.
\<close>

section \<open>Columns\<close>

text \<open>The native columns the front end fills; \<open>ColNum\<close> are the numeric columns of a log
  packet, whose widths are the library's.\<close>

datatype col =
    ColInt32 "32 word list" | ColInt64 "64 word list" | ColFloat64 "f64 list"
  | ColUInt8 "8 word list" | ColDateTime "gtime list" | ColStr "string list" | ColNum "nat list"

definition ch_baseType :: "string \<Rightarrow> string" where
  "ch_baseType t = (let u = ToUpper t in cut_at (IndexByte u CHR ''('') u)"

text \<open>The conversions are copies of those of the Postgres front end.\<close>

fun ch_toInt :: "float_lib \<Rightarrow> value \<Rightarrow> 64 word" where
  "ch_toInt F (VInt64 x) = x"
| "ch_toInt F (VInt32 x) = scast x"
| "ch_toInt F (VInt16 x) = scast x"
| "ch_toInt F (VInt x) = x"
| "ch_toInt F (VUint64 x) = x"
| "ch_toInt F (VUint32 x) = ucast x"
| "ch_toInt F (VFloat64 x) = f_to_int64 F x"
| "ch_toInt F (VBool x) = (if x then 1 else 0)"
| "ch_toInt F v = fst (ParseInt64 (TrimSpace (Sprint F v)))"

fun ch_toFloat :: "float_lib \<Rightarrow> value \<Rightarrow> f64" where
  "ch_toFloat F (VFloat64 x) = x"
| "ch_toFloat F (VFloat32 x) = f_of_f32 F x"
| "ch_toFloat F (VInt64 x) = f_of_int F (sint x)"
| "ch_toFloat F (VInt32 x) = f_of_int F (sint x)"
| "ch_toFloat F v = f_parse F (TrimSpace (Sprint F v))"

fun ch_toBool :: "float_lib \<Rightarrow> value \<Rightarrow> bool" where
  "ch_toBool F (VBool x) = x"
| "ch_toBool F (VString x) = (x = ''true'' \<or> x = ''t'' \<or> x = ''1'')"
| "ch_toBool F v = (ch_toInt F v \<noteq> 0)"

fun ch_toTime :: "float_lib \<Rightarrow> value \<Rightarrow> gtime" where
  "ch_toTime F (VTime x) = x"
| "ch_toTime F (VString x) =
     first_parse F [''2006-01-02 15:04:05.999999'', ''2006-01-02 15:04:05'', ''2006-01-02''] x"
| "ch_toTime F v = zero_time"

fun toStr :: "float_lib \<Rightarrow> value \<Rightarrow> string" where
  "toStr F (VString x) = x"
| "toStr F (VBytes x) = x"
| "toStr F (VTime x) = format_seconds x"
| "toStr F VNil = []"
| "toStr F v = Sprint F v"

text \<open>A builder is its column, empty at first; which values it appends follows from its type.\<close>

definition newColBuilder :: "string \<Rightarrow> col" where
  "newColBuilder duckType =
     (let base = ch_baseType duckType
      in if base \<in> set [''TINYINT'', ''SMALLINT'', ''INTEGER'', ''INT'', ''INT2'', ''INT4'',
                        ''UTINYINT'', ''USMALLINT'', ''UINTEGER''] then ColInt32 []
         else if base \<in> set [''BIGINT'', ''INT8'', ''HUGEINT'', ''UBIGINT'', ''UHUGEINT''] then ColInt64 []
         else if base \<in> set [''REAL'', ''FLOAT'', ''FLOAT4'', ''DOUBLE'', ''FLOAT8'', ''DECIMAL'', ''NUMERIC'']
           then ColFloat64 []
         else if base \<in> set [''BOOLEAN'', ''BOOL''] then ColUInt8 []
         else if base \<in> set [''TIMESTAMP'', ''DATETIME''] then ColDateTime []
         else ColStr [])"

fun col_add :: "float_lib \<Rightarrow> col \<Rightarrow> value \<Rightarrow> col" where
  "col_add F (ColInt32 xs) v = ColInt32 (xs @ [ucast (ch_toInt F v)])"
| "col_add F (ColInt64 xs) v = ColInt64 (xs @ [ch_toInt F v])"
| "col_add F (ColFloat64 xs) v = ColFloat64 (xs @ [ch_toFloat F v])"
| "col_add F (ColUInt8 xs) v = ColUInt8 (xs @ [if ch_toBool F v then 1 else 0])"
| "col_add F (ColDateTime xs) v = ColDateTime (xs @ [ch_toTime F v])"
| "col_add F (ColStr xs) v = ColStr (xs @ [toStr F v])"
| "col_add F (ColNum xs) v = ColNum xs"

text \<open>One row appended to the builders; a value without a builder is an index out of range.\<close>

fun add_row :: "float_lib \<Rightarrow> col list \<Rightarrow> value list \<Rightarrow> col list option" where
  "add_row F bs [] = Some bs"
| "add_row F [] (v # vs) = None"
| "add_row F (b # bs) (v # vs) = map_option (\<lambda>rest. col_add F b v # rest) (add_row F bs vs)"

fun add_rows :: "float_lib \<Rightarrow> col list \<Rightarrow> value list list \<Rightarrow> col list option" where
  "add_rows F bs [] = Some bs"
| "add_rows F bs (row # rws) =
     (case add_row F bs row of None \<Rightarrow> None | Some bs' \<Rightarrow> add_rows F bs' rws)"

record input_column =
  ic_name :: string
  ic_data :: col

definition buildInput :: "float_lib \<Rightarrow> query_result \<Rightarrow> bool \<Rightarrow> input_column list option" where
  "buildInput F res withRows =
     (let builders = map (\<lambda>c. newColBuilder (c_type c)) (q_cols res)
      in case (if withRows then add_rows F builders (q_rows res) else Some builders) of
           None \<Rightarrow> None
         | Some bs \<Rightarrow> Some (map2 (\<lambda>c b. \<lparr>ic_name = c_name c, ic_data = b\<rparr>) (q_cols res) bs))"

section \<open>The fidelity report\<close>

definition outsideDateTimeRange :: "value \<Rightarrow> bool" where
  "outsideDateTimeRange v =
     (case v of VTime t \<Rightarrow> (let secs = t_Unix t in secs < 0 \<or> secs > 4294967295) | _ \<Rightarrow> False)"

definition ch_type_note :: "string \<Rightarrow> string option" where
  "ch_type_note base =
     (if base \<in> set [''DECIMAL'', ''NUMERIC'']
        then Some ''DECIMAL shown as Float64; precision may be lost''
      else if base \<in> set [''BOOLEAN'', ''BOOL''] then Some ''BOOLEAN shown as UInt8''
      else if base \<in> set [''UTINYINT'', ''USMALLINT'', ''UINTEGER'', ''UBIGINT'', ''UHUGEINT'']
        then Some ''unsigned integer shown as signed''
      else if base \<in> set [''DATE'', ''TIME'', ''INTERVAL'', ''UUID'', ''BLOB'', ''BIT'']
        then Some (base @ '' shown as text'')
      else None)"

definition null_note :: string where
  "null_note = ''NULL rendered as zero value (column is not Nullable)''"

definition truncated_note :: string where
  "truncated_note = ''value exceeds int64 and is truncated''"

definition range_note :: string where
  "range_note = ''timestamp outside DateTime range (1970-2106)''"

text \<open>The note on one cell of a column of the given base type.\<close>

definition ch_cell_note :: "float_lib \<Rightarrow> string \<Rightarrow> value \<Rightarrow> string option" where
  "ch_cell_note F base v =
     (let wideInt = base \<in> set [''HUGEINT'', ''UHUGEINT'', ''UBIGINT''];
          isTimestamp = base \<in> set [''TIMESTAMP'', ''DATETIME'']
      in if v = VNil then Some null_note
         else if wideInt \<and> ExceedsInt64 F v then Some truncated_note
         else if isTimestamp \<and> outsideDateTimeRange v then Some range_note
         else None)"

definition add_note :: "report_ptr \<Rightarrow> column \<Rightarrow> string option \<Rightarrow> report_ptr" where
  "add_note r c n = (case n of Some s \<Rightarrow> Add r (c_name c) s | None \<Rightarrow> r)"

definition ch_column_report ::
  "float_lib \<Rightarrow> value list list \<Rightarrow> report_ptr \<Rightarrow> nat \<times> column \<Rightarrow> report_ptr" where
  "ch_column_report F rows r p =
     (let (ci, c) = p; base = ch_baseType (c_type c)
      in foldl (\<lambda>r row. if ci \<ge> length row then r else add_note r c (ch_cell_note F base (row ! ci)))
           (add_note r c (ch_type_note base)) rows)"

definition ch_report :: "float_lib \<Rightarrow> query_result \<Rightarrow> report_ptr" where
  "ch_report F res = foldl (ch_column_report F (q_rows res)) New (enumerate 0 (q_cols res))"

section \<open>The copies agree\<close>

lemma ch_baseType_eq [simp]: "ch_baseType = base_type"
  by (simp add: fun_eq_iff ch_baseType_def base_type_def)

lemma ch_toInt_eq [simp]: "ch_toInt = toInt"
proof (intro ext)
  show "ch_toInt F v = toInt F v" for F v by (cases v) simp_all
qed

lemma ch_conversions_eq:
  "ch_toFloat F v = toFloat F v" "ch_toBool F v = toBool F v" "ch_toTime F v = toTime F v"
  by (cases v; simp)+

section \<open>Blocks\<close>

fun col_len :: "col \<Rightarrow> nat" where
  "col_len (ColInt32 xs) = length xs" | "col_len (ColInt64 xs) = length xs"
| "col_len (ColFloat64 xs) = length xs" | "col_len (ColUInt8 xs) = length xs"
| "col_len (ColDateTime xs) = length xs" | "col_len (ColStr xs) = length xs"
| "col_len (ColNum xs) = length xs"

text \<open>The column without its values, which is what a header block announces.\<close>

fun col_type :: "col \<Rightarrow> col" where
  "col_type (ColInt32 xs) = ColInt32 []" | "col_type (ColInt64 xs) = ColInt64 []"
| "col_type (ColFloat64 xs) = ColFloat64 []" | "col_type (ColUInt8 xs) = ColUInt8 []"
| "col_type (ColDateTime xs) = ColDateTime []" | "col_type (ColStr xs) = ColStr []"
| "col_type (ColNum xs) = ColNum []"

definition not_num :: "col \<Rightarrow> bool" where
  "not_num b \<longleftrightarrow> (case b of ColNum _ \<Rightarrow> False | _ \<Rightarrow> True)"

text \<open>The values of one column, appended one after the other.\<close>

definition col_adds :: "float_lib \<Rightarrow> col \<Rightarrow> value list \<Rightarrow> col" where
  "col_adds F b vs = foldl (col_add F) b vs"

lemma col_add_shape:
  "not_num b \<Longrightarrow> col_len (col_add F b v) = Suc (col_len b) \<and> not_num (col_add F b v)"
  "col_type (col_add F b v) = col_type b"
  by (cases b; simp add: not_num_def)+

lemma col_adds_shape:
  "not_num b \<Longrightarrow> col_len (col_adds F b vs) = col_len b + length vs \<and> not_num (col_adds F b vs)"
  "col_type (col_adds F b vs) = col_type b"
  unfolding col_adds_def
  by (induction vs arbitrary: b) (auto simp: col_add_shape)

lemma add_row_rect:
  "length row = length bs \<Longrightarrow> add_row F bs row = Some (map2 (col_add F) bs row)"
  by (induction F bs row rule: add_row.induct) auto

text \<open>Appending row by row fills each column with its own values, top to bottom.\<close>

lemma add_rows_rect:
  "\<forall>row \<in> set rws. length row = length bs \<Longrightarrow>
    add_rows F bs rws = Some (map (\<lambda>i. col_adds F (bs ! i) (map (\<lambda>row. row ! i) rws)) [0..<length bs])"
proof (induction rws arbitrary: bs)
  case Nil
  show ?case by (simp add: col_adds_def map_nth)
next
  case (Cons row rws)
  let ?bs' = "map2 (col_add F) bs row"
  have "add_rows F bs (row # rws) = add_rows F ?bs' rws"
    using Cons.prems by (simp add: add_row_rect)
  also have "\<dots> = Some (map (\<lambda>i. col_adds F (?bs' ! i) (map (\<lambda>row. row ! i) rws)) [0..<length ?bs'])"
    using Cons.prems by (intro Cons.IH) auto
  also have "\<dots> = Some (map (\<lambda>i. col_adds F (bs ! i) (map (\<lambda>row. row ! i) (row # rws))) [0..<length bs])"
    using Cons.prems by (auto simp: col_adds_def)
  finally show ?case .
qed

lemma not_num_new [simp]: "not_num (newColBuilder t)"
  by (auto simp: newColBuilder_def not_num_def Let_def)

lemma new_empty [simp]: "col_len (newColBuilder t) = 0" "col_type (newColBuilder t) = newColBuilder t"
  by (auto simp: newColBuilder_def Let_def)

lemma buildInput_rows:
  assumes "rect res"
  shows "buildInput F res True = Some
    (map (\<lambda>i. \<lparr>ic_name = c_name (q_cols res ! i),
               ic_data = col_adds F (newColBuilder (c_type (q_cols res ! i))) (map (\<lambda>row. row ! i) (q_rows res))\<rparr>)
      [0..<length (q_cols res)])"
proof -
  have "\<forall>row \<in> set (q_rows res). length row = length (map (\<lambda>c. newColBuilder (c_type c)) (q_cols res))"
    using assms by (simp add: rect_def)
  from add_rows_rect [OF this, of F] show ?thesis
    by (auto simp: buildInput_def Let_def intro!: nth_equalityI)
qed

lemma buildInput_header:
  "buildInput F res False = Some
    (map (\<lambda>c. \<lparr>ic_name = c_name c, ic_data = newColBuilder (c_type c)\<rparr>) (q_cols res))"
  by (simp add: buildInput_def Let_def zip_map2 zip_same_conv_map comp_def)

lemma blocks_built:
  assumes "rect res"
  shows "\<exists>hdr data. buildInput F res False = Some hdr \<and> buildInput F res True = Some data \<and>
    map ic_name hdr = map c_name (q_cols res) \<and> map ic_name data = map c_name (q_cols res) \<and>
    map (\<lambda>c. col_type (ic_data c)) data = map ic_data hdr \<and>
    (\<forall>c \<in> set hdr. col_len (ic_data c) = 0) \<and>
    (\<forall>c \<in> set data. col_len (ic_data c) = length (q_rows res))"
  unfolding buildInput_rows [OF assms] buildInput_header
  by (auto simp: col_adds_shape intro!: nth_equalityI)

section \<open>The additions of a report\<close>

definition opt_list :: "'a option \<Rightarrow> 'a list" where
  "opt_list n = (case n of None \<Rightarrow> [] | Some s \<Rightarrow> [s])"

lemma set_opt_list [simp]: "x \<in> set (opt_list n) \<longleftrightarrow> n = Some x"
  by (auto simp: opt_list_def split: option.split)

definition ch_column_additions ::
  "float_lib \<Rightarrow> value list list \<Rightarrow> nat \<times> column \<Rightarrow> (string \<times> string) list" where
  "ch_column_additions F rows p =
     (let (ci, c) = p; base = base_type (c_type c);
          notes = ch_type_note base # map (\<lambda>row. if ci \<ge> length row then None else ch_cell_note F base (row ! ci)) rows
      in map (Pair (c_name c)) (concat (map opt_list notes)))"

definition ch_additions :: "float_lib \<Rightarrow> query_result \<Rightarrow> (string \<times> string) list" where
  "ch_additions F res =
     concat (map (ch_column_additions F (q_rows res)) (enumerate 0 (q_cols res)))"

lemma add_note_add_all: "add_note r c n = add_all r (map (Pair (c_name c)) (opt_list n))"
  by (cases n) (simp_all add: add_note_def opt_list_def)

lemma ch_column_report_additions:
  "ch_column_report F rows r p = add_all r (ch_column_additions F rows p)"
proof -
  obtain ci c where p: "p = (ci, c)" by force
  let ?cell = "\<lambda>row. if ci \<ge> length row then None else ch_cell_note F (base_type (c_type c)) (row ! ci)"
  have "foldl (\<lambda>r row. if ci \<ge> length row then r else add_note r c (ch_cell_note F (base_type (c_type c)) (row ! ci))) r1 rows =
      add_all r1 (map (Pair (c_name c)) (concat (map opt_list (map ?cell rows))))" for r1
    by (induction rows arbitrary: r1) (simp_all add: add_note_add_all opt_list_def)
  then show ?thesis
    by (simp add: ch_column_report_def ch_column_additions_def p Let_def add_note_add_all)
qed

lemma nul_free_ch_notes:
  "ch_type_note base = Some s \<Longrightarrow> nul_free s" "ch_cell_note F base v = Some s \<Longrightarrow> nul_free s"
proof -
  have "nul_free ''DECIMAL shown as Float64; precision may be lost''" "nul_free ''BOOLEAN shown as UInt8''"
    and "nul_free ''unsigned integer shown as signed''"
    and "\<forall>b \<in> set [''DATE'', ''TIME'', ''INTERVAL'', ''UUID'', ''BLOB'', ''BIT'']. nul_free (b @ '' shown as text'')"
    by code_simp+
  then show "ch_type_note base = Some s \<Longrightarrow> nul_free s"
    unfolding ch_type_note_def by (auto simp only: option.inject option.distinct split: if_splits)
  have "nul_free null_note" "nul_free truncated_note" "nul_free range_note"
    by code_simp+
  then show "ch_cell_note F base v = Some s \<Longrightarrow> nul_free s"
    unfolding ch_cell_note_def Let_def by (auto simp only: option.inject option.distinct split: if_splits)
qed

lemma ch_column_additions_mem:
  "(c', s) \<in> set (ch_column_additions F rows (ci, c)) \<Longrightarrow> c' = c_name c \<and> nul_free s"
  using nul_free_ch_notes
  by (auto simp: ch_column_additions_def Let_def split: if_splits)

interpretation ch_fidelity: fidelity_source "ch_report F" "ch_additions F"
proof
  show "ch_report F res = add_all New (ch_additions F res)" for res
    unfolding ch_report_def ch_additions_def
    by (rule foldl_add_all) (rule ch_column_report_additions)
next
  fix c s res
  assume "(c, s) \<in> set (ch_additions F res)"
  then obtain ci col where "(ci, col) \<in> set (enumerate 0 (q_cols res))"
    and "(c, s) \<in> set (ch_column_additions F (q_rows res) (ci, col))"
    by (auto simp: ch_additions_def)
  then show "nul_free s" and "c \<in> c_name ` set (q_cols res)"
    using ch_column_additions_mem [of c s F "q_rows res" ci col]
    by (auto simp: in_set_enumerate_eq)
qed

section \<open>Integers in the columns\<close>

fun col_int :: "col \<Rightarrow> nat \<Rightarrow> int option" where
  "col_int (ColInt32 xs) k = (if k < length xs then Some (sint (xs ! k)) else None)"
| "col_int (ColInt64 xs) k = (if k < length xs then Some (sint (xs ! k)) else None)"
| "col_int _ k = None"

lemma col_adds_ints:
  "col_adds F (ColInt32 xs) vs = ColInt32 (xs @ map (\<lambda>v. ucast (toInt F v)) vs)"
  "col_adds F (ColInt64 ys) vs = ColInt64 (ys @ map (toInt F) vs)"
  unfolding col_adds_def by (induction vs arbitrary: xs ys) simp_all

text \<open>The Go types of the columns wider than \<open>driver_kind\<close> covers.\<close>

definition wide_kind :: "string \<Rightarrow> value \<Rightarrow> bool" where
  "wide_kind t v \<longleftrightarrow>
     (case v of
        VBigInt i \<Rightarrow> base_type t \<in> {''HUGEINT'', ''UHUGEINT''}
      | VUint64 w \<Rightarrow> base_type t = ''UBIGINT''
      | _ \<Rightarrow> False)"

lemma driver_kind_cases:
  assumes "driver_kind t v"
  obtains (unsigned) "base_type t \<in> {''UTINYINT'', ''USMALLINT'', ''UINTEGER''}"
  | (small) i where "base_type t \<in> {''TINYINT'', ''SMALLINT'', ''INT2'', ''INTEGER'', ''INT'', ''INT4''}"
      and "int_of_value v = Some i" and "fits_signed 4 i"
  | (big) i where "base_type t \<in> {''BIGINT'', ''INT8''}"
      and "int_of_value v = Some i" and "fits_signed 8 i"
  using assms by (cases "(t, v)" rule: driver_kind.cases) (auto simp: fits_sint)

text \<open>The column of an integer type at a row, when the integer fits.\<close>

lemma small_column_exact:
  assumes "base_type t \<in> {''TINYINT'', ''SMALLINT'', ''INT2'', ''INTEGER'', ''INT'', ''INT4''}"
    and "k < length vs" and "int_of_value (vs ! k) = Some i" and "fits_signed 4 i"
  shows "col_int (col_adds F (newColBuilder t) vs) k = Some i"
proof -
  have "newColBuilder t = ColInt32 []"
    using assms(1) by (auto simp: newColBuilder_def)
  moreover have "sint (toInt F (vs ! k)) = i"
    using assms(3,4) by (rule toInt_exact) simp
  then have "sint (ucast (toInt F (vs ! k)) :: 32 word) = i"
    using sint_ucast_fits [where 'b = 32, of "toInt F (vs ! k)"] assms(4) by (simp add: fits_signed_def)
  ultimately show ?thesis using assms(2) by (simp add: col_adds_ints)
qed

lemma big_column_exact:
  assumes "base_type t \<in> {''BIGINT'', ''INT8'', ''HUGEINT''}"
    and "k < length vs" and "int_of_value (vs ! k) = Some i" and "fits_signed 8 i"
  shows "col_int (col_adds F (newColBuilder t) vs) k = Some i"
proof -
  have "newColBuilder t = ColInt64 []"
    using assms(1) by (auto simp: newColBuilder_def)
  moreover have "sint (toInt F (vs ! k)) = i"
    using assms(3,4) by (rule toInt_exact) simp
  ultimately show ?thesis using assms(2) by (simp add: col_adds_ints)
qed

lemma ch_addition:
  assumes "ci < length (q_cols res)"
    and "(c_name (q_cols res ! ci), s) \<in> set (ch_column_additions F (q_rows res) (ci, q_cols res ! ci))"
  shows "\<exists>n>0. warning_line (c_name (q_cols res ! ci)) s n \<in> set (Warnings (ch_report F res))"
proof -
  have "(ci, q_cols res ! ci) \<in> set (enumerate 0 (q_cols res))"
    using assms(1) by (simp add: in_set_enumerate_eq)
  with assms(2) have mem: "(c_name (q_cols res ! ci), s) \<in> set (ch_additions F res)"
    unfolding ch_additions_def by force
  then have "0 < count_list (ch_additions F res) (c_name (q_cols res ! ci), s)"
    using count_list_0_iff [of "ch_additions F res"] by fastforce
  with ch_fidelity.addition_warned [OF mem] show ?thesis by blast
qed

lemma type_note_added:
  "ch_type_note (base_type (c_type c)) = Some s \<Longrightarrow>
    (c_name c, s) \<in> set (ch_column_additions F rows (ci, c))"
  by (auto simp: ch_column_additions_def Let_def)

lemma cell_note_added:
  "row \<in> set rows \<Longrightarrow> ci < length row \<Longrightarrow> ch_cell_note F (base_type (c_type c)) (row ! ci) = Some s \<Longrightarrow>
    (c_name c, s) \<in> set (ch_column_additions F rows (ci, c))"
  by (force simp: ch_column_additions_def Let_def)

lemma unsigned_note:
  "base \<in> {''UTINYINT'', ''USMALLINT'', ''UINTEGER'', ''UBIGINT'', ''UHUGEINT''} \<Longrightarrow>
    ch_type_note base = Some ''unsigned integer shown as signed''"
  by (auto simp: ch_type_note_def)

text \<open>A cell that arrives as another integer has a note: its column is unsigned, or the number
  does not fit 64 bits.\<close>

lemma changed_cell_noted:
  assumes kind: "driver_kind t (vs ! k) \<or> wide_kind t (vs ! k)" and k: "k < length vs"
    and changed: "col_int (col_adds F (newColBuilder t) vs) k \<noteq> int_of_value (vs ! k)"
  shows "ch_type_note (base_type t) = Some ''unsigned integer shown as signed'' \<or>
    ch_cell_note F (base_type t) (vs ! k) = Some truncated_note"
proof (cases "base_type t \<in> {''UTINYINT'', ''USMALLINT'', ''UINTEGER'', ''UBIGINT'', ''UHUGEINT''}")
  case True
  then show ?thesis by (simp add: unsigned_note)
next
  case signed: False
  from kind show ?thesis
  proof
    assume "driver_kind t (vs ! k)"
    then show ?thesis
    proof (cases rule: driver_kind_cases)
      case unsigned
      with signed show ?thesis by auto
    next
      case (small i)
      with changed k show ?thesis using small_column_exact [of t k vs i F] by simp
    next
      case (big i)
      with changed k show ?thesis using big_column_exact [of t k vs i F] by auto
    qed
  next
    assume "wide_kind t (vs ! k)"
    with signed obtain i where i: "vs ! k = VBigInt i" and t: "base_type t = ''HUGEINT''"
      by (cases "vs ! k") (auto simp: wide_kind_def)
    with changed k have "\<not> in_int64 i"
      using big_column_exact [of t k vs i F] by (auto simp: fits_signed_8)
    with i t show ?thesis
      by (simp add: ch_cell_note_def Let_def ExceedsInt64_def)
  qed
qed

section \<open>Properties of the columns\<close>

text \<open>C31. The two blocks of an answer agree with each other and with their announced sizes, so
  encoding them cannot fail: the header block has a column of the same name and native type
  for every column of the data block, with no values, and every data column has exactly one
  value per row. No builder is ever indexed out of range.\<close>

theorem blocks_agree:
  assumes "rect res"
  shows "\<exists>hdr data. buildInput F res False = Some hdr \<and> buildInput F res True = Some data \<and>
    map ic_name hdr = map c_name (q_cols res) \<and> map ic_name data = map c_name (q_cols res) \<and>
    map (\<lambda>c. col_type (ic_data c)) data = map ic_data hdr \<and>
    (\<forall>c \<in> set hdr. col_len (ic_data c) = 0) \<and>
    (\<forall>c \<in> set data. col_len (ic_data c) = length (q_rows res))"
  using assms by (rule blocks_built)

lemma blocks_agree_witness:
  "let res = \<lparr>q_cols = [\<lparr>c_name = ''n'', c_type = ''INTEGER''\<rparr>], q_rows = [[VInt32 7], [VNil]]\<rparr>
   in \<exists>data. buildInput demo_floats res True = Some data \<and> (\<forall>c \<in> set data. col_len (ic_data c) = 2)"
proof -
  let ?res = "\<lparr>q_cols = [\<lparr>c_name = ''n'', c_type = ''INTEGER''\<rparr>], q_rows = [[VInt32 7], [VNil]]\<rparr>"
  have "rect ?res" by (simp add: rect_def)
  from blocks_agree [OF this, of demo_floats] show ?thesis
    by (auto simp: Let_def numeral_2_eq_2)
qed

text \<open>C32. No integer changes silently and no NULL is invented silently: when a cell of an
  integer column does not arrive as the integer it holds (it wrapped in 32 or 64 bits, or
  saturated), or when a cell of any column is NULL and arrives as a zero value, the report
  has a warning for that column.\<close>

theorem no_silent_cell_change:
  assumes "rect res" and ci: "ci < length (q_cols res)" and k: "k < length (q_rows res)"
    and "buildInput F res True = Some data"
    and "q_rows res ! k ! ci = VNil \<or>
      (driver_kind (c_type (q_cols res ! ci)) (q_rows res ! k ! ci) \<or>
       wide_kind (c_type (q_cols res ! ci)) (q_rows res ! k ! ci)) \<and>
      col_int (ic_data (data ! ci)) k \<noteq> int_of_value (q_rows res ! k ! ci)"
  shows "\<exists>s. \<exists>n>0. warning_line (c_name (q_cols res ! ci)) s n \<in> set (Warnings (ch_report F res))"
proof -
  let ?c = "q_cols res ! ci" and ?v = "q_rows res ! k ! ci" and ?vs = "map (\<lambda>row. row ! ci) (q_rows res)"
  have data: "ic_data (data ! ci) = col_adds F (newColBuilder (c_type ?c)) ?vs"
    using buildInput_rows [OF assms(1), of F] assms(4) ci by auto
  have row: "q_rows res ! k \<in> set (q_rows res)" "ci < length (q_rows res ! k)"
    using assms(1) ci k by (auto simp: rect_def)
  have vs: "k < length ?vs" "?vs ! k = ?v"
    using k by simp_all
  note noted = ch_addition [OF ci cell_note_added [OF row]] ch_addition [OF ci type_note_added]
  show ?thesis
  proof (cases "?v = VNil")
    case True
    then have "ch_cell_note F (base_type (c_type ?c)) ?v = Some null_note"
      by (simp add: ch_cell_note_def Let_def)
    then show ?thesis using noted by blast
  next
    case False
    then have "ch_type_note (base_type (c_type ?c)) = Some ''unsigned integer shown as signed'' \<or>
        ch_cell_note F (base_type (c_type ?c)) ?v = Some truncated_note"
      using assms(5) changed_cell_noted [of "c_type ?c" ?vs k F] unfolding vs(2) data by (simp add: k)
    then show ?thesis using noted by blast
  qed
qed

lemma no_silent_cell_change_witness:
  "let res = \<lparr>q_cols = [\<lparr>c_name = ''n'', c_type = ''UINTEGER''\<rparr>], q_rows = [[VUint32 4294967295]]\<rparr>
   in \<exists>s. \<exists>n>0. warning_line ''n'' s n \<in> set (Warnings (ch_report demo_floats res))"
proof -
  let ?res = "\<lparr>q_cols = [\<lparr>c_name = ''n'', c_type = ''UINTEGER''\<rparr>], q_rows = [[VUint32 4294967295]]\<rparr>"
  have rect: "rect ?res" by (simp add: rect_def)
  have kind: "driver_kind ''UINTEGER'' (VUint32 4294967295)" and new: "newColBuilder ''UINTEGER'' = ColInt32 []"
    by code_simp+
  note built = buildInput_rows [OF rect, of demo_floats]
  show ?thesis
    using no_silent_cell_change [OF rect _ _ built, of 0 0] kind
    by (simp add: Let_def new col_adds_ints)
qed

end
