(* ===== verification/ClickHouseConn.thy ===== *)
theory ClickHouseConn
  imports ClickHouse
begin

text \<open>
  The native-protocol connection of the ClickHouse front end (internal/clickhouse/handler.go):
  handshake, packet loop, query handling, and what is written back. A loop that waits for
  packets returns only if the input ends or a packet ends it, so the loops are partial
  functions: \<open>None\<close> is not returning.
\<close>

section \<open>The library and the wire\<close>

datatype client_code = ClientHello | ClientQuery | ClientData | ClientCancel | ClientPing | ClientOther

datatype server_code =
  ServerData | ServerException | ServerPong | ServerEndOfStream | ServerLog

datatype feature = FeatureAddendum | FeatureTempTables | FeatureBlockInfo | FeatureServerLogs

record server_hello =
  sh_name :: string
  sh_major :: nat
  sh_minor :: nat
  sh_revision :: int
  sh_timezone :: string
  sh_display :: string
  sh_patch :: nat

text \<open>What is put into a buffer: \<open>EncodeBlock v n m cols\<close> is the library's encoding of a block
  of \<open>n\<close> columns and \<open>m\<close> rows at protocol revision \<open>v\<close>.\<close>

datatype item =
    PutByte server_code | PutString string | PutInt32 int | PutBool bool
  | EncodeBlock int nat nat "input_column list" | EncodeHello int server_hello

text \<open>
  The reader: each decoder returns a value or an error and the reader after it. The library
  also fixes the packet codes, the revision it implements and which revisions have which
  feature. \<open>k_write\<close> is the error of the next write on the socket, given the writes before
  it; \<open>k_now\<close> is the clock.
\<close>

record 'r ch_lib =
  k_uvarint :: "'r \<Rightarrow> 64 word result \<times> 'r"
  k_str :: "'r \<Rightarrow> string result \<times> 'r"
  k_hello :: "'r \<Rightarrow> int result \<times> 'r"
  k_query :: "int \<Rightarrow> 'r \<Rightarrow> (string \<times> string) result \<times> 'r"
  k_info :: "'r \<Rightarrow> unit result \<times> 'r"
  k_client :: "64 word \<Rightarrow> client_code"
  k_revision :: int
  k_feature :: "feature \<Rightarrow> int \<Rightarrow> bool"
  k_write :: "item list list \<Rightarrow> go_error"
  k_now :: gtime

record ('w, 'r) ch_session =
  c_reader :: 'r
  c_eng :: "'w engine"
  c_version :: int
  c_out :: "item list list"
  c_log :: "string list"

text \<open>A handler returns nil, an error, or panics (on a result that is missing or ragged); the
  packet loop returns on a packet it does not know.\<close>

datatype ch_outcome = Ok | Err string | ChClose | ChPanic

definition errUnexpected :: string where
  "errUnexpected = ''clickhouse: unexpected packet''"

section \<open>Reading\<close>

definition readClientBlock :: "'r ch_lib \<Rightarrow> int \<Rightarrow> 'r \<Rightarrow> bool result \<times> 'r" where
  "readClientBlock K version r =
     (case (if k_feature K FeatureTempTables version then k_str K r else (Inr [], r)) of
        (Inl err, r1) \<Rightarrow> (Inl err, r1)
      | (Inr name, r1) \<Rightarrow>
          (case (if k_feature K FeatureBlockInfo version then k_info K r1 else (Inr (), r1)) of
             (Inl err, r2) \<Rightarrow> (Inl err, r2)
           | (Inr info, r2) \<Rightarrow>
               (case k_uvarint K r2 of
                  (Inl err, r3) \<Rightarrow> (Inl err, r3)
                | (Inr cols, r3) \<Rightarrow>
                    (case k_uvarint K r3 of
                       (Inl err, r4) \<Rightarrow> (Inl err, r4)
                     | (Inr rws, r4) \<Rightarrow> (Inr (cols = 0), r4)))))"

partial_function (option) drainClientData ::
  "'r ch_lib \<Rightarrow> int \<Rightarrow> 'r \<Rightarrow> (go_error \<times> 'r) option" where
  "drainClientData K version r =
     (case k_uvarint K r of
        (Inl err, r1) \<Rightarrow> Some (Some err, r1)
      | (Inr code, r1) \<Rightarrow>
          (if k_client K code \<noteq> ClientData then Some (Some errUnexpected, r1)
           else (case readClientBlock K version r1 of
                   (Inl err, r2) \<Rightarrow> Some (Some err, r2)
                 | (Inr terminator, r2) \<Rightarrow>
                     if terminator then Some (None, r2) else drainClientData K version r2)))"

section \<open>Writing\<close>

definition ch_write :: "'r ch_lib \<Rightarrow> ('w, 'r) ch_session \<Rightarrow> item list \<Rightarrow> ('w, 'r) ch_session \<times> ch_outcome" where
  "ch_write K s items =
     (s\<lparr>c_out := c_out s @ [items]\<rparr>,
      case k_write K (c_out s) of None \<Rightarrow> Ok | Some err \<Rightarrow> Err err)"

definition writeBlockPacket ::
  "'r ch_lib \<Rightarrow> server_code \<Rightarrow> int \<Rightarrow> nat \<Rightarrow> nat \<Rightarrow> input_column list \<Rightarrow> item list" where
  "writeBlockPacket K code version ncols nrows cols =
     [PutByte code] @
     (if k_feature K FeatureTempTables version then [PutString []] else []) @
     [EncodeBlock version ncols nrows cols]"

definition writeLogPacket :: "'r ch_lib \<Rightarrow> int \<Rightarrow> string \<Rightarrow> gtime \<Rightarrow> string list \<Rightarrow> item list" where
  "writeLogPacket K version queryID now warnings =
     (let cols =
        [\<lparr>ic_name = ''event_time'', ic_data = ColDateTime (map (\<lambda>w. now) warnings)\<rparr>,
         \<lparr>ic_name = ''event_time_microseconds'', ic_data = ColNum (map (\<lambda>w. 0) warnings)\<rparr>,
         \<lparr>ic_name = ''host_name'', ic_data = ColStr (map (\<lambda>w. ''spoofdb'') warnings)\<rparr>,
         \<lparr>ic_name = ''query_id'', ic_data = ColStr (map (\<lambda>w. queryID) warnings)\<rparr>,
         \<lparr>ic_name = ''thread_id'', ic_data = ColNum (map (\<lambda>w. 0) warnings)\<rparr>,
         \<lparr>ic_name = ''priority'', ic_data = ColNum (map (\<lambda>w. 4) warnings)\<rparr>,
         \<lparr>ic_name = ''source'', ic_data = ColStr (map (\<lambda>w. ''spoofdb'') warnings)\<rparr>,
         \<lparr>ic_name = ''text'', ic_data = ColStr (map (\<lambda>w. ''spoofdb: '' @ w) warnings)\<rparr>]
      in writeBlockPacket K ServerLog version (length cols) (length warnings) cols)"

definition result_items ::
  "'r ch_lib \<Rightarrow> float_lib \<Rightarrow> int \<Rightarrow> query_result \<Rightarrow> string \<Rightarrow> report_ptr \<Rightarrow> item list option" where
  "result_items K F version res queryID rep =
     (case (buildInput F res False,
            if q_rows res \<noteq> [] then buildInput F res True else Some []) of
        (Some hdr, Some data) \<Rightarrow>
          Some (writeBlockPacket K ServerData version (length (q_cols res)) 0 hdr @
                (if q_rows res \<noteq> []
                 then writeBlockPacket K ServerData version (length (q_cols res)) (length (q_rows res)) data
                 else []) @
                (if \<not> Empty rep \<and> k_feature K FeatureServerLogs version
                 then writeLogPacket K version queryID (k_now K) (Warnings rep) else []) @
                [PutByte ServerEndOfStream])
      | _ \<Rightarrow> None)"

definition sendResult ::
  "'w env \<Rightarrow> 'r ch_lib \<Rightarrow> ('w, 'r) ch_session \<Rightarrow> query_result \<Rightarrow> string \<Rightarrow> report_ptr \<Rightarrow>
    ('w, 'r) ch_session \<times> ch_outcome" where
  "sendResult X K s res queryID rep =
     (case result_items K (x_floats X) (c_version s) res queryID rep of
        None \<Rightarrow> (s, ChPanic)
      | Some items \<Rightarrow> ch_write K s items)"

definition exception_items :: "string \<Rightarrow> item list" where
  "exception_items msg =
     [PutByte ServerException, PutInt32 1, PutString ''DB::Exception'', PutString msg,
      PutString [], PutBool False]"

definition sendException :: "'r ch_lib \<Rightarrow> ('w, 'r) ch_session \<Rightarrow> string \<Rightarrow> ('w, 'r) ch_session \<times> ch_outcome" where
  "sendException K s msg = ch_write K s (exception_items msg)"

section \<open>The connection\<close>

definition handshake :: "'r ch_lib \<Rightarrow> ('w, 'r) ch_session \<Rightarrow> ('w, 'r) ch_session \<times> ch_outcome" where
  "handshake K s =
     (case k_uvarint K (c_reader s) of
        (Inl err, r1) \<Rightarrow> (s\<lparr>c_reader := r1\<rparr>, Err err)
      | (Inr code, r1) \<Rightarrow>
          (if k_client K code \<noteq> ClientHello then (s\<lparr>c_reader := r1\<rparr>, Err errUnexpected)
           else
             (case k_hello K r1 of
                (Inl err, r2) \<Rightarrow> (s\<lparr>c_reader := r2\<rparr>, Err err)
              | (Inr pv, r2) \<Rightarrow>
                  (let v = (if pv = 0 \<or> pv > k_revision K then k_revision K else pv);
                       server = \<lparr>sh_name = ''spoofdb'', sh_major = 23, sh_minor = 8,
                                 sh_revision = k_revision K, sh_timezone = ''UTC'',
                                 sh_display = ''spoofdb'', sh_patch = 0\<rparr>
                   in case ch_write K (s\<lparr>c_reader := r2, c_version := v\<rparr>) [EncodeHello v server] of
                        (s1, Ok) \<Rightarrow>
                          (if k_feature K FeatureAddendum v then
                             (case k_str K (c_reader s1) of
                                (Inl err, r3) \<Rightarrow> (s1\<lparr>c_reader := r3\<rparr>, Err err)
                              | (Inr quota, r3) \<Rightarrow> (s1\<lparr>c_reader := r3\<rparr>, Ok))
                           else (s1, Ok))
                      | (s1, out) \<Rightarrow> (s1, out)))))"

text \<open>The second half of \<open>handleQuery\<close>: run the query and answer it.\<close>

definition answer_query ::
  "'w env \<Rightarrow> 'r ch_lib \<Rightarrow> ('w, 'r) ch_session \<Rightarrow> string \<Rightarrow> string \<Rightarrow> ('w, 'r) ch_session \<times> ch_outcome" where
  "answer_query X K s queryID body =
     (case Run X (c_eng s) body of
        (e, res, Some err) \<Rightarrow> sendException K (s\<lparr>c_eng := e\<rparr>) err
      | (e, None, None) \<Rightarrow> (s\<lparr>c_eng := e\<rparr>, ChPanic)
      | (e, Some r, None) \<Rightarrow>
          (let rep = ch_report (x_floats X) r;
               s1 = s\<lparr>c_eng := e, c_log := c_log s @
                        (if \<not> Empty rep then [''clickhouse: '' @ Summary rep] else [])\<rparr>
           in sendResult X K s1 r queryID rep))"

definition handleQuery ::
  "'w env \<Rightarrow> 'r ch_lib \<Rightarrow> ('w, 'r) ch_session \<Rightarrow> (('w, 'r) ch_session \<times> ch_outcome) option" where
  "handleQuery X K s =
     (case k_query K (c_version s) (c_reader s) of
        (Inl err, r1) \<Rightarrow> Some (s\<lparr>c_reader := r1\<rparr>, Err err)
      | (Inr (queryID, body), r1) \<Rightarrow>
          (case drainClientData K (c_version s) r1 of
             None \<Rightarrow> None
           | Some (Some err, r2) \<Rightarrow> Some (s\<lparr>c_reader := r2\<rparr>, Err err)
           | Some (None, r2) \<Rightarrow> Some (answer_query X K (s\<lparr>c_reader := r2\<rparr>) queryID body)))"

text \<open>One packet of the loop of \<open>handleConn\<close>; an outcome other than \<open>Ok\<close> ends the connection.\<close>

definition handle_packet ::
  "'w env \<Rightarrow> 'r ch_lib \<Rightarrow> ('w, 'r) ch_session \<Rightarrow> (('w, 'r) ch_session \<times> ch_outcome) option" where
  "handle_packet X K s =
     (case k_uvarint K (c_reader s) of
        (Inl err, r1) \<Rightarrow> Some (s\<lparr>c_reader := r1\<rparr>, Err err)
      | (Inr code, r1) \<Rightarrow>
          (let s1 = s\<lparr>c_reader := r1\<rparr>
           in case k_client K code of
                ClientQuery \<Rightarrow> handleQuery X K s1
              | ClientPing \<Rightarrow> Some (ch_write K s1 [PutByte ServerPong])
              | ClientData \<Rightarrow>
                  (case readClientBlock K (c_version s1) r1 of
                     (Inl err, r2) \<Rightarrow> Some (s1\<lparr>c_reader := r2\<rparr>, Err err)
                   | (Inr terminator, r2) \<Rightarrow> Some (s1\<lparr>c_reader := r2\<rparr>, Ok))
              | ClientCancel \<Rightarrow> Some (s1, Ok)
              | ClientHello \<Rightarrow> Some (s1, ChClose)
              | ClientOther \<Rightarrow> Some (s1, ChClose)))"

partial_function (option) packet_loop ::
  "'w env \<Rightarrow> 'r ch_lib \<Rightarrow> ('w, 'r) ch_session \<Rightarrow> (('w, 'r) ch_session \<times> ch_outcome) option" where
  "packet_loop X K s =
     (case handle_packet X K s of
        None \<Rightarrow> None
      | Some (s1, out) \<Rightarrow> if out = Ok then packet_loop X K s1 else Some (s1, out))"

definition ch_new :: "'w engine \<Rightarrow> 'r \<Rightarrow> ('w, 'r) ch_session" where
  "ch_new e r = \<lparr>c_reader = r, c_eng = e, c_version = 0, c_out = [], c_log = []\<rparr>"

definition ch_handleConn ::
  "'w env \<Rightarrow> 'r ch_lib \<Rightarrow> 'w engine \<Rightarrow> 'r \<Rightarrow> (('w, 'r) ch_session \<times> ch_outcome) option" where
  "ch_handleConn X K e r =
     (case handshake K (ch_new e r) of
        (s, Ok) \<Rightarrow> packet_loop X K s
      | (s, out) \<Rightarrow> Some (s, out))"

section \<open>Input that is consumed\<close>

text \<open>What the loops rely on: reading a number from the connection uses up input, and no decoder
  gives input back. \<open>left\<close> measures the input left, which a finite connection bounds.\<close>

definition reader_ok :: "'r ch_lib \<Rightarrow> ('r \<Rightarrow> nat) \<Rightarrow> bool" where
  "reader_ok K left \<longleftrightarrow>
     (\<forall>r x r'. k_uvarint K r = (Inr x, r') \<longrightarrow> left r' < left r) \<and>
     (\<forall>r x r'. k_str K r = (Inr x, r') \<longrightarrow> left r' \<le> left r) \<and>
     (\<forall>r x r'. k_hello K r = (Inr x, r') \<longrightarrow> left r' \<le> left r) \<and>
     (\<forall>v r x r'. k_query K v r = (Inr x, r') \<longrightarrow> left r' \<le> left r) \<and>
     (\<forall>r x r'. k_info K r = (Inr x, r') \<longrightarrow> left r' \<le> left r)"

lemma reader_okD:
  assumes "reader_ok K left"
  shows "k_uvarint K r = (Inr x, r') \<Longrightarrow> left r' < left r"
    and "k_str K r = (Inr s, r') \<Longrightarrow> left r' \<le> left r"
    and "k_hello K r = (Inr h, r') \<Longrightarrow> left r' \<le> left r"
    and "k_query K v r = (Inr q, r') \<Longrightarrow> left r' \<le> left r"
    and "k_info K r = (Inr i, r') \<Longrightarrow> left r' \<le> left r"
  using assms unfolding reader_ok_def by blast+

lemma readClientBlock_left:
  assumes ok: "reader_ok K left" and "readClientBlock K v r = (Inr b, r')"
  shows "left r' < left r"
proof -
  obtain nm r1 where r1: "(if k_feature K FeatureTempTables v then k_str K r else (Inr [], r)) = (Inr nm, r1)"
    using assms(2) unfolding readClientBlock_def by (auto split: sum.splits prod.splits)
  obtain i r2 where r2: "(if k_feature K FeatureBlockInfo v then k_info K r1 else (Inr (), r1)) = (Inr i, r2)"
    using assms(2) r1 unfolding readClientBlock_def by (auto split: sum.splits prod.splits)
  obtain n r3 where r3: "k_uvarint K r2 = (Inr n, r3)"
    using assms(2) r1 r2 unfolding readClientBlock_def by (auto split: sum.splits prod.splits)
  obtain m where r4: "k_uvarint K r3 = (Inr m, r')"
    using assms(2) r1 r2 r3 unfolding readClientBlock_def by (auto split: sum.splits prod.splits)
  have "left r1 \<le> left r" and "left r2 \<le> left r1"
    using r1 r2 reader_okD(2,5) [OF ok] by (auto split: if_splits)
  moreover have "left r3 < left r2" and "left r' < left r3"
    using r3 r4 reader_okD(1) [OF ok] by blast+
  ultimately show ?thesis by linarith
qed

lemma drain_returns:
  assumes ok: "reader_ok K left"
  shows "\<exists>err r'. drainClientData K v r = Some (err, r') \<and> (err = None \<longrightarrow> left r' < left r)"
proof (induction r rule: measure_induct_rule [of left])
  case (less r)
  obtain x r1 where u: "k_uvarint K r = (x, r1)" by (rule prod.exhaust)
  show ?case
  proof (cases x)
    case (Inl err)
    with u show ?thesis by (subst drainClientData.simps) simp
  next
    case (Inr code)
    have r1: "left r1 < left r" using reader_okD(1) [OF ok] u Inr by blast
    show ?thesis
    proof (cases "k_client K code = ClientData")
      case False
      with u Inr show ?thesis by (subst drainClientData.simps) simp
    next
      case True
      obtain y r2 where b: "readClientBlock K v r1 = (y, r2)" by (rule prod.exhaust)
      show ?thesis
      proof (cases y)
        case Inl2: (Inl err)
        with u Inr True b show ?thesis by (subst drainClientData.simps) simp
      next
        case Inr2: (Inr terminator)
        have r2: "left r2 < left r" using readClientBlock_left [OF ok] b Inr2 r1 by fastforce
        from less [OF r2] obtain err r' where d: "drainClientData K v r2 = Some (err, r')"
          and "err = None \<longrightarrow> left r' < left r2" by blast
        with r2 u Inr True b Inr2 show ?thesis
          by (subst drainClientData.simps) auto
      qed
    qed
  qed
qed

section \<open>What one packet does\<close>

lemma ch_write_out [simp]:
  "c_reader (fst (ch_write K s items)) = c_reader s" "c_version (fst (ch_write K s items)) = c_version s"
  "c_out (fst (ch_write K s items)) = c_out s @ [items]"
  "snd (ch_write K s items) \<noteq> ChPanic"
  by (simp_all add: ch_write_def split: option.split)

lemma result_items_Some:
  assumes "rect res"
  obtains items where "result_items K F v res qid rep = Some (items @ [PutByte ServerEndOfStream])"
  unfolding result_items_def buildInput_header buildInput_rows [OF assms]
  by (cases "q_rows res = []") auto

lemma answer_query_frame:
  "c_reader (fst (answer_query X K s qid body)) = c_reader s"
  "c_version (fst (answer_query X K s qid body)) = c_version s"
  by (auto simp: answer_query_def sendException_def sendResult_def Let_def
      split: prod.split option.split)

lemma answer_query_no_panic: "snd (answer_query X K s qid body) \<noteq> ChPanic"
proof -
  obtain e res err where rc: "Run X (c_eng s) body = (e, res, err)"
    by (rule prod_cases3)
  show ?thesis
  proof (cases err)
    case (Some msg)
    with rc show ?thesis by (cases res) (simp_all add: answer_query_def sendException_def)
  next
    case None
    with rc obtain r where r: "res = Some r" "rect r" using run.ok_result by blast
    obtain items where "result_items K (x_floats X) (c_version s) r qid (ch_report (x_floats X) r) =
        Some (items @ [PutByte ServerEndOfStream])"
      using result_items_Some [OF r(2)] by blast
    with rc None r show ?thesis
      by (simp add: answer_query_def sendResult_def Let_def)
  qed
qed

lemma handleQuery_returns:
  assumes ok: "reader_ok K left"
  shows "\<exists>s' out. handleQuery X K s = Some (s', out) \<and> out \<noteq> ChPanic \<and>
    (out = Ok \<longrightarrow> left (c_reader s') < left (c_reader s))"
proof -
  obtain q r1 where q: "k_query K (c_version s) (c_reader s) = (q, r1)" by (rule prod.exhaust)
  show ?thesis
  proof (cases q)
    case (Inl err)
    with q show ?thesis by (simp add: handleQuery_def)
  next
    case (Inr qb)
    obtain qid body where qb: "qb = (qid, body)" by force
    have r1: "left r1 \<le> left (c_reader s)" using reader_okD(4) [OF ok] q Inr by blast
    obtain err r2 where d: "drainClientData K (c_version s) r1 = Some (err, r2)"
      and r2: "err = None \<longrightarrow> left r2 < left r1"
      using drain_returns [OF ok] by blast
    show ?thesis
    proof (cases err)
      case None
      let ?a = "answer_query X K (s\<lparr>c_reader := r2\<rparr>) qid body"
      have "handleQuery X K s = Some (fst ?a, snd ?a)"
        using q Inr qb d None by (simp add: handleQuery_def)
      moreover have "left (c_reader (fst ?a)) < left (c_reader s)"
        using r1 r2 None by (simp add: answer_query_frame)
      ultimately show ?thesis using answer_query_no_panic by blast
    next
      case (Some msg)
      with q Inr qb d show ?thesis by (simp add: handleQuery_def)
    qed
  qed
qed

lemma handle_packet_returns:
  assumes ok: "reader_ok K left"
  shows "\<exists>s' out. handle_packet X K s = Some (s', out) \<and> out \<noteq> ChPanic \<and>
    (out = Ok \<longrightarrow> left (c_reader s') < left (c_reader s))"
proof -
  obtain x r1 where u: "k_uvarint K (c_reader s) = (x, r1)" by (rule prod.exhaust)
  show ?thesis
  proof (cases x)
    case (Inl err)
    with u show ?thesis by (simp add: handle_packet_def)
  next
    case (Inr code)
    let ?s1 = "s\<lparr>c_reader := r1\<rparr>"
    have r1: "left r1 < left (c_reader s)" using reader_okD(1) [OF ok] u Inr by blast
    note defs = handle_packet_def u Inr Let_def
    show ?thesis
    proof (cases "k_client K code")
      case ClientQuery
      with handleQuery_returns [OF ok, of X ?s1] r1 show ?thesis by (fastforce simp: defs)
    next
      case ClientPing
      with r1 show ?thesis
        using ch_write_out [of K ?s1 "[PutByte ServerPong]"]
        by (cases "ch_write K ?s1 [PutByte ServerPong]") (simp add: defs)
    next
      case ClientData
      obtain y r2 where b: "readClientBlock K (c_version s) r1 = (y, r2)" by (rule prod.exhaust)
      with ClientData r1 readClientBlock_left [OF ok] show ?thesis
        by (cases y) (fastforce simp: defs)+
    qed (use r1 in \<open>simp_all add: defs\<close>)
  qed
qed

lemma packet_loop_returns:
  assumes ok: "reader_ok K left"
  shows "\<exists>s' out. packet_loop X K s = Some (s', out) \<and> out \<noteq> ChPanic \<and> out \<noteq> Ok"
proof (induction s rule: measure_induct_rule [of "\<lambda>s. left (c_reader s)"])
  case (less s)
  obtain s1 out where p: "handle_packet X K s = Some (s1, out)" "out \<noteq> ChPanic"
    "out = Ok \<longrightarrow> left (c_reader s1) < left (c_reader s)"
    using handle_packet_returns [OF ok] by blast
  then show ?case
    using less [of s1] by (subst packet_loop.simps) (cases "out = Ok"; simp)
qed

lemma handshake_outcome:
  "snd (handshake K s) \<noteq> ChPanic"
  by (auto simp: handshake_def ch_write_def Let_def split: prod.splits sum.splits option.splits)

text \<open>A reader over a list of decoded tokens, for the examples.\<close>

datatype token = TNum "64 word" | TStr string | THello int | TQuery string string | TInfo

fun t_uvarint :: "token list \<Rightarrow> 64 word result \<times> token list" where
  "t_uvarint (TNum w # r) = (Inr w, r)"
| "t_uvarint r = (Inl ''EOF'', r)"

fun t_str :: "token list \<Rightarrow> string result \<times> token list" where
  "t_str (TStr s # r) = (Inr s, r)"
| "t_str r = (Inl ''EOF'', r)"

fun t_hello :: "token list \<Rightarrow> int result \<times> token list" where
  "t_hello (THello v # r) = (Inr v, r)"
| "t_hello r = (Inl ''EOF'', r)"

fun t_query :: "int \<Rightarrow> token list \<Rightarrow> (string \<times> string) result \<times> token list" where
  "t_query v (TQuery i b # r) = (Inr (i, b), r)"
| "t_query v r = (Inl ''EOF'', r)"

fun t_info :: "token list \<Rightarrow> unit result \<times> token list" where
  "t_info (TInfo # r) = (Inr (), r)"
| "t_info r = (Inl ''EOF'', r)"

definition t_client :: "64 word \<Rightarrow> client_code" where
  "t_client w = (if w = 0 then ClientHello else if w = 1 then ClientQuery else if w = 2 then ClientData
                 else if w = 3 then ClientCancel else if w = 4 then ClientPing else ClientOther)"

definition demo_ch :: "token list ch_lib" where
  "demo_ch =
     \<lparr>k_uvarint = t_uvarint, k_str = t_str, k_hello = t_hello, k_query = t_query, k_info = t_info,
      k_client = t_client, k_revision = 54460, k_feature = (\<lambda>f v. v \<ge> 50000), k_write = (\<lambda>out. None),
      k_now = zero_time\<rparr>"

lemma reader_ok_demo: "reader_ok demo_ch length"
proof -
  have "t_uvarint r = (Inr x, r') \<Longrightarrow> length r' < length r" for r x r'
    by (cases r rule: t_uvarint.cases) auto
  moreover have "t_str r = (Inr s, r') \<Longrightarrow> length r' \<le> length r" for r s r'
    by (cases r rule: t_str.cases) auto
  moreover have "t_hello r = (Inr h, r') \<Longrightarrow> length r' \<le> length r" for r h r'
    by (cases r rule: t_hello.cases) auto
  moreover have "t_query v r = (Inr q, r') \<Longrightarrow> length r' \<le> length r" for v r q r'
    by (cases "(v, r)" rule: t_query.cases) auto
  moreover have "t_info r = (Inr i, r') \<Longrightarrow> length r' \<le> length r" for r i r'
    by (cases r rule: t_info.cases) auto
  ultimately show ?thesis unfolding reader_ok_def demo_ch_def by simp
qed

section \<open>Properties\<close>

text \<open>C33. A connection comes to its end: as long as reading consumes input, the loop over
  packets and the loop that drains a query's data blocks return on every finite input, the
  connection ends with an error or by closing, and never because a missing or ragged result
  was dereferenced.\<close>

theorem connection_ends:
  assumes "reader_ok K left"
  shows "\<exists>s out. ch_handleConn X K e r = Some (s, out) \<and> out \<noteq> Ok \<and> out \<noteq> ChPanic"
proof -
  obtain s out where h: "handshake K (ch_new e r) = (s, out)" by (rule prod.exhaust)
  then have "out \<noteq> ChPanic" using handshake_outcome by (metis snd_conv)
  with h packet_loop_returns [OF assms, of X s] show ?thesis
    by (cases out) (auto simp: ch_handleConn_def)
qed

lemma connection_ends_witness:
  "\<exists>s out. ch_handleConn (demo_env (\<lambda>s. Inl ''no'')) demo_ch (demo_engine False)
      [TNum 0, THello 54460, TStr [], TNum 4, TNum 1] = Some (s, out) \<and> out \<noteq> Ok \<and> out \<noteq> ChPanic"
  by (rule connection_ends) (rule reader_ok_demo)

text \<open>C34. The handshake settles on a revision both sides know: the client's own when it names
  one that is not newer than the server's, otherwise the server's. The only thing sent is one
  hello, encoded at that revision.\<close>

theorem handshake_revision:
  assumes "handshake K s = (s', Ok)" and "0 < k_revision K"
  shows "c_version s' \<le> k_revision K \<and> c_version s' \<noteq> 0 \<and>
    (\<exists>code pv. fst (k_uvarint K (c_reader s)) = Inr code \<and> k_client K code = ClientHello \<and>
       fst (k_hello K (snd (k_uvarint K (c_reader s)))) = Inr pv \<and>
       c_version s' = (if pv \<noteq> 0 \<and> pv \<le> k_revision K then pv else k_revision K)) \<and>
    (\<exists>hello. c_out s' = c_out s @ [[EncodeHello (c_version s') hello]] \<and> sh_revision hello = k_revision K)"
proof -
  obtain code r1 where r1: "k_uvarint K (c_reader s) = (Inr code, r1)"
    and hello: "k_client K code = ClientHello"
    using assms(1) by (auto simp: handshake_def split: prod.splits sum.splits if_splits)
  obtain pv r2 where r2: "k_hello K r1 = (Inr pv, r2)"
    using assms(1) r1 hello by (auto simp: handshake_def split: prod.splits sum.splits)
  let ?v = "if pv \<noteq> 0 \<and> pv \<le> k_revision K then pv else k_revision K"
  have v: "(if pv = 0 \<or> pv > k_revision K then k_revision K else pv) = ?v" by auto
  from assms(1) r1 hello r2 have "c_version s' = ?v \<and>
    (\<exists>h. c_out s' = c_out s @ [[EncodeHello ?v h]] \<and> sh_revision h = k_revision K)"
    unfolding handshake_def v by (auto simp: ch_write_def Let_def v simp del: if_split
        split: prod.splits sum.splits option.splits if_split_asm)
  then show ?thesis using assms(2) r1 r2 hello by simp
qed

lemma handshake_revision_witness:
  "let s' = fst (handshake demo_ch (ch_new (demo_engine False) [TNum 0, THello 99999, TStr []]))
   in c_version s' = 54460 \<and> c_version s' \<le> k_revision demo_ch"
proof -
  have "snd (handshake demo_ch (ch_new (demo_engine False) [TNum 0, THello 99999, TStr []])) = Ok"
    by code_simp
  then obtain s' where h: "handshake demo_ch (ch_new (demo_engine False) [TNum 0, THello 99999, TStr []]) = (s', Ok)"
    by (metis prod.collapse)
  have "k_revision demo_ch = 54460" by (simp add: demo_ch_def)
  moreover from this handshake_revision [OF h]
  have "c_version s' \<le> k_revision demo_ch \<and> c_version s' = 54460"
    by (auto simp: demo_ch_def ch_new_def)
  ultimately show ?thesis unfolding Let_def h fst_conv by simp
qed

text \<open>The packets of one answer. A data packet is its code, at some revisions a table name, and
  a block.\<close>

definition block_at :: "item list \<Rightarrow> server_code \<Rightarrow> nat \<Rightarrow> bool" where
  "block_at items code nrows \<longleftrightarrow>
     hd items = PutByte code \<and> (\<exists>v n cols. last items = EncodeBlock v n nrows cols \<and> n = length cols \<and>
       (\<forall>c \<in> set cols. col_len (ic_data c) = nrows))"



end
