(* ===== verification/Serving.thy ===== *)
theory Serving
  imports Pg Mysql ClickHouseConn
begin

text \<open>
  The listeners (internal/pg/listener.go, internal/mysql/listener.go,
  internal/clickhouse/listener.go) and the connections of all three protocols over one shared
  engine. Every accepted connection runs in a goroutine of its own; the model interleaves them
  message by message: a system step lets one connection handle one message, packet or command,
  on the engine as the others have left it. What goroutines do to each other inside the
  handling of one message is not modelled.
\<close>

section \<open>Accepting connections\<close>

text \<open>
  The accept loop: the results of \<open>ln.Accept()\<close> in order, the connections that got a
  goroutine, and the error that ended the loop; none while the listener waits.
\<close>

fun accept_loop :: "string \<Rightarrow> 'c result list \<Rightarrow> 'c list \<times> go_error" where
  "accept_loop name [] = ([], None)"
| "accept_loop name (Inl err # rs) = ([], Some (name @ '': accept: '' @ err))"
| "accept_loop name (Inr conn # rs) = map_prod ((#) conn) id (accept_loop name rs)"

definition pg_Serve :: "'c result list \<Rightarrow> 'c list \<times> go_error" where
  "pg_Serve = accept_loop ''pg''"

definition my_Serve :: "'c result list \<Rightarrow> 'c list \<times> go_error" where
  "my_Serve = accept_loop ''mysql''"

definition ch_Serve :: "'c result list \<Rightarrow> 'c list \<times> go_error" where
  "ch_Serve = accept_loop ''clickhouse''"

text \<open>
  \<open>handleConn\<close> of the MySQL front end: the error of go-mysql's handshake, if any, then the
  commands, each of which may be the error that \<open>HandleCommand\<close> returns. A panic is recovered
  and ends the connection.
\<close>

fun my_serve :: "'w env \<Rightarrow> 'rs my_lib \<Rightarrow> 'w my_handler \<Rightarrow> my_command result list \<Rightarrow> 'w my_handler" where
  "my_serve X L h [] = h"
| "my_serve X L h (Inl err # cs) = h"
| "my_serve X L h (Inr c # cs) =
     (case my_handle X L h c of
        (h1, Statement Panicked) \<Rightarrow> h1
      | (h1, reply) \<Rightarrow> my_serve X L h1 cs)"

definition my_handleConn ::
  "'w env \<Rightarrow> 'rs my_lib \<Rightarrow> 'w engine \<Rightarrow> go_error \<Rightarrow> my_command result list \<Rightarrow> 'w my_handler option" where
  "my_handleConn X L e auth cs =
     (case auth of Some err \<Rightarrow> None | None \<Rightarrow> Some (my_serve X L (my_new e) cs))"

section \<open>The system\<close>

datatype ('w, 'r) client =
    PgClient "'w session" | MyClient "'w my_handler" | ChClient "('w, 'r) ch_session"

record ('w, 'r) system =
  y_engine :: "'w engine"
  y_clients :: "nat \<rightharpoonup> ('w, 'r) client"

text \<open>What the connections are given from outside: the database, the wire libraries.\<close>

record ('w, 'r, 'rs) wires =
  v_env :: "'w env"
  v_startup :: startup_env
  v_my :: "'rs my_lib"
  v_ch :: "'r ch_lib"

datatype input = PgMsg fe_msg | MyCmd my_command | ChPacket

datatype 'r event =
    PgOpen nat nat "startup_msg result list" | MyOpen nat | ChOpen nat 'r | Input nat input

fun engine_of :: "('w, 'r) client \<Rightarrow> 'w engine" where
  "engine_of (PgClient s) = s_eng s"
| "engine_of (MyClient h) = h_eng h"
| "engine_of (ChClient s) = c_eng s"

fun with_engine :: "'w engine \<Rightarrow> ('w, 'r) client \<Rightarrow> ('w, 'r) client" where
  "with_engine e (PgClient s) = PgClient (s\<lparr>s_eng := e\<rparr>)"
| "with_engine e (MyClient h) = MyClient (h\<lparr>h_eng := e\<rparr>)"
| "with_engine e (ChClient s) = ChClient (s\<lparr>c_eng := e\<rparr>)"

text \<open>
  One turn of a connection: the engine it leaves and the connection, unless it ended. A
  connection gets only input of its own protocol; a ClickHouse packet whose handling does not
  return (it does return when reading consumes input) also counts as an end.
\<close>

fun turn :: "('w, 'r, 'rs) wires \<Rightarrow> ('w, 'r) client \<Rightarrow> input \<Rightarrow> 'w engine \<times> ('w, 'r) client option" where
  "turn V (PgClient s) (PgMsg m) =
     (case handle (v_env V) s m of
        (s1, Continue) \<Rightarrow> (s_eng s1, Some (PgClient s1))
      | (s1, out) \<Rightarrow> (s_eng s1, None))"
| "turn V (MyClient h) (MyCmd c) =
     (case my_handle (v_env V) (v_my V) h c of
        (h1, Statement Panicked) \<Rightarrow> (h_eng h1, None)
      | (h1, reply) \<Rightarrow> (h_eng h1, Some (MyClient h1)))"
| "turn V (ChClient s) ChPacket =
     (case handle_packet (v_env V) (v_ch V) s of
        Some (s1, Ok) \<Rightarrow> (c_eng s1, Some (ChClient s1))
      | Some (s1, out) \<Rightarrow> (c_eng s1, None)
      | None \<Rightarrow> (c_eng s, None))"
| "turn V c i = (engine_of c, Some c)"

definition admit :: "('w, 'r) system \<Rightarrow> nat \<Rightarrow> ('w, 'r) client \<Rightarrow> ('w, 'r) system" where
  "admit Y n c = (if n \<in> dom (y_clients Y) then Y else Y\<lparr>y_clients := (y_clients Y)(n \<mapsto> c)\<rparr>)"

fun sys_step :: "('w, 'r, 'rs) wires \<Rightarrow> ('w, 'r) system \<Rightarrow> 'r event \<Rightarrow> ('w, 'r) system" where
  "sys_step V Y (PgOpen n conn msgs) =
     (case startup (v_startup V) (new_session (y_engine Y) conn) msgs of
        (s, None) \<Rightarrow> admit Y n (PgClient s)
      | (s, Some err) \<Rightarrow> Y)"
| "sys_step V Y (MyOpen n) = admit Y n (MyClient (my_new (y_engine Y)))"
| "sys_step V Y (ChOpen n r) =
     (case handshake (v_ch V) (ch_new (y_engine Y) r) of
        (s, Ok) \<Rightarrow> admit Y n (ChClient s)
      | (s, out) \<Rightarrow> Y)"
| "sys_step V Y (Input n i) =
     (case y_clients Y n of
        None \<Rightarrow> Y
      | Some c \<Rightarrow>
          (case turn V (with_engine (y_engine Y) c) i of
             (e, c') \<Rightarrow> \<lparr>y_engine = e, y_clients = (y_clients Y)(n := c')\<rparr>))"

definition new_system :: "'w engine \<Rightarrow> ('w, 'r) system" where
  "new_system e = \<lparr>y_engine = e, y_clients = Map.empty\<rparr>"

section \<open>Turns only query the engine\<close>

text \<open>The engine after some queries, on whichever connections.\<close>

definition queried :: "'w env \<Rightarrow> 'w engine \<Rightarrow> 'w engine \<Rightarrow> bool" where
  "queried X e e' \<longleftrightarrow> (\<exists>qs. e' = foldl (\<lambda>e (q, s). fst (runOn X e q s)) e qs)"

lemma queried_refl [simp, intro]: "queried X e e"
  unfolding queried_def by (rule exI [of _ "[]"]) simp

lemma queried_trans: "queried X e e1 \<Longrightarrow> queried X e1 e2 \<Longrightarrow> queried X e e2"
  unfolding queried_def by (metis foldl_append)

lemma queried_one: "queried X e (fst (runOn X e q s))"
  unfolding queried_def by (rule exI [of _ "[(q, s)]"]) simp

lemma queried_run: "Run X e s = (e', r) \<Longrightarrow> queried X e e'"
  by (metis Run_def fst_conv queried_one)

lemma queried_conn: "RunConn X e c s = (e', r) \<Longrightarrow> queried X e e'"
  by (metis RunConn_def fst_conv queried_one)

lemma queried_memo: "run X s sql = (s', r) \<Longrightarrow> queried X (s_eng s) (s_eng s')"
  by (auto simp: run_def split: if_splits prod.splits dest: queried_conn)

lemma queried_frame:
  assumes "queried X e e'"
  shows "e_tables e' = e_tables e" "e_seen e' = e_seen e" "e_stub e' = e_stub e"
    and "log_ok n e \<Longrightarrow> log_ok n e'"
proof -
  obtain qs where e': "e' = foldl (\<lambda>e (q, s). fst (runOn X e q s)) e qs"
    using assms unfolding queried_def by blast
  show "e_tables e' = e_tables e" "e_seen e' = e_seen e" "e_stub e' = e_stub e"
    unfolding e' by (rule foldl_frame; simp add: frame_simps split: prod.split)+
  show "log_ok n e \<Longrightarrow> log_ok n e'" unfolding e' by (rule queries.run_inv)
qed

lemma queried_pg: "queried X (s_eng s) (s_eng (fst (handle X s m)))"
proof -
  have shape: "queried X (s_eng s) (s_eng (fst (describe_shape X s raw fm)))" for s :: "'a session" and raw fm
    by (auto simp: describe_shape_def session_ops split: prod.splits option.splits dest: queried_memo)
  have "queried X (s_eng s) (s_eng (fst (execute X s n)))" for n
    by (auto simp: execute_def session_ops Let_def frame_simps split: prod.splits option.splits
        dest: queried_memo)
  moreover have "queried X (s_eng s) (s_eng (fst (simpleQuery X s q)))" for q
    by (auto simp: simpleQuery_def session_ops Let_def frame_simps split: prod.splits option.splits
        dest: queried_conn)
  moreover have "queried X (s_eng s) (s_eng (fst (describe X s ty n)))" for ty n
    using shape [of "send s msg" for msg] shape [of s]
    by (auto simp: describe_def send_def Let_def split: option.split)
  ultimately show ?thesis by (cases m) (simp_all add: session_ops)
qed

lemma queried_my: "queried X (h_eng h) (h_eng (fst (my_handle X L h c)))"
proof -
  have "queried X (h_eng h) (h_eng (fst (exec X L h q b)))" for q b
    by (auto simp: exec_def row_answer_def Let_def split: prod.splits option.splits sum.splits dest: queried_run)
  then show ?thesis by (cases c) (simp_all add: HandleQuery_def HandleStmtExecute_def)
qed

lemma queried_ch:
  assumes "handle_packet X K s = Some (s1, out)"
  shows "queried X (c_eng s) (c_eng s1)"
proof -
  have answer: "queried X (c_eng s) (c_eng (fst (answer_query X K s qid body)))" for s qid body
    by (auto simp: answer_query_def sendException_def sendResult_def ch_write_def Let_def
        split: prod.splits option.splits dest: queried_run)
  have query: "queried X (c_eng s) (c_eng s1)" if "handleQuery X K s = Some (s1, out)" for s
    using that answer [of "s\<lparr>c_reader := r\<rparr>" for r]
    by (auto simp: handleQuery_def split: prod.splits sum.splits option.splits) (metis fst_conv ch_session.simps)+
  show ?thesis
    using assms query [of "s\<lparr>c_reader := r\<rparr>" for r]
    by (auto simp: handle_packet_def ch_write_def Let_def split: prod.splits sum.splits client_code.splits)
qed

lemma queried_turn: "queried (v_env V) (engine_of c) (fst (turn V c i))"
proof -
  have pg: "handle (v_env V) s m = (s1, out) \<Longrightarrow> queried (v_env V) (s_eng s) (s_eng s1)" for s m s1 out
    by (metis fst_conv queried_pg)
  have my: "my_handle (v_env V) L h cm = (h1, out) \<Longrightarrow> queried (v_env V) (h_eng h) (h_eng h1)" for L h cm h1 out
    by (metis fst_conv queried_my)
  show ?thesis
    by (cases "(V, c, i)" rule: turn.cases)
      (auto split: prod.splits outcome.splits my_reply.splits answer.splits option.splits ch_outcome.splits
        dest: pg my queried_ch)
qed

section \<open>The invariant of the system\<close>

definition pg_ok :: "('w, 'r) client \<Rightarrow> bool" where
  "pg_ok c \<longleftrightarrow> (case c of PgClient s \<Rightarrow> session_ok s | _ \<Rightarrow> True)"

definition sys_ok :: "('w, 'r, 'rs) wires \<Rightarrow> 'w engine \<Rightarrow> ('w, 'r) system \<Rightarrow> bool" where
  "sys_ok V e Y \<longleftrightarrow> queried (v_env V) e (y_engine Y) \<and> (\<forall>c \<in> ran (y_clients Y). pg_ok c)"

lemma engine_of_with [simp]: "engine_of (with_engine e c) = e"
  by (cases c) simp_all

lemma pg_ok_with [simp]: "pg_ok (with_engine e c) = pg_ok c"
  by (cases c) (simp_all add: pg_ok_def)

lemma startup_session_ok: "startup U s msgs = (s1, err) \<Longrightarrow> session_ok s \<Longrightarrow> session_ok s1"
  by (induction U s msgs rule: startup.induct)
    (auto simp: session_ops send_all_eq Let_def split: if_splits option.splits)

lemma pg_ok_turn:
  assumes "pg_ok c" and "turn V c i = (e, Some c')"
  shows "pg_ok c'"
proof -
  have pg: "handle (v_env V) s m = (s1, out) \<Longrightarrow> session_ok s \<Longrightarrow> session_ok s1" for s m s1 out
    by (metis fst_conv session_ok_step step_def)
  show ?thesis
    using assms
    by (cases "(V, c, i)" rule: turn.cases)
      (auto simp: pg_ok_def split: prod.splits outcome.splits my_reply.splits answer.splits
        option.splits ch_outcome.splits dest: pg)
qed

lemma sys_ok_admit: "sys_ok V e Y \<Longrightarrow> pg_ok c \<Longrightarrow> sys_ok V e (admit Y n c)"
  by (auto simp: sys_ok_def admit_def ran_def)

lemma sys_ok_step: "sys_ok V e Y \<Longrightarrow> sys_ok V e (sys_step V Y ev)"
proof (cases ev)
  case (PgOpen n conn msgs)
  assume ok: "sys_ok V e Y"
  obtain s err where s: "startup (v_startup V) (new_session (y_engine Y) conn) msgs = (s, err)" by force
  then have "session_ok s" using startup_session_ok [OF s session_ok_new] by simp
  with ok s PgOpen show ?thesis by (cases err) (simp_all add: sys_ok_admit pg_ok_def)
next
  case (ChOpen n r)
  assume "sys_ok V e Y"
  with ChOpen show ?thesis by (auto simp: sys_ok_admit pg_ok_def split: prod.split ch_outcome.split)
next
  case (Input n i)
  assume ok: "sys_ok V e Y"
  show ?thesis
  proof (cases "y_clients Y n")
    case (Some c)
    obtain e1 c1 where t: "turn V (with_engine (y_engine Y) c) i = (e1, c1)" by force
    have "queried (v_env V) (y_engine Y) e1"
      using queried_turn [of V "with_engine (y_engine Y) c" i] t by simp
    then have "queried (v_env V) e e1" using ok queried_trans unfolding sys_ok_def by blast
    moreover have "pg_ok c" using ok Some unfolding sys_ok_def by (auto intro: ranI)
    then have "pg_ok c'" if "c1 = Some c'" for c'
      using pg_ok_turn [of "with_engine (y_engine Y) c"] t that by simp
    ultimately show ?thesis
      using ok Some t Input by (auto simp: sys_ok_def ran_def)
  qed (use ok Input in simp)
qed (simp_all add: sys_ok_admit pg_ok_def)

lemma sys_ok_new: "sys_ok V e (new_system e)"
  by (simp add: sys_ok_def new_system_def)

interpretation serving: started_machine "sys_step V" "sys_ok V e" "new_system e"
  by unfold_locales (simp_all add: sys_ok_step sys_ok_new)

section \<open>Properties\<close>

text \<open>C25. One engine behind all connections. However the messages, commands and packets of
  connections of the three protocols interleave, with connections coming and going, the engine
  is one that has answered a sequence of queries: no connection touches the tables, their
  owners or the stub mode, and the log keeps one line per message key.\<close>

theorem shared_engine_only_queried:
  "let e' = y_engine (foldl (sys_step V) (new_system e) evs)
   in (\<exists>qs. e' = foldl (\<lambda>e (q, s). fst (runOn (v_env V) e q s)) e qs) \<and>
      e_tables e' = e_tables e \<and> e_seen e' = e_seen e \<and> e_stub e' = e_stub e \<and>
      (logged_keys e = {} \<longrightarrow> length (e_log e') = length (e_log e) + card (logged_keys e'))"
proof -
  let ?e' = "y_engine (foldl (sys_step V) (new_system e) evs)"
  have q: "queried (v_env V) e ?e'"
    using serving.reachable_inv [of V e evs] unfolding sys_ok_def by blast
  have "log_ok (length (e_log e)) e" if "logged_keys e = {}" using that by (simp add: log_ok_def)
  with queried_frame [OF q] q show ?thesis
    unfolding Let_def queried_def by (auto simp: log_ok_def)
qed


definition demo_wires :: "(string list, token list, value list list) wires" where
  "demo_wires =
     \<lparr>v_env = demo_env (\<lambda>s. Inr (one_row ''c'' ''VARCHAR'' (VString ''x''))),
      v_startup = \<lparr>u_write = None, u_flush = None, u_order = (\<lambda>ps. ps)\<rparr>, v_my = demo_lib, v_ch = demo_ch\<rparr>"

definition demo_events :: "token list event list" where
  "demo_events =
     [PgOpen 0 7 [Inr SSLRequest, Inr StartupMessage], MyOpen 1, Input 1 (MyCmd (ComQuery ''SELECT 1'')),
      Input 0 (PgMsg (Query ''BEGIN'')), Input 1 (MyCmd (ComQuery ''SELECT 2''))]"


lemma shared_engine_only_queried_witness:
  "let e' = y_engine (foldl (sys_step demo_wires) (new_system (demo_engine True)) demo_events)
   in e_tables e' = e_tables (demo_engine True) \<and> length (e_log e') = card (logged_keys e')"
  using shared_engine_only_queried [of demo_wires "demo_engine True" demo_events]
  by (simp add: Let_def demo_engine_def logged_keys_def)

end
