(* ===== verification/Sources.thy ===== *)
theory Sources
  imports Engine
begin

text \<open>
  How the engine loads its sources: \<open>register\<close>, \<open>loadDir\<close>, \<open>attachSnapshot\<close> and
  \<open>load\<close> of internal/engine/duckdb.go and the ClickHouse pull of
  internal/engine/source\_clickhouse.go. A table name is claimed by the first source that
  brings it; the loops of the loaders interpret the contract \<open>first_claim\<close>.
\<close>

section \<open>Registering views\<close>

definition run_exec :: "'w env \<Rightarrow> 'w engine \<Rightarrow> string \<Rightarrow> 'w engine \<times> go_error" where
  "run_exec X e stmt = (case x_exec X (e_db e) stmt of (w, err) \<Rightarrow> (e\<lparr>e_db := w\<rparr>, err))"

definition claim_table :: "'w engine \<Rightarrow> string \<Rightarrow> string \<Rightarrow> 'w engine" where
  "claim_table e table orig =
     e\<lparr>e_seen := (e_seen e)(table \<mapsto> orig), e_tables := e_tables e @ [table]\<rparr>"

definition already_line :: "string \<Rightarrow> string \<Rightarrow> string \<Rightarrow> string" where
  "already_line table prev orig =
     ''engine: table '' @ Quote table @ '' already registered from '' @ Quote prev @
     ''; skipping '' @ Quote orig"

definition view_stmt :: "string \<Rightarrow> string \<Rightarrow> string" where
  "view_stmt table reader =
     ''CREATE OR REPLACE VIEW '' @ quoteIdent table @ '' AS SELECT * FROM '' @ reader"

definition register ::
  "'w env \<Rightarrow> 'w engine \<Rightarrow> string \<times> string \<times> string \<Rightarrow> 'w engine \<times> go_error" where
  "register X e item =
     (case item of (table, reader, orig) \<Rightarrow>
        case e_seen e table of
          Some prev \<Rightarrow> (print_log e (already_line table prev orig), None)
        | None \<Rightarrow>
            (case run_exec X e (view_stmt table reader) of
               (e', Some err) \<Rightarrow>
                 (e', Some (''engine: register view '' @ Quote table @ '': '' @ err))
             | (e', None) \<Rightarrow> (claim_table e' table orig, None)))"

definition parquet_reader :: "string \<Rightarrow> string" where
  "parquet_reader path = ''read_parquet('' @ sql_literal path @ '')''"

definition csv_reader :: "string \<Rightarrow> string" where
  "csv_reader path = ''read_csv_auto('' @ sql_literal path @ '')''"

text \<open>What \<open>loadDir\<close> registers for one directory entry; \<open>None\<close> for an entry it skips.\<close>

definition dir_item :: "string \<Rightarrow> string \<times> bool \<Rightarrow> (string \<times> string \<times> string) option" where
  "dir_item dir ent =
     (case ent of (name, is_dir) \<Rightarrow>
        if is_dir then None
        else let path = path_Join dir name; ext = ToLower (path_Ext name)
             in if ext = ''.parquet'' then Some (fileTable name, parquet_reader path, path)
                else if ext = ''.csv'' then Some (fileTable name, csv_reader path, path)
                else None)"

definition loadDir :: "'w env \<Rightarrow> 'w engine \<Rightarrow> source \<Rightarrow> 'w engine \<times> go_error" where
  "loadDir X e src =
     (case x_readdir X (s_path src) of
        Inl err \<Rightarrow> (e, Some (''engine: read data dir '' @ s_path src @ '': '' @ err))
      | Inr entries \<Rightarrow>
          each_until_error (register X) e (List.map_filter (dir_item (s_path src)) entries))"

section \<open>Snapshots of attached databases\<close>

record qualTable =
  qt_schema :: string
  qt_name :: string

definition allowed :: "string list \<Rightarrow> string \<Rightarrow> string \<Rightarrow> bool" where
  "allowed allow schema name \<longleftrightarrow>
     (let allowSet = set (map ToLower allow)
      in \<not> (allowSet \<noteq> {} \<and> ToLower name \<notin> allowSet \<and> ToLower (schema @ ''.'' @ name) \<notin> allowSet))"

fun scan_tables :: "string list \<Rightarrow> (string \<times> string) result list \<Rightarrow> qualTable list result" where
  "scan_tables allow [] = Inr []"
| "scan_tables allow (Inl err # rs) = Inl err"
| "scan_tables allow (Inr (schema, name) # rs) =
     (case scan_tables allow rs of
        Inl err \<Rightarrow> Inl err
      | Inr out \<Rightarrow> if allowed allow schema name
                  then Inr (\<lparr>qt_schema = schema, qt_name = name\<rparr> # out) else Inr out)"

text \<open>
  The result of \<open>attachedTables\<close> is a list and an error of the iteration; the caller drops
  the list when there is an error.
\<close>

definition attachedTables ::
  "'w env \<Rightarrow> 'w engine \<Rightarrow> string \<Rightarrow> string list \<Rightarrow> 'w engine \<times> qualTable list result" where
  "attachedTables X e alias allow =
     (case x_tables X (e_db e) alias of
        (w, Inl err) \<Rightarrow>
          (e\<lparr>e_db := w\<rparr>, Inl (''engine: list tables for '' @ Quote alias @ '': '' @ err))
      | (w, Inr (rs, err)) \<Rightarrow>
          (e\<lparr>e_db := w\<rparr>,
           case scan_tables allow rs of
             Inl serr \<Rightarrow> Inl serr
           | Inr out \<Rightarrow> (case err of None \<Rightarrow> Inr out | Some ierr \<Rightarrow> Inl ierr)))"

definition src_alias :: "source \<Rightarrow> string" where
  "src_alias src = ''_src_'' @ s_name src"

definition snapshot_stmt :: "string \<Rightarrow> qualTable \<Rightarrow> string" where
  "snapshot_stmt alias qt =
     ''CREATE OR REPLACE TABLE '' @ quoteIdent (qt_name qt) @ '' AS SELECT * FROM '' @
     quoteIdent alias @ ''.'' @ quoteIdent (qt_schema qt) @ ''.'' @ quoteIdent (qt_name qt)"

definition snapshot_table ::
  "'w env \<Rightarrow> source \<Rightarrow> 'w engine \<Rightarrow> qualTable \<Rightarrow> 'w engine \<times> go_error" where
  "snapshot_table X src e qt =
     (case e_seen e (qt_name qt) of
        Some prev \<Rightarrow> (print_log e (already_line (qt_name qt) prev (s_name src)), None)
      | None \<Rightarrow>
          (case run_exec X e (snapshot_stmt (src_alias src) qt) of
             (e', Some err) \<Rightarrow>
               (e', Some (''engine: snapshot table '' @ Quote (qt_name qt) @ '' from '' @
                          Quote (s_name src) @ '': '' @ err))
           | (e', None) \<Rightarrow> (claim_table e' (qt_name qt) (s_name src), None)))"

text \<open>The part of \<open>attachSnapshot\<close> after the ATTACH, with the deferred DETACH.\<close>

definition snapshot_attached :: "'w env \<Rightarrow> 'w engine \<Rightarrow> source \<Rightarrow> 'w engine \<times> go_error" where
  "snapshot_attached X e src =
     (let (e1, r) = attachedTables X e (src_alias src) (s_tables src);
          (e2, err) = (case r of
                         Inl terr \<Rightarrow> (e1, Some terr)
                       | Inr qts \<Rightarrow> each_until_error (snapshot_table X src) e1 qts);
          (e3, _) = run_exec X e2 (''DETACH '' @ quoteIdent (src_alias src))
      in (e3, err))"

definition attachSnapshot ::
  "'w env \<Rightarrow> 'w engine \<Rightarrow> source \<Rightarrow> string \<Rightarrow> string \<Rightarrow> 'w engine \<times> go_error" where
  "attachSnapshot X e src extension attachType =
     (if s_dsn src = [] then (e, Some (''engine: source '' @ Quote (s_name src) @ '': empty DSN''))
      else
        (case (if extension = [] then (e, None)
               else run_exec X e (''INSTALL '' @ extension @ ''; LOAD '' @ extension @ '';'')) of
           (e1, Some err) \<Rightarrow> (e1, Some (''engine: load '' @ extension @ '' extension: '' @ err))
         | (e1, None) \<Rightarrow>
             (case run_exec X e1 (''ATTACH '' @ sql_literal (s_dsn src) @ '' AS '' @
                     quoteIdent (src_alias src) @ '' (TYPE '' @ attachType @ '', READ_ONLY)'') of
                (e2, Some err) \<Rightarrow>
                  (e2, Some (''engine: attach source '' @ Quote (s_name src) @ '': '' @ err))
              | (e2, None) \<Rightarrow> snapshot_attached X e2 src)))"

section \<open>Snapshots of ClickHouse\<close>

definition unwrapType :: "string \<Rightarrow> string \<Rightarrow> string option" where
  "unwrapType s wrapper =
     (let pre = wrapper @ ''(''
      in if HasPrefix s pre \<and> HasSuffix s '')''
         then Some (take (length s - 1 - length pre) (drop (length pre) s)) else None)"

lemma unwrapType_shorter: "unwrapType s wrapper = Some t \<Longrightarrow> length t < length s"
  by (cases s) (auto simp: unwrapType_def Let_def HasPrefix_def split: if_splits)

text \<open>The loop of \<open>chToDuckType\<close> that removes the wrappers.\<close>

function unwrap_all :: "string \<Rightarrow> string" where
  "unwrap_all base =
     (case unwrapType base ''Nullable'' of
        Some inner \<Rightarrow> unwrap_all inner
      | None \<Rightarrow>
          (case unwrapType base ''LowCardinality'' of
             Some inner \<Rightarrow> unwrap_all inner
           | None \<Rightarrow> base))"
  by pat_completeness auto
termination
  by (relation "measure length") (auto dest: unwrapType_shorter)

declare unwrap_all.simps [simp del]

definition ch_type_table :: "(string \<times> string) list" where
  "ch_type_table =
     [(''UInt8'', ''UTINYINT''), (''UInt16'', ''USMALLINT''), (''UInt32'', ''UINTEGER''),
      (''UInt64'', ''UBIGINT''), (''Int8'', ''TINYINT''), (''Int16'', ''SMALLINT''),
      (''Int32'', ''INTEGER''), (''Int64'', ''BIGINT''), (''Float32'', ''FLOAT''),
      (''Float64'', ''DOUBLE''), (''Bool'', ''BOOLEAN''), (''Boolean'', ''BOOLEAN''),
      (''Date'', ''DATE''), (''Date32'', ''DATE''), (''DateTime'', ''TIMESTAMP''),
      (''DateTime64'', ''TIMESTAMP'')]"

definition chToDuckType :: "string \<Rightarrow> string" where
  "chToDuckType t =
     (let base = unwrap_all (TrimSpace t);
          name = cut_at (IndexByte base CHR ''('') base
      in case map_of ch_type_table name of Some d \<Rightarrow> d | None \<Rightarrow> ''VARCHAR'')"

definition normalizeForDuck :: "float_lib \<Rightarrow> value \<Rightarrow> value" where
  "normalizeForDuck F v =
     (case v of
        VBytes x \<Rightarrow> VString x
      | VBigInt i \<Rightarrow> VString (Sprint F v)
      | VOther s \<Rightarrow> VString (Sprint F v)
      | _ \<Rightarrow> v)"

definition quote_backtick :: "string \<Rightarrow> string" where
  "quote_backtick s = [CHR 0x60] @ ReplaceAllByte s CHR 0x60 [CHR 0x60, CHR 0x60] @ [CHR 0x60]"

interpretation backtick: sql_quoting "CHR 0x60" quote_backtick
  by unfold_locales (simp add: quote_backtick_def quote_doubled_def [symmetric] read_quoted_doubled)

definition create_stmt :: "string \<Rightarrow> string list \<Rightarrow> string list \<Rightarrow> string" where
  "create_stmt table names types =
     ''CREATE OR REPLACE TABLE '' @ quoteIdent table @ '' ('' @
     JoinStr (map (\<lambda>(n, t). quoteIdent n @ '' '' @ chToDuckType t) (zip names types)) '', '' @ '')''"

definition insert_stmt :: "string \<Rightarrow> nat \<Rightarrow> string" where
  "insert_stmt table n =
     ''INSERT INTO '' @ quoteIdent table @ '' VALUES ('' @
     TrimSuffix (concat (replicate n ''?,'')) '','' @ '')''"

text \<open>One turn of the row loop: scan, normalize, insert.\<close>

definition copy_row ::
  "'w env \<Rightarrow> string \<Rightarrow> nat \<Rightarrow> 'w engine \<Rightarrow> value list result \<Rightarrow> 'w engine \<times> go_error" where
  "copy_row X stmt n e r =
     (case scan_row n r of
        Inl err \<Rightarrow> (e, Some err)
      | Inr vals \<Rightarrow>
          (case x_insert X (e_db e) stmt (map (normalizeForDuck (x_floats X)) vals) of
             (w, err) \<Rightarrow> (e\<lparr>e_db := w\<rparr>, map_option (\<lambda>m. ''insert row: '' @ m) err)))"

definition copyClickhouseTable ::
  "'w env \<Rightarrow> string \<Rightarrow> 'w engine \<Rightarrow> string \<Rightarrow> 'w engine \<times> go_error" where
  "copyClickhouseTable X dsn e table =
     (case x_ch_query X dsn (''SELECT * FROM '' @ quote_backtick table) of
        Inl err \<Rightarrow> (e, Some err)
      | Inr r \<Rightarrow>
          (case (rw_columns r, rw_types r) of
             (Inl err, _) \<Rightarrow> (e, Some err)
           | (Inr names, Inl err) \<Rightarrow> (e, Some err)
           | (Inr names, Inr types) \<Rightarrow>
               (case run_exec X e (create_stmt table names types) of
                  (e1, Some err) \<Rightarrow> (e1, Some (''create table: '' @ err))
                | (e1, None) \<Rightarrow>
                    (let stmt = insert_stmt table (length names)
                     in case x_prepare X (e_db e1) stmt of
                          (w, Some err) \<Rightarrow> (e1\<lparr>e_db := w\<rparr>, Some (''prepare insert: '' @ err))
                        | (w, None) \<Rightarrow>
                            (case each_until_error (copy_row X stmt (length names))
                                    (e1\<lparr>e_db := w\<rparr>) (rw_scans r) of
                               (e2, Some err) \<Rightarrow> (e2, Some err)
                             | (e2, None) \<Rightarrow> (e2, rw_err r))))))"

definition scan_string :: "float_lib \<Rightarrow> value list result \<Rightarrow> string result" where
  "scan_string F r =
     (case scan_row 1 r of
        Inl err \<Rightarrow> Inl err
      | Inr vals \<Rightarrow>
          (case vals of
             [VNil] \<Rightarrow> Inl ''sql: converting NULL to string is unsupported''
           | [VBytes b] \<Rightarrow> Inr b
           | v # _ \<Rightarrow> Inr (Sprint F v)
           | [] \<Rightarrow> Inr []))"

fun scan_strings :: "float_lib \<Rightarrow> value list result list \<Rightarrow> string list result" where
  "scan_strings F [] = Inr []"
| "scan_strings F (r # rs) =
     (case scan_string F r of
        Inl err \<Rightarrow> Inl err
      | Inr s \<Rightarrow> (case scan_strings F rs of Inl err \<Rightarrow> Inl err | Inr out \<Rightarrow> Inr (s # out)))"

definition clickhouseTables :: "'w env \<Rightarrow> string \<Rightarrow> string list \<Rightarrow> string list result" where
  "clickhouseTables X dsn allow =
     (if allow \<noteq> [] then Inr allow
      else case x_ch_query X dsn
             ''SELECT name FROM system.tables WHERE database = currentDatabase() ORDER BY name'' of
             Inl err \<Rightarrow> Inl (''list clickhouse tables: '' @ err)
           | Inr r \<Rightarrow>
               (case scan_strings (x_floats X) (rw_scans r) of
                  Inl err \<Rightarrow> Inl err
                | Inr out \<Rightarrow> (case rw_err r of None \<Rightarrow> Inr out | Some err \<Rightarrow> Inl err)))"

definition pull_table ::
  "'w env \<Rightarrow> source \<Rightarrow> 'w engine \<Rightarrow> string \<Rightarrow> 'w engine \<times> go_error" where
  "pull_table X src e t =
     (case e_seen e t of
        Some prev \<Rightarrow> (print_log e (already_line t prev (s_name src)), None)
      | None \<Rightarrow>
          (case copyClickhouseTable X (s_dsn src) e t of
             (e', Some err) \<Rightarrow>
               (e', Some (''engine: source '' @ Quote (s_name src) @ '': copy table '' @ Quote t @
                          '': '' @ err))
           | (e', None) \<Rightarrow> (claim_table e' t (s_name src), None)))"

definition clickhousePull :: "'w env \<Rightarrow> 'w engine \<Rightarrow> source \<Rightarrow> 'w engine \<times> go_error" where
  "clickhousePull X e src =
     (let pre = ''engine: source '' @ Quote (s_name src) @ '': ''
      in if s_dsn src = [] then (e, Some (pre @ ''empty DSN''))
         else case x_ch_connect X (s_dsn src) of
                Some (Inl err) \<Rightarrow> (e, Some (pre @ ''parse clickhouse dsn: '' @ err))
              | Some (Inr err) \<Rightarrow> (e, Some (pre @ ''connect clickhouse: '' @ err))
              | None \<Rightarrow>
                  (case clickhouseTables X (s_dsn src) (s_tables src) of
                     Inl err \<Rightarrow> (e, Some (pre @ err))
                   | Inr ts \<Rightarrow> each_until_error (pull_table X src) e ts))"

section \<open>Loading all sources\<close>

definition load :: "'w env \<Rightarrow> 'w engine \<Rightarrow> source \<Rightarrow> 'w engine \<times> go_error" where
  "load X e src =
     (if s_type src = ''dir'' then loadDir X e src
      else if s_type src = ''parquet''
        then register X e (fileTable (s_path src), parquet_reader (s_path src), s_path src)
      else if s_type src = ''csv''
        then register X e (fileTable (s_path src), csv_reader (s_path src), s_path src)
      else if s_type src = ''postgres'' then attachSnapshot X e src ''postgres'' ''postgres''
      else if s_type src = ''mysql'' then attachSnapshot X e src ''mysql'' ''mysql''
      else if s_type src = ''clickhouse'' then clickhousePull X e src
      else (e, Some (''engine: source '' @ Quote (s_name src) @ '': unknown type '' @
                     Quote (s_type src))))"

definition fresh_engine :: "'w \<Rightarrow> 'w engine" where
  "fresh_engine w =
     \<lparr>e_db = w, e_tables = [], e_seen = Map.empty, e_stub = False, e_logged = None, e_log = []\<rparr>"

definition NewFromSourcesAt :: "'w env \<Rightarrow> string \<Rightarrow> source list \<Rightarrow> 'w engine result" where
  "NewFromSourcesAt X path sources =
     (case x_open X path of
        Inl err \<Rightarrow> Inl (''engine: open duckdb: '' @ err)
      | Inr w \<Rightarrow>
          (case each_until_error (load X) (fresh_engine w) sources of
             (e, Some err) \<Rightarrow> Inl err
           | (e, None) \<Rightarrow> Inr (e\<lparr>e_tables := sort (e_tables e)\<rparr>)))"

definition NewFromSources :: "'w env \<Rightarrow> source list \<Rightarrow> 'w engine result" where
  "NewFromSources X sources = NewFromSourcesAt X [] sources"

definition New_dir :: "'w env \<Rightarrow> string \<Rightarrow> 'w engine result" where
  "New_dir X dataDir =
     NewFromSources X [\<lparr>s_name = ''data'', s_type = ''dir'', s_path = dataDir, s_dsn = [], s_tables = []\<rparr>]"

section \<open>Looking at the engine\<close>

definition Tables :: "'w engine \<Rightarrow> string list" where
  "Tables e = e_tables e"

definition engine_Query :: "'w env \<Rightarrow> 'w engine \<Rightarrow> string \<Rightarrow> 'w engine \<times> rows result" where
  "engine_Query X e query = (case x_query X (e_db e) Pool query of (w, r) \<Rightarrow> (e\<lparr>e_db := w\<rparr>, r))"

text \<open>
  \<open>Describe\<close> scans every column into a \<open>sql.NullString\<close>, whose string is empty for NULL, and
  reads the first two; with fewer columns it would panic, which is the result \<open>None\<close>.
\<close>

definition null_string :: "float_lib \<Rightarrow> value \<Rightarrow> string" where
  "null_string F v = (case v of VNil \<Rightarrow> [] | VBytes b \<Rightarrow> b | _ \<Rightarrow> Sprint F v)"

fun describe_rows :: "float_lib \<Rightarrow> nat \<Rightarrow> value list result list \<Rightarrow> column list result option" where
  "describe_rows F n [] = Some (Inr [])"
| "describe_rows F n (r # rs) =
     (case scan_row n r of
        Inl err \<Rightarrow> Some (Inl err)
      | Inr vals \<Rightarrow>
          (case map (null_string F) vals of
             name # type # _ \<Rightarrow>
               map_option (map_sum id ((#) \<lparr>c_name = name, c_type = type\<rparr>)) (describe_rows F n rs)
           | _ \<Rightarrow> None))"

definition engine_Describe ::
  "'w env \<Rightarrow> 'w engine \<Rightarrow> string \<Rightarrow> 'w engine \<times> column list result option" where
  "engine_Describe X e table =
     (case engine_Query X e (''DESCRIBE '' @ quoteIdent table) of
        (e1, Inl err) \<Rightarrow> (e1, Some (Inl (''engine: describe '' @ Quote table @ '': '' @ err)))
      | (e1, Inr r) \<Rightarrow>
          (e1, case rw_columns r of
                 Inl err \<Rightarrow> Some (Inl err)
               | Inr cols \<Rightarrow>
                   (case describe_rows (x_floats X) (length cols) (rw_scans r) of
                      Some (Inr out) \<Rightarrow>
                        Some (case rw_err r of None \<Rightarrow> Inr out | Some err \<Rightarrow> Inl err)
                    | res \<Rightarrow> res)))"

section \<open>Frames and claims\<close>

lemma print_log_frame [frame_simps]:
  "e_tables (print_log e l) = e_tables e" "e_seen (print_log e l) = e_seen e"
  "e_db (print_log e l) = e_db e" "e_stub (print_log e l) = e_stub e"
  by (simp_all add: print_log_def)

lemma run_exec_frame:
  assumes "run_exec X e stmt = (e', err)"
  shows "e_tables e' = e_tables e" and "e_seen e' = e_seen e"
  using assms by (auto simp: run_exec_def split: prod.splits)

lemma claim_table_frame [frame_simps]:
  "e_seen (claim_table e t orig) = (e_seen e)(t \<mapsto> orig)"
  "e_tables (claim_table e t orig) = e_tables e @ [t]"
  "e_db (claim_table e t orig) = e_db e"
  by (simp_all add: claim_table_def)

lemma copy_row_frame:
  "e_tables (fst (copy_row X stmt n e r)) = e_tables e"
  "e_seen (fst (copy_row X stmt n e r)) = e_seen e"
  by (auto simp: copy_row_def split: sum.splits prod.splits)

lemma copy_rows_frame:
  "e_tables (fst (each_until_error (copy_row X stmt n) e rs)) = e_tables e \<and>
   e_seen (fst (each_until_error (copy_row X stmt n) e rs)) = e_seen e"
  by (rule each_until_error_inv
      [where P = "\<lambda>e'. e_tables e' = e_tables e \<and> e_seen e' = e_seen e"])
    (simp_all add: copy_row_frame)

lemma copyClickhouseTable_frame:
  assumes "copyClickhouseTable X dsn e t = (e', err)"
  shows "e_tables e' = e_tables e" and "e_seen e' = e_seen e"
proof -
  have "e_tables e' = e_tables e \<and> e_seen e' = e_seen e"
  proof (rule ccontr)
    assume neg: "\<not> ?thesis"
    note frames = run_exec_frame copy_rows_frame [THEN conjunct1] copy_rows_frame [THEN conjunct2]
    from assms neg obtain r where r: "x_ch_query X dsn (''SELECT * FROM '' @ quote_backtick t) = Inr r"
      by (auto simp: copyClickhouseTable_def split: sum.splits)
    from assms neg r obtain names types where nt: "rw_columns r = Inr names" "rw_types r = Inr types"
      by (auto simp: copyClickhouseTable_def split: sum.splits)
    obtain e1 err1 where e1: "run_exec X e (create_stmt t names types) = (e1, err1)" by force
    note f1 = run_exec_frame [OF e1]
    from assms neg r nt e1 f1 have "err1 = None"
      by (auto simp: copyClickhouseTable_def split: option.splits)
    let ?stmt = "insert_stmt t (length names)"
    obtain w err2 where p: "x_prepare X (e_db e1) ?stmt = (w, err2)" by force
    from assms neg r nt e1 f1 p \<open>err1 = None\<close> have "err2 = None"
      by (auto simp: copyClickhouseTable_def Let_def split: option.splits)
    with assms r nt e1 p \<open>err1 = None\<close>
    have "e' = fst (each_until_error (copy_row X ?stmt (length names)) (e1\<lparr>e_db := w\<rparr>) (rw_scans r))"
      by (auto simp: copyClickhouseTable_def Let_def split: option.splits prod.splits)
    with copy_rows_frame [of X ?stmt "length names" "e1\<lparr>e_db := w\<rparr>" "rw_scans r"] f1 neg
    show False by simp
  qed
  then show "e_tables e' = e_tables e" and "e_seen e' = e_seen e" by simp_all
qed

text \<open>
  Each of the three loops makes claims of one shape: skip a taken name, else perform an
  action that does not touch the registry, and enter the name when the action succeeded.
\<close>

definition claim_step ::
  "('w engine \<Rightarrow> 'w engine \<times> go_error) \<Rightarrow> (string \<Rightarrow> string) \<Rightarrow> 'w engine \<Rightarrow> string \<Rightarrow> string
    \<Rightarrow> 'w engine \<times> go_error" where
  "claim_step act wrap e t orig =
     (case e_seen e t of
        Some prev \<Rightarrow> (print_log e (already_line t prev orig), None)
      | None \<Rightarrow>
          (case act e of
             (e', Some err) \<Rightarrow> (e', Some (wrap err))
           | (e', None) \<Rightarrow> (claim_table e' t orig, None)))"

definition registry_frame :: "('w engine \<Rightarrow> 'w engine \<times> go_error) \<Rightarrow> bool" where
  "registry_frame act \<longleftrightarrow>
     (\<forall>e. e_tables (fst (act e)) = e_tables e \<and> e_seen (fst (act e)) = e_seen e)"

lemma registry_frameD:
  "registry_frame act \<Longrightarrow> act e = (e', err) \<Longrightarrow> e_tables e' = e_tables e"
  "registry_frame act \<Longrightarrow> act e = (e', err) \<Longrightarrow> e_seen e' = e_seen e"
  by (metis fst_conv registry_frame_def)+

lemma registry_frame_exec: "registry_frame (\<lambda>e. run_exec X e stmt)"
  by (simp add: registry_frame_def run_exec_def split: prod.split)

lemma registry_frame_copy: "registry_frame (\<lambda>e. copyClickhouseTable X dsn e t)"
  unfolding registry_frame_def by (metis copyClickhouseTable_frame prod.collapse)

lemma claim_step_taken:
  "e_seen e t = Some prev \<Longrightarrow>
    claim_step act wrap e t orig = (print_log e (already_line t prev orig), None)"
  by (simp add: claim_step_def)

lemma claim_step_fresh:
  assumes "registry_frame act" and "e_seen e t = None" and "claim_step act wrap e t orig = (e', err)"
  shows "e_seen e' = (if err = None then (e_seen e)(t \<mapsto> orig) else e_seen e)"
    and "e_tables e' = (if err = None then e_tables e @ [t] else e_tables e)"
proof -
  obtain e1 err1 where e1: "act e = (e1, err1)" by force
  from registry_frameD [OF assms(1) e1] assms(2,3) e1
  show "e_seen e' = (if err = None then (e_seen e)(t \<mapsto> orig) else e_seen e)"
    and "e_tables e' = (if err = None then e_tables e @ [t] else e_tables e)"
    by (cases err1; fastforce simp: claim_step_def frame_simps)+
qed

lemma register_claim:
  "register X e item = claim_step (\<lambda>e. run_exec X e (view_stmt (fst item) (fst (snd item))))
     (\<lambda>err. ''engine: register view '' @ Quote (fst item) @ '': '' @ err) e (fst item)
     (snd (snd item))"
proof -
  obtain t r orig where "item = (t, r, orig)" by (metis prod.exhaust)
  then show ?thesis by (simp only: register_def claim_step_def prod.case fst_conv snd_conv)
qed

lemma snapshot_table_claim:
  "snapshot_table X src e qt = claim_step (\<lambda>e. run_exec X e (snapshot_stmt (src_alias src) qt))
     (\<lambda>err. ''engine: snapshot table '' @ Quote (qt_name qt) @ '' from '' @ Quote (s_name src) @
            '': '' @ err) e (qt_name qt) (s_name src)"
  by (simp only: snapshot_table_def claim_step_def)

lemma pull_table_claim:
  "pull_table X src e t = claim_step (\<lambda>e. copyClickhouseTable X (s_dsn src) e t)
     (\<lambda>err. ''engine: source '' @ Quote (s_name src) @ '': copy table '' @ Quote t @ '': '' @ err)
     e t (s_name src)"
  by (simp only: pull_table_def claim_step_def)

lemmas claim_forms = register_claim snapshot_table_claim pull_table_claim

text \<open>So each of them satisfies the contract: the first claim on a name wins.\<close>

lemma first_claimI:
  fixes claim :: "'w engine \<Rightarrow> 'i \<Rightarrow> 'w engine \<times> go_error"
  assumes "\<And>i. registry_frame (act i)"
    and "\<And>e i. claim e i = claim_step (act i) (wrap i) e (name i) (orig i)"
  shows "first_claim claim name orig e_seen"
proof
  fix e :: "'w engine" and i prev
  assume "e_seen e (name i) = Some prev"
  then show "snd (claim e i) = None \<and> e_seen (fst (claim e i)) = e_seen e"
    by (simp add: assms(2) claim_step_taken frame_simps)
next
  fix e e' :: "'w engine" and i
  assume "e_seen e (name i) = None" and "claim e i = (e', None)"
  then show "e_seen e' = (e_seen e)(name i \<mapsto> orig i)"
    using claim_step_fresh(1) [OF assms(1)] by (simp add: assms(2))
next
  fix e e' :: "'w engine" and i err
  assume c: "claim e i = (e', Some err)"
  show "e_seen e' = e_seen e"
  proof (cases "e_seen e (name i)")
    case None
    then show ?thesis
      using c claim_step_fresh(1) [OF assms(1) None, of i "wrap i" "orig i" e'] by (simp add: assms(2))
  next
    case (Some prev)
    then show ?thesis using c by (simp add: assms(2) claim_step_taken)
  qed
qed

interpretation view: first_claim "register X" fst "\<lambda>item. snd (snd item)" e_seen
  by (rule first_claimI [OF registry_frame_exec register_claim])

interpretation snapshot: first_claim "snapshot_table X src" qt_name "\<lambda>_. s_name src" e_seen
  by (rule first_claimI [OF registry_frame_exec snapshot_table_claim])

interpretation pull: first_claim "pull_table X src" "\<lambda>t. t" "\<lambda>_. s_name src" e_seen
  by (rule first_claimI [OF registry_frame_copy pull_table_claim])

section \<open>The table registry\<close>

text \<open>The list of tables has no duplicates and holds exactly the claimed names.\<close>

definition engine_ok :: "'w engine \<Rightarrow> bool" where
  "engine_ok e \<longleftrightarrow> distinct (e_tables e) \<and> set (e_tables e) = dom (e_seen e)"

text \<open>A step of the registry keeps \<open>engine_ok\<close> and never takes a name from its owner.\<close>

definition registry_step :: "'w engine \<Rightarrow> 'w engine \<Rightarrow> bool" where
  "registry_step e e' \<longleftrightarrow> (engine_ok e \<longrightarrow> engine_ok e') \<and> e_seen e \<subseteq>\<^sub>m e_seen e'"

lemma registry_step_refl [simp]: "registry_step e e"
  by (simp add: registry_step_def)

lemma registry_step_trans: "registry_step e e1 \<Longrightarrow> registry_step e1 e2 \<Longrightarrow> registry_step e e2"
  by (auto simp: registry_step_def intro: map_le_trans)

lemma registry_step_same:
  "e_tables e' = e_tables e \<Longrightarrow> e_seen e' = e_seen e \<Longrightarrow> registry_step e e'"
  by (simp add: registry_step_def engine_ok_def)

lemma registry_step_exec: "registry_step e (fst (run_exec X e stmt))"
  using registry_frame_exec [of X stmt] by (simp add: registry_frame_def registry_step_same)

lemma registry_step_claim:
  assumes "registry_frame act"
  shows "registry_step e (fst (claim_step act wrap e t orig))"
proof (cases "e_seen e t")
  case None
  obtain e' err where e': "claim_step act wrap e t orig = (e', err)" by force
  from claim_step_fresh [OF assms None e'] None show ?thesis
    by (cases err) (auto simp: e' registry_step_def engine_ok_def map_le_def)
next
  case (Some prev)
  then show ?thesis by (simp add: claim_step_taken registry_step_same frame_simps)
qed

lemma registry_step_each:
  assumes "\<And>e i. registry_step e (fst (f e i))"
  shows "registry_step e (fst (each_until_error f e is))"
  by (rule each_until_error_inv [where P = "registry_step e"])
    (auto intro: registry_step_trans assms)

lemma registry_step_items:
  "registry_step e (fst (register X e item))"
  "registry_step e (fst (snapshot_table X src e qt))"
  "registry_step e (fst (pull_table X src e t))"
  by (simp_all add: claim_forms registry_step_claim registry_frame_exec registry_frame_copy)

lemmas registry_step_loops =
  registry_step_each [where f = "register X" for X, OF registry_step_items(1)]
  registry_step_each [where f = "snapshot_table X src" for X src, OF registry_step_items(2)]
  registry_step_each [where f = "pull_table X src" for X src, OF registry_step_items(3)]

lemma registry_step_loadDir: "registry_step e (fst (loadDir X e src))"
  by (simp add: loadDir_def registry_step_loops split: sum.split)

lemma registry_step_db [simp]: "registry_step e (e\<lparr>e_db := w\<rparr>)"
  by (simp add: registry_step_same)

lemma registry_step_attachedTables: "registry_step e (fst (attachedTables X e alias allow))"
  by (simp add: attachedTables_def split: prod.split sum.split)

lemma registry_step_snapshot: "registry_step e (fst (snapshot_attached X e src))"
proof -
  obtain e1 r where e1: "attachedTables X e (src_alias src) (s_tables src) = (e1, r)" by force
  define body where "body = (case r of
      Inl terr \<Rightarrow> (e1, Some terr)
    | Inr qts \<Rightarrow> each_until_error (snapshot_table X src) e1 qts)"
  obtain e2 err where e2: "body = (e2, err)" by force
  have "registry_step e1 (fst body)"
    by (simp add: body_def registry_step_loops split: sum.split)
  then have "registry_step e1 e2" by (simp add: e2)
  moreover have "registry_step e e1"
    using registry_step_attachedTables [of e X "src_alias src" "s_tables src"] by (simp add: e1)
  ultimately have "registry_step e e2" by (blast intro: registry_step_trans)
  then have "registry_step e (fst (run_exec X e2 stmt))" for stmt
    by (rule registry_step_trans) (rule registry_step_exec)
  moreover have "fst (snapshot_attached X e src) =
      fst (run_exec X e2 (''DETACH '' @ quoteIdent (src_alias src)))"
    using e2 unfolding body_def snapshot_attached_def Let_def e1
    by (simp split: prod.split)
  ultimately show ?thesis by simp
qed

lemma registry_step_attach: "registry_step e (fst (attachSnapshot X e src extension attachType))"
proof -
  have step: "run_exec X e0 s = (e1, err) \<Longrightarrow> registry_step e0 e1" for e0 s e1 err
    by (metis fst_conv registry_step_exec)
  show ?thesis
    by (auto simp: attachSnapshot_def registry_step_snapshot split: prod.splits option.splits if_splits
        intro: registry_step_trans dest!: step)
qed

lemma registry_step_pull: "registry_step e (fst (clickhousePull X e src))"
  by (simp add: clickhousePull_def Let_def registry_step_loops split: sum.split option.split)

lemma registry_step_load: "registry_step e (fst (load X e src))"
  by (simp add: load_def registry_step_loadDir registry_step_attach registry_step_pull
      registry_step_items)

lemma engine_ok_fresh [simp]: "engine_ok (fresh_engine w)"
  by (simp add: engine_ok_def fresh_engine_def)

interpretation loads: started_machine "\<lambda>e src. fst (load X e src)" engine_ok "fresh_engine w"
  by unfold_locales (use registry_step_load in \<open>auto simp: registry_step_def\<close>)

lemma registry_step_loads: "registry_step e (fst (each_until_error (load X) e srcs))"
  by (rule registry_step_each) (rule registry_step_load)

section \<open>Attaching and detaching\<close>

lemma detach_last:
  "\<exists>e1. fst (snapshot_attached X e src) =
    fst (run_exec X e1 (''DETACH '' @ quoteIdent (src_alias src)))"
  unfolding snapshot_attached_def Let_def by (simp split: prod.split) (metis fst_conv)

lemma e_db_run_exec: "e_db (fst (run_exec X e stmt)) = fst (x_exec X (e_db e) stmt)"
  by (simp add: run_exec_def split: prod.split)

definition attach_stmt :: "source \<Rightarrow> string \<Rightarrow> string" where
  "attach_stmt src attachType =
     ''ATTACH '' @ sql_literal (s_dsn src) @ '' AS '' @ quoteIdent (src_alias src) @
     '' (TYPE '' @ attachType @ '', READ_ONLY)''"

section \<open>ClickHouse type names\<close>

definition wrap_type :: "string \<Rightarrow> string \<Rightarrow> string" where
  "wrap_type w t = w @ ''('' @ t @ '')''"

lemma unwrapType_wrap: "unwrapType (wrap_type w t) w = Some t"
  by (simp add: unwrapType_def wrap_type_def HasPrefix_def HasSuffix_def Let_def)

lemma unwrap_all_wrap:
  assumes "w = ''Nullable'' \<or> w = ''LowCardinality''"
  shows "unwrap_all (wrap_type w t) = unwrap_all t"
proof -
  have "unwrapType (wrap_type ''LowCardinality'' t) ''Nullable'' = None"
    by (simp add: unwrapType_def wrap_type_def HasPrefix_def)
  then show ?thesis
    using assms by (subst unwrap_all.simps) (auto simp: unwrapType_wrap)
qed

lemma TrimSpace_wrap:
  assumes "w = ''Nullable'' \<or> w = ''LowCardinality''"
  shows "TrimSpace (wrap_type w t) = wrap_type w t"
  by (rule TrimSpace_visible) (use assms in \<open>auto simp: wrap_type_def visible_def less_char_def\<close>)

section \<open>Properties\<close>

text \<open>C16. Whatever sources are loaded in whatever order, and whether or not one of them fails,
  no table ever changes hands: a name keeps the source that claimed it first, and the table
  list stays free of duplicates and equal to the set of claimed names.\<close>

theorem loads_keep_owners:
  "e_seen e \<subseteq>\<^sub>m e_seen (fst (each_until_error (load X) e srcs)) \<and>
    (engine_ok e \<longrightarrow> engine_ok (fst (each_until_error (load X) e srcs)))"
  using registry_step_loads [of e X srcs] by (simp add: registry_step_def)

definition two_sources :: "source list" where
  "two_sources =
     [\<lparr>s_name = ''p'', s_type = ''parquet'', s_path = ''x/users.parquet'', s_dsn = [], s_tables = []\<rparr>,
      \<lparr>s_name = ''c'', s_type = ''csv'', s_path = ''y/users.csv'', s_dsn = [], s_tables = []\<rparr>]"

lemma loads_keep_owners_witness:
  "engine_ok (fst (each_until_error (load (demo_env (\<lambda>s. Inl []))) (demo_engine False) two_sources))"
  using loads_keep_owners [of "demo_engine False" "demo_env (\<lambda>s. Inl [])" two_sources]
  by (simp add: engine_ok_def demo_engine_def)

text \<open>C17. An engine that starts lists its tables sorted, without duplicates, and exactly the
  names that some source claimed.\<close>

theorem NewFromSourcesAt_tables:
  assumes "NewFromSourcesAt X path srcs = Inr e"
  shows "sorted_wrt (<) (e_tables e) \<and> set (e_tables e) = dom (e_seen e)"
proof -
  obtain w e1 where "each_until_error (load X) (fresh_engine w) srcs = (e1, None)"
    and e: "e = e1\<lparr>e_tables := sort (e_tables e1)\<rparr>"
    using assms by (auto simp: NewFromSourcesAt_def split: sum.splits prod.splits option.splits)
  with registry_step_loads [of "fresh_engine w" X srcs] have "engine_ok e1"
    by (simp add: registry_step_def)
  then show ?thesis
    by (simp add: e engine_ok_def sorted_distinct_strict)
qed

lemma NewFromSourcesAt_tables_witness:
  "\<exists>e. NewFromSourcesAt (demo_env (\<lambda>s. Inl [])) ''f.db'' two_sources = Inr e \<and>
    sorted_wrt (<) (e_tables e) \<and> e_tables e = [''users'']"
proof -
  let ?r = "NewFromSourcesAt (demo_env (\<lambda>s. Inl [])) ''f.db'' two_sources"
  have ok: "map_sum (\<lambda>x. x) e_tables ?r = Inr [''users'']"
    by code_simp
  then obtain e where e: "?r = Inr e" and "e_tables e = [''users'']"
    by (cases ?r) auto
  with NewFromSourcesAt_tables [OF e] show ?thesis by blast
qed



text \<open>C19. Once a source is attached it is detached again, whatever happens in between: the
  last statement that the loader executes is the DETACH of its alias.\<close>

theorem attached_is_detached:
  assumes "s_dsn src \<noteq> []"
    and "(if extension = [] then (e, None)
          else run_exec X e (''INSTALL '' @ extension @ ''; LOAD '' @ extension @ '';'')) = (e1, None)"
    and "run_exec X e1 (attach_stmt src attachType) = (e2, None)"
  shows "\<exists>w. e_db (fst (attachSnapshot X e src extension attachType)) =
    fst (x_exec X w (''DETACH '' @ quoteIdent (src_alias src)))"
proof -
  obtain e1 where "fst (snapshot_attached X e2 src) =
      fst (run_exec X e1 (''DETACH '' @ quoteIdent (src_alias src)))"
    using detach_last by blast
  then show ?thesis
    using assms by (auto simp: attachSnapshot_def attach_stmt_def e_db_run_exec)
qed

definition pg_source :: source where
  "pg_source = \<lparr>s_name = ''o'', s_type = ''postgres'', s_path = [], s_dsn = ''h'', s_tables = []\<rparr>"

text \<open>A world whose only failing statements are snapshots: the DETACH still comes last.\<close>

definition failing_env :: "string list env" where
  "failing_env =
     (demo_env (\<lambda>s. Inl []))\<lparr>x_exec := (\<lambda>w s. (w @ [s], if HasPrefix s ''CREATE'' then Some ''no'' else None))\<rparr>"

lemma attached_is_detached_witness:
  "\<exists>w. e_db (fst (attachSnapshot failing_env (demo_engine False) pg_source ''postgres'' ''postgres'')) =
    fst (x_exec failing_env w (''DETACH '' @ quoteIdent (src_alias pg_source)))"
proof (rule attached_is_detached)
  show "s_dsn pg_source \<noteq> []" by (simp add: pg_source_def)
  let ?e1 = "(demo_engine False)\<lparr>e_db := [''INSTALL postgres; LOAD postgres;'']\<rparr>"
  show "(if ''postgres'' = [] then (demo_engine False, None)
      else run_exec failing_env (demo_engine False) (''INSTALL '' @ ''postgres'' @ ''; LOAD '' @ ''postgres'' @ '';'')) = (?e1, None)"
    by (simp add: run_exec_def failing_env_def demo_env_def demo_engine_def HasPrefix_def)
  show "run_exec failing_env ?e1 (attach_stmt pg_source ''postgres'') =
      (?e1\<lparr>e_db := e_db ?e1 @ [attach_stmt pg_source ''postgres'']\<rparr>, None)"
    by (simp add: run_exec_def failing_env_def HasPrefix_def attach_stmt_def)
qed


text \<open>A type wrapped any number of times in Nullable and LowCardinality is stored with
  the DuckDB type of the innermost type.\<close>

theorem chToDuckType_wrappers:
  assumes "set ws \<subseteq> {''Nullable'', ''LowCardinality''}" and "TrimSpace t = t"
  shows "chToDuckType (foldr wrap_type ws t) = chToDuckType t"
proof -
  have "unwrap_all (foldr wrap_type ws t) = unwrap_all t \<and>
      TrimSpace (foldr wrap_type ws t) = foldr wrap_type ws t"
    using assms by (induction ws) (auto simp: unwrap_all_wrap TrimSpace_wrap)
  with assms(2) show ?thesis by (simp add: chToDuckType_def)
qed

lemma chToDuckType_wrappers_witness:
  "chToDuckType (foldr wrap_type [''LowCardinality'', ''Nullable''] ''Int64'') = ''BIGINT''"
proof -
  have "TrimSpace ''Int64'' = ''Int64''" and "chToDuckType ''Int64'' = ''BIGINT''"
    by code_simp+
  then show ?thesis
    using chToDuckType_wrappers [of "[''LowCardinality'', ''Nullable'']" "''Int64''"] by simp
qed

text \<open>The allow list of a database source: without one every table of the attached
  database is taken, with one exactly the tables whose bare name or schema-qualified name
  equals an entry up to letter case, in the order the database lists them.\<close>

theorem attachedTables_selects:
  assumes "x_tables X (e_db e) alias = (w, Inr (map Inr ts, None))"
  shows "attachedTables X e alias allow =
    (e\<lparr>e_db := w\<rparr>, Inr (map (\<lambda>(s, n). \<lparr>qt_schema = s, qt_name = n\<rparr>)
      (filter (\<lambda>(s, n). allow = [] \<or>
         (\<exists>a \<in> set allow. ToLower a = ToLower n \<or> ToLower a = ToLower (s @ ''.'' @ n))) ts)))"
proof -
  have allowed: "allowed allow s n \<longleftrightarrow> allow = [] \<or>
      (\<exists>a \<in> set allow. ToLower a = ToLower n \<or> ToLower a = ToLower (s @ ''.'' @ n))" for s n
    by (auto simp: allowed_def Let_def image_iff) metis+
  have "scan_tables allow (map Inr ts) = Inr (map (\<lambda>(s, n). \<lparr>qt_schema = s, qt_name = n\<rparr>)
      (filter (\<lambda>(s, n). allowed allow s n) ts))"
    by (induction ts) (auto split: prod.split)
  then show ?thesis using assms by (simp add: attachedTables_def allowed)
qed

lemma attachedTables_selects_witness:
  "snd (attachedTables (demo_env (\<lambda>s. Inl [])) (demo_engine False) ''a'' [''MAIN.T'']) =
    Inr [\<lparr>qt_schema = ''main'', qt_name = ''t''\<rparr>]"
proof -
  have "ToLower ''MAIN.T'' = ToLower (''main'' @ ''.'' @ ''t'')" by code_simp
  then show ?thesis
    using attachedTables_selects [of "demo_env (\<lambda>s. Inl [])" "demo_engine False" "''a''" "[]"
        "[(''main'', ''t'')]" "[''MAIN.T'']"]
    by (simp add: demo_env_def demo_engine_def)
qed

end
