(* ===== verification/Config.thy ===== *)
theory Config
  imports GoNumbers "HOL-Library.AList"
begin

text \<open>
  Package \<open>config\<close>, file internal/config/config.go: the configuration that the command line
  or the configuration file yields. A Go map is an association list without duplicate keys;
  its order is the order in which a \<open>range\<close> loop visits the entries, which Go leaves open, so
  a property that quantifies over the list covers every order. Assigning \<open>m[k] = v\<close> is
  \<open>AList.update\<close>. Parsing the HUML text is go-huml's and a parameter of \<open>Load\<close>.
\<close>

section \<open>The configuration\<close>

record config_source =
  cs_type :: string
  cs_path :: string
  cs_dsn :: string
  cs_dsn_env :: string
  cs_tables :: "string list"

record sql_instance =
  si_port :: int
  si_sources :: "string list"

record redis_instance =
  ri_port :: int
  ri_dump :: string

record spoof =
  sp_postgres :: "(string \<times> sql_instance) list"
  sp_mysql :: "(string \<times> sql_instance) list"
  sp_clickhouse :: "(string \<times> sql_instance) list"

record config =
  cf_sources :: "(string \<times> config_source) list"
  cf_spoof :: spoof
  cf_redis :: "(string \<times> redis_instance) list"

text \<open>\<open>os.Getenv\<close> returns the empty string for a variable that is not set.\<close>

definition ResolvedDSN :: "(string \<Rightarrow> string) \<Rightarrow> config_source \<Rightarrow> string" where
  "ResolvedDSN getenv s =
     (if cs_dsn_env s \<noteq> [] \<and> getenv (cs_dsn_env s) \<noteq> [] then getenv (cs_dsn_env s) else cs_dsn s)"

text \<open>\<open>Load\<close>, with the file system and go-huml's parser as parameters.\<close>

definition Load :: "(string \<Rightarrow> string result) \<Rightarrow> (string \<Rightarrow> config result) \<Rightarrow> string \<Rightarrow> config result" where
  "Load readFile unmarshal path =
     (case readFile path of
        Inl err \<Rightarrow> Inl (''config: read '' @ path @ '': '' @ err)
      | Inr data \<Rightarrow>
          (case unmarshal data of
             Inl err \<Rightarrow> Inl (''config: parse '' @ path @ '': '' @ err)
           | Inr cfg \<Rightarrow> Inr cfg))"

section \<open>Sorted keys\<close>

definition sortedKeys :: "(string \<times> 'v) list \<Rightarrow> string list" where
  "sortedKeys m = sort (map fst m)"

lemma sortedKeys_set [simp]: "set (sortedKeys m) = fst ` set m"
  by (simp add: sortedKeys_def)

lemma sortedKeys_strict:
  "distinct (map fst m) \<Longrightarrow> sorted_wrt (<) (sortedKeys m)"
  by (simp add: sortedKeys_def sorted_distinct_strict)

lemma sortedKeys_order: "mset m = mset m' \<Longrightarrow> sortedKeys m = sortedKeys m'"
  unfolding sortedKeys_def by (metis mset_map sorted_list_of_multiset_mset)

lemma map_of_order:
  assumes "mset m = mset m'" and "distinct (map fst m)"
  shows "map_of m = map_of m'"
proof -
  have "distinct (map fst m')" and "set m = set m'"
    using assms by (metis mset_eq_imp_distinct_iff mset_map, metis set_mset_mset)
  with assms(2) show ?thesis
    by (metis map_of_inject_set)
qed

lemma update_fresh: "k \<notin> fst ` set m \<Longrightarrow> AList.update k v m = m @ [(k, v)]"
  by (induction m) auto

section \<open>Numbered entries\<close>

text \<open>The entries \<open>pre0\<close>, \<open>pre1\<close>, and so on, as the loops over the flags name them.\<close>

definition numbered :: "string \<Rightarrow> 'v list \<Rightarrow> (string \<times> 'v) list" where
  "numbered pre xs = map (\<lambda>(i, x). (pre @ show_nat i, x)) (enumerate 0 xs)"

lemma show_nat_inject [simp]: "show_nat m = show_nat n \<longleftrightarrow> m = n"
  by (metis digits_val_show_nat)

lemma numbered_Nil [simp]: "numbered pre [] = []"
  by (simp add: numbered_def)

lemma numbered_eq_Nil [simp]: "numbered pre xs = [] \<longleftrightarrow> xs = []"
  by (cases xs) (simp_all add: numbered_def)

lemma numbered_update:
  "AList.update (pre @ show_nat (length xs)) x (numbered pre xs) = numbered pre (xs @ [x])"
proof -
  have "pre @ show_nat (length xs) \<notin> fst ` set (numbered pre xs)"
    by (auto simp: numbered_def in_set_enumerate_eq)
  then show ?thesis
    by (simp add: update_fresh) (simp add: numbered_def enumerate_append_eq)
qed

lemma numbered_distinct: "distinct (map fst (numbered pre xs))"
proof -
  have "map fst (numbered pre xs) = map (\<lambda>i. pre @ show_nat i) [0..<length xs]"
    by (rule nth_equalityI) (simp_all add: numbered_def nth_enumerate_eq)
  then show ?thesis by (simp add: distinct_map inj_on_def)
qed

lemma map_of_numbered:
  "map_of (numbered pre xs) (pre @ show_nat i) = (if i < length xs then Some (xs ! i) else None)"
proof (cases "i < length xs")
  case True
  then have "(pre @ show_nat i, xs ! i) \<in> set (numbered pre xs)"
    unfolding numbered_def set_map by (intro image_eqI [of _ _ "(i, xs ! i)"]) (simp_all add: in_set_enumerate_eq)
  with True show ?thesis by (simp add: numbered_distinct)
next
  case False
  then have "pre @ show_nat i \<notin> fst ` set (numbered pre xs)"
    by (auto simp: numbered_def in_set_enumerate_eq)
  with False show ?thesis by (simp add: map_of_eq_None_iff)
qed

end
