(* ===== verification/Cli.thy ===== *)
theory Cli
  imports Config
begin

text \<open>
  The command line, file cmd/spoofdb/cli.go: splitting repeated flags, guessing what a
  \<open>-source\<close> argument is, reading a \<open>-spoof\<close> target, and building a configuration from both.
  \<open>os.Stat\<close> is a parameter: it tells whether a path is a directory, or fails.
\<close>

section \<open>Flags\<close>

text \<open>\<open>(*stringSlice).Set\<close>, which never fails.\<close>

definition set_flag :: "string list \<Rightarrow> string \<Rightarrow> string list" where
  "set_flag s v =
     foldl (\<lambda>s p. let p = TrimSpace p in if p \<noteq> [] then s @ [p] else s) s (SplitByte v CHR '','')"

definition flag_string :: "string list \<Rightarrow> string" where
  "flag_string s = JoinStr s '',''"

section \<open>Sources and targets\<close>

definition no_source :: config_source where
  "no_source = \<lparr>cs_type = [], cs_path = [], cs_dsn = [], cs_dsn_env = [], cs_tables = []\<rparr>"

definition dsn_source :: "string \<Rightarrow> string \<Rightarrow> config_source" where
  "dsn_source t spec = no_source\<lparr>cs_type := t, cs_dsn := spec\<rparr>"

definition path_source :: "string \<Rightarrow> string \<Rightarrow> config_source" where
  "path_source t spec = no_source\<lparr>cs_type := t, cs_path := spec\<rparr>"

text \<open>The result is a source and the flag \<open>isRedis\<close>.\<close>

definition parseSource :: "(string \<Rightarrow> bool result) \<Rightarrow> string \<Rightarrow> (config_source \<times> bool) result" where
  "parseSource stat spec =
     (case Index spec ''://'' of
        Some (Suc i) \<Rightarrow>
          (let scheme = take (Suc i) spec
           in if scheme = ''postgres'' \<or> scheme = ''postgresql''
                then Inr (dsn_source ''postgres'' spec, False)
              else if scheme = ''mysql'' then Inr (dsn_source ''mysql'' spec, False)
              else if scheme = ''clickhouse'' then Inr (dsn_source ''clickhouse'' spec, False)
              else Inl (''source '' @ Quote spec @ '': unsupported scheme '' @ Quote scheme))
      | _ \<Rightarrow>
          (case stat spec of
             Inl err \<Rightarrow> Inl (''source '' @ Quote spec @ '': '' @ err)
           | Inr is_dir \<Rightarrow>
               (if is_dir then Inr (path_source ''dir'' spec, False)
                else let ext = ToLower (path_Ext spec)
                     in if ext = ''.parquet'' then Inr (path_source ''parquet'' spec, False)
                        else if ext = ''.csv'' then Inr (path_source ''csv'' spec, False)
                        else if ext = ''.rdb'' then Inr (no_source, True)
                        else Inl (''source '' @ Quote spec @
                               '': unknown file type (want a dir, .csv, .parquet, .rdb, or a DSN)''))))"

text \<open>\<open>strings.Cut\<close> with a one-byte separator, and \<open>strconv.Atoi\<close> with its error.\<close>

definition CutByte :: "string \<Rightarrow> char \<Rightarrow> string \<times> string \<times> bool" where
  "CutByte s c =
     (case IndexByte s c of Some i \<Rightarrow> (take i s, drop (Suc i) s, True) | None \<Rightarrow> (s, [], False))"

definition Atoi :: "string \<Rightarrow> int result" where
  "Atoi s =
     (case ParseInt64 s of
        (w, None) \<Rightarrow> Inr (sint w)
      | (w, Some err) \<Rightarrow> Inl (''strconv.Atoi: parsing '' @ Quote s @ '': '' @ err))"

datatype protocol = Postgres | Mysql | Clickhouse | Redis

text \<open>The protocols are a finite, enumerable type, so statements may sum over all of them.\<close>

instantiation protocol :: enum
begin

definition "enum_class.enum = [Postgres, Mysql, Clickhouse, Redis]"

definition "enum_class.enum_all P \<longleftrightarrow> P Postgres \<and> P Mysql \<and> P Clickhouse \<and> P Redis"

definition "enum_class.enum_ex P \<longleftrightarrow> P Postgres \<or> P Mysql \<or> P Clickhouse \<or> P Redis"

instance
proof
  have UNIV: "(UNIV :: protocol set) = {Postgres, Mysql, Clickhouse, Redis}"
    by (auto intro: protocol.exhaust)
  then show "(UNIV :: protocol set) = set enum_class.enum" by (simp add: enum_protocol_def)
  show "distinct (enum_class.enum :: protocol list)" by (simp add: enum_protocol_def)
  show "enum_class.enum_all P \<longleftrightarrow> Ball UNIV P" "enum_class.enum_ex P \<longleftrightarrow> Bex UNIV P"
    for P :: "protocol \<Rightarrow> bool"
    by (simp_all add: UNIV enum_all_protocol_def enum_ex_protocol_def)
qed

end

text \<open>The switch of \<open>parseSpoof\<close>; its protocol strings are the values of \<open>protocol\<close>.\<close>

definition protocol_of :: "string \<Rightarrow> protocol option" where
  "protocol_of name =
     (if name = ''postgres'' \<or> name = ''postgresql'' \<or> name = ''pg'' then Some Postgres
      else if name = ''mysql'' \<or> name = ''my'' then Some Mysql
      else if name = ''clickhouse'' \<or> name = ''ch'' then Some Clickhouse
      else if name = ''redis'' then Some Redis
      else None)"

fun defaultPort :: "protocol \<Rightarrow> int" where
  "defaultPort Postgres = 5432"
| "defaultPort Mysql = 3306"
| "defaultPort Clickhouse = 9000"
| "defaultPort Redis = 6379"

definition parseSpoof :: "string \<Rightarrow> (protocol \<times> int) result" where
  "parseSpoof spec =
     (case CutByte spec CHR '':'' of
        (name, portStr, hasPort) \<Rightarrow>
          (case protocol_of (ToLower (TrimSpace name)) of
             None \<Rightarrow> Inl (''spoof '' @ Quote spec @ '': unknown protocol '' @ Quote name)
           | Some p \<Rightarrow>
               (if \<not> hasPort then Inr (p, defaultPort p)
                else case Atoi (TrimSpace portStr) of
                       Inl err \<Rightarrow> Inl (''spoof '' @ Quote spec @ '': bad port: '' @ err)
                     | Inr port \<Rightarrow> Inr (p, port))))"

section \<open>The configuration of the flags\<close>

text \<open>
  What the two loops of \<open>configFromFlags\<close> carry: the configuration, the RDB dumps in the
  order of their flags, the number of SQL sources, and the number of targets per protocol.
\<close>

record flag_state =
  fl_cfg :: config
  fl_dumps :: "string list"
  fl_sql :: nat
  fl_count :: "protocol \<Rightarrow> nat"

definition start_flags :: flag_state where
  "start_flags =
     \<lparr>fl_cfg = \<lparr>cf_sources = [], cf_spoof = \<lparr>sp_postgres = [], sp_mysql = [], sp_clickhouse = []\<rparr>,
                cf_redis = []\<rparr>,
      fl_dumps = [], fl_sql = 0, fl_count = (\<lambda>p. 0)\<rparr>"

definition add_source ::
  "(string \<Rightarrow> bool result) \<Rightarrow> flag_state \<Rightarrow> string \<Rightarrow> flag_state \<times> go_error" where
  "add_source stat s spec =
     (case parseSource stat spec of
        Inl err \<Rightarrow> (s, Some err)
      | Inr (src, isRedis) \<Rightarrow>
          (if isRedis then (s\<lparr>fl_dumps := fl_dumps s @ [spec]\<rparr>, None)
           else (s\<lparr>fl_cfg := (fl_cfg s)\<lparr>cf_sources :=
                     AList.update (''src'' @ show_nat (fl_sql s)) src (cf_sources (fl_cfg s))\<rparr>,
                   fl_sql := fl_sql s + 1\<rparr>, None)))"

definition sql_at :: "int \<Rightarrow> sql_instance" where
  "sql_at port = \<lparr>si_port = port, si_sources = []\<rparr>"

definition add_target :: "flag_state \<Rightarrow> string \<Rightarrow> flag_state \<times> go_error" where
  "add_target s spec =
     (case parseSpoof spec of
        Inl err \<Rightarrow> (s, Some err)
      | Inr (p, port) \<Rightarrow>
          (let idx = fl_count s p;
               s = s\<lparr>fl_count := (fl_count s)(p := idx + 1)\<rparr>;
               name = ''shard'' @ show_nat idx;
               cfg = fl_cfg s;
               sp = cf_spoof cfg
           in case p of
                Postgres \<Rightarrow>
                  (s\<lparr>fl_cfg := cfg\<lparr>cf_spoof := sp\<lparr>sp_postgres :=
                       AList.update name (sql_at port) (sp_postgres sp)\<rparr>\<rparr>\<rparr>, None)
              | Mysql \<Rightarrow>
                  (s\<lparr>fl_cfg := cfg\<lparr>cf_spoof := sp\<lparr>sp_mysql :=
                       AList.update name (sql_at port) (sp_mysql sp)\<rparr>\<rparr>\<rparr>, None)
              | Clickhouse \<Rightarrow>
                  (s\<lparr>fl_cfg := cfg\<lparr>cf_spoof := sp\<lparr>sp_clickhouse :=
                       AList.update name (sql_at port) (sp_clickhouse sp)\<rparr>\<rparr>\<rparr>, None)
              | Redis \<Rightarrow>
                  (if idx \<ge> length (fl_dumps s)
                   then (s, Some (''redis spoof '' @ Quote spec @ '' has no matching .rdb source''))
                   else (s\<lparr>fl_cfg := cfg\<lparr>cf_redis := AList.update name
                             \<lparr>ri_port = port, ri_dump = fl_dumps s ! idx\<rparr> (cf_redis cfg)\<rparr>\<rparr>, None))))"

definition configFromFlags ::
  "(string \<Rightarrow> bool result) \<Rightarrow> string list \<Rightarrow> string list \<Rightarrow> config result" where
  "configFromFlags stat sourceSpecs spoofSpecs =
     (if sourceSpecs = [] \<or> spoofSpecs = []
      then Inl ''-source and -spoof must both be set (or use -config)''
      else
        (case each_until_error (add_source stat) start_flags sourceSpecs of
           (s, Some err) \<Rightarrow> Inl err
         | (s, None) \<Rightarrow>
             (case each_until_error add_target s spoofSpecs of
                (s, Some err) \<Rightarrow> Inl err
              | (s, None) \<Rightarrow>
                  (if fl_sql s = 0 \<and> cf_redis (fl_cfg s) = []
                   then Inl ''no usable sources for the given spoof targets''
                   else Inr (fl_cfg s)))))"

section \<open>What the two loops build\<close>

definition sql_specs :: "(string \<Rightarrow> bool result) \<Rightarrow> string list \<Rightarrow> config_source list" where
  "sql_specs stat =
     List.map_filter (\<lambda>spec. case parseSource stat spec of Inr (src, False) \<Rightarrow> Some src | _ \<Rightarrow> None)"

definition rdb_specs :: "(string \<Rightarrow> bool result) \<Rightarrow> string list \<Rightarrow> string list" where
  "rdb_specs stat =
     filter (\<lambda>spec. case parseSource stat spec of Inr (src, True) \<Rightarrow> True | _ \<Rightarrow> False)"

definition targets :: "protocol \<Rightarrow> string list \<Rightarrow> int list" where
  "targets p =
     List.map_filter (\<lambda>spec. case parseSpoof spec of Inr (q, port) \<Rightarrow> if q = p then Some port else None
                                            | Inl err \<Rightarrow> None)"

definition redis_pairs :: "int list \<Rightarrow> string list \<Rightarrow> (string \<times> redis_instance) list" where
  "redis_pairs ports dumps =
     numbered ''shard'' (map (\<lambda>(port, dump). \<lparr>ri_port = port, ri_dump = dump\<rparr>) (zip ports dumps))"

definition shards :: "int list \<Rightarrow> (string \<times> sql_instance) list" where
  "shards ports = numbered ''shard'' (map sql_at ports)"

lemma loop_lists_simps [simp]:
  "sql_specs stat [] = []" "rdb_specs stat [] = []" "targets p [] = []" "redis_pairs [] dumps = []"
  "shards [] = []"
  by (simp_all add: sql_specs_def rdb_specs_def targets_def redis_pairs_def shards_def)

lemma map_filter_append [simp]:
  "List.map_filter f (xs @ ys) = List.map_filter f xs @ List.map_filter f ys"
  by (induction xs) (auto split: option.split)

lemmas src_update = numbered_update [of "''src''", simplified]

lemma shards_update:
  "AList.update (''shard'' @ show_nat (length ports)) (sql_at port) (shards ports) = shards (ports @ [port])"
  using numbered_update [of "''shard''" "map sql_at ports" "sql_at port"]
  by (simp add: shards_def)

lemma zip_snoc:
  "length xs < length ys \<Longrightarrow> zip (xs @ [x]) ys = zip xs ys @ [(x, ys ! length xs)]"
  by (induction xs ys rule: list_induct2') (auto simp: neq_Nil_conv)

lemma redis_pairs_update:
  "length ports < length dumps \<Longrightarrow>
    AList.update (''shard'' @ show_nat (length ports))
      \<lparr>ri_port = port, ri_dump = dumps ! length ports\<rparr> (redis_pairs ports dumps) =
    redis_pairs (ports @ [port]) dumps"
  using numbered_update [of "''shard''" "map (\<lambda>(p, d). \<lparr>ri_port = p, ri_dump = d\<rparr>) (zip ports dumps)"
      "\<lparr>ri_port = port, ri_dump = dumps ! length ports\<rparr>"]
  by (simp add: redis_pairs_def zip_snoc)

lemmas shard_updates = shards_update [simplified] redis_pairs_update [simplified]

definition sources_inv :: "(string \<Rightarrow> bool result) \<Rightarrow> string list \<Rightarrow> flag_state \<Rightarrow> bool" where
  "sources_inv stat done s \<longleftrightarrow>
     s = \<lparr>fl_cfg = (fl_cfg start_flags)\<lparr>cf_sources := numbered ''src'' (sql_specs stat done)\<rparr>,
          fl_dumps = rdb_specs stat done, fl_sql = length (sql_specs stat done), fl_count = (\<lambda>p. 0)\<rparr>"

definition source_good :: "(string \<Rightarrow> bool result) \<Rightarrow> string \<Rightarrow> bool" where
  "source_good stat spec \<longleftrightarrow> (\<exists>r. parseSource stat spec = Inr r)"

lemma add_source_step:
  assumes "sources_inv stat done s"
  shows "case add_source stat s spec of
      (s', None) \<Rightarrow> source_good stat spec \<and> sources_inv stat (done @ [spec]) s'
    | (s', Some err) \<Rightarrow> \<not> source_good stat spec"
proof (cases "parseSource stat spec")
  case (Inr r)
  obtain src isRedis where "r = (src, isRedis)" by (rule prod.exhaust)
  with Inr assms show ?thesis
    by (cases isRedis)
      (auto simp: add_source_def source_good_def sources_inv_def sql_specs_def rdb_specs_def src_update)
qed (simp add: add_source_def source_good_def)

definition target_good :: "string list \<Rightarrow> string list \<Rightarrow> string \<Rightarrow> bool" where
  "target_good dumps done spec \<longleftrightarrow>
     (\<exists>p port. parseSpoof spec = Inr (p, port) \<and>
        (p = Redis \<longrightarrow> length (targets Redis done) < length dumps))"

definition flags_config :: "config_source list \<Rightarrow> string list \<Rightarrow> string list \<Rightarrow> config" where
  "flags_config srcs dumps done =
     \<lparr>cf_sources = numbered ''src'' srcs,
      cf_spoof = \<lparr>sp_postgres = shards (targets Postgres done), sp_mysql = shards (targets Mysql done),
                  sp_clickhouse = shards (targets Clickhouse done)\<rparr>,
      cf_redis = redis_pairs (targets Redis done) dumps\<rparr>"

definition targets_inv :: "config_source list \<Rightarrow> string list \<Rightarrow> string list \<Rightarrow> flag_state \<Rightarrow> bool" where
  "targets_inv srcs dumps done s \<longleftrightarrow>
     s = \<lparr>fl_cfg = flags_config srcs dumps done, fl_dumps = dumps, fl_sql = length srcs,
          fl_count = (\<lambda>p. length (targets p done))\<rparr>"

lemma targets_snoc:
  "parseSpoof spec = Inr (q, port) \<Longrightarrow>
    targets p (done @ [spec]) = targets p done @ (if q = p then [port] else [])"
  by (simp add: targets_def)

lemma add_target_step:
  assumes "targets_inv srcs dumps done s"
  shows "case add_target s spec of
      (s', None) \<Rightarrow> target_good dumps done spec \<and> targets_inv srcs dumps (done @ [spec]) s'
    | (s', Some err) \<Rightarrow> \<not> target_good dumps done spec"
proof (cases "parseSpoof spec")
  case (Inr r)
  obtain p port where p: "r = (p, port)" by (rule prod.exhaust)
  note snoc = targets_snoc [OF Inr [unfolded p]]
  show ?thesis
  proof (cases p)
    case Redis
    with Inr p assms show ?thesis
      by (auto simp: add_target_def target_good_def targets_inv_def flags_config_def snoc
          shard_updates Let_def)
  qed (use Inr p assms in \<open>auto simp: add_target_def target_good_def targets_inv_def flags_config_def snoc
          shard_updates Let_def\<close>)
qed (simp add: add_target_def target_good_def)

interpretation source_loop: judged_loop "add_source stat" "sources_inv stat" "\<lambda>done. source_good stat"
  by unfold_locales (rule add_source_step)

interpretation target_loop: judged_loop add_target "targets_inv srcs dumps" "target_good dumps"
  by unfold_locales (rule add_target_step)

lemma sources_inv_start [simp]: "sources_inv stat [] start_flags"
  by (simp add: sources_inv_def start_flags_def)

lemma targets_prefix:
  assumes "i < length specs" and "parseSpoof (specs ! i) = Inr (p, port)"
  shows "length (targets p (take i specs)) < length (targets p specs)"
proof -
  have "targets p specs = targets p (take (Suc i) specs) @ targets p (drop (Suc i) specs)"
    unfolding targets_def map_filter_append [symmetric] append_take_drop_id ..
  moreover have "targets p (take (Suc i) specs) = targets p (take i specs) @ [port]"
    using assms by (simp add: take_Suc_conv_app_nth targets_snoc)
  ultimately show ?thesis by simp
qed

lemma targets_enough:
  "(\<forall>i < length specs. target_good dumps (take i specs) (specs ! i)) \<longleftrightarrow>
    (\<forall>spec \<in> set specs. \<exists>r. parseSpoof spec = Inr r) \<and> length (targets Redis specs) \<le> length dumps"
proof (intro iffI conjI allI impI)
  assume good: "\<forall>i < length specs. target_good dumps (take i specs) (specs ! i)"
  then show "\<forall>spec \<in> set specs. \<exists>r. parseSpoof spec = Inr r"
    unfolding target_good_def all_set_conv_all_nth by metis
  from good show "length (targets Redis specs) \<le> length dumps"
  proof (induction specs rule: rev_induct)
    case (snoc x xs)
    from snoc.prems have "target_good dumps xs x" by (auto dest: spec [of _ "length xs"])
    moreover have "length (targets Redis xs) \<le> length dumps"
      by (rule snoc.IH) (use snoc.prems in \<open>auto simp: nth_append less_Suc_eq\<close>)
    ultimately show ?case by (auto simp: target_good_def targets_snoc)
  qed simp
next
  fix i
  assume ok: "(\<forall>spec \<in> set specs. \<exists>r. parseSpoof spec = Inr r) \<and> length (targets Redis specs) \<le> length dumps"
    and i: "i < length specs"
  then obtain p port where p: "parseSpoof (specs ! i) = Inr (p, port)"
    by (metis nth_mem surj_pair)
  with targets_prefix [OF i p] ok show "target_good dumps (take i specs) (specs ! i)"
    by (auto simp: target_good_def)
qed

lemma sources_good:
  "(\<forall>i < length specs. source_good stat (specs ! i)) \<longleftrightarrow>
    (\<forall>spec \<in> set specs. \<exists>r. parseSource stat spec = Inr r)"
  by (auto simp: source_good_def all_set_conv_all_nth)

section \<open>Properties\<close>

text \<open>C38. The configuration that the flags describe. Building it succeeds exactly when both kinds
  of flags are given, every one of them can be read, there are enough RDB files for the redis
  targets and something can be served; then the sources are numbered in the order of their
  flags, the targets of each protocol are numbered in theirs, every SQL target serves all
  sources, and the i-th redis target serves the i-th RDB file.\<close>

theorem configFromFlags_builds:
  "configFromFlags stat srcs spoofs = Inr cfg \<longleftrightarrow>
    srcs \<noteq> [] \<and> spoofs \<noteq> [] \<and> (\<forall>spec \<in> set srcs. \<exists>r. parseSource stat spec = Inr r) \<and>
    (\<forall>spec \<in> set spoofs. \<exists>r. parseSpoof spec = Inr r) \<and>
    length (targets Redis spoofs) \<le> length (rdb_specs stat srcs) \<and>
    (sql_specs stat srcs \<noteq> [] \<or> targets Redis spoofs \<noteq> []) \<and>
    cfg = flags_config (sql_specs stat srcs) (rdb_specs stat srcs) spoofs"
proof (cases "each_until_error (add_source stat) start_flags srcs")
  case (Pair s err)
  show ?thesis
  proof (cases err)
    case None
    let ?ss = "sql_specs stat srcs" and ?ds = "rdb_specs stat srcs"
    have "sources_inv stat srcs s"
      using Pair None source_loop.inv_at_end [OF sources_inv_start] by blast
    then have inv: "targets_inv ?ss ?ds [] s"
      by (simp add: sources_inv_def targets_inv_def flags_config_def start_flags_def)
    have good: "\<forall>spec \<in> set srcs. \<exists>r. parseSource stat spec = Inr r"
      using Pair None source_loop.ends_well [OF sources_inv_start, of stat srcs] sources_good by blast
    obtain s' err' where s': "each_until_error add_target s spoofs = (s', err')" by force
    show ?thesis
    proof (cases err')
      case err': None
      then have fin: "targets_inv ?ss ?ds spoofs s'" and
        ok: "\<forall>spec \<in> set spoofs. \<exists>r. parseSpoof spec = Inr r" "length (targets Redis spoofs) \<le> length ?ds"
        using target_loop.ends_well [OF inv, of spoofs] target_loop.inv_at_end [OF inv] targets_enough s'
        by blast+
      have "redis_pairs (targets Redis spoofs) ?ds = [] \<longleftrightarrow> targets Redis spoofs = []"
        using ok(2) by (auto simp: redis_pairs_def)
      with fin ok good Pair None s' err' show ?thesis
        by (auto simp: configFromFlags_def targets_inv_def flags_config_def)
    next
      case (Some e)
      with target_loop.ends_well [OF inv, of spoofs] s'
      have "\<not> ((\<forall>spec \<in> set spoofs. \<exists>r. parseSpoof spec = Inr r) \<and>
          length (targets Redis spoofs) \<le> length ?ds)"
        unfolding targets_enough by simp
      with s' Pair None Some show ?thesis by (auto simp: configFromFlags_def)
    qed
  next
    case (Some e)
    with source_loop.ends_well [OF sources_inv_start, of stat srcs] Pair
    have "\<not> (\<forall>spec \<in> set srcs. \<exists>r. parseSource stat spec = Inr r)"
      unfolding sources_good by simp
    with Some Pair show ?thesis by (auto simp: configFromFlags_def)
  qed
qed

lemma configFromFlags_builds_witness:
  "configFromFlags (\<lambda>path. Inr False) [''d.rdb'', ''a.CSV''] [''pg:5433'', ''redis''] =
    Inr \<lparr>cf_sources = [(''src0'', path_source ''csv'' ''a.CSV'')],
         cf_spoof = \<lparr>sp_postgres = [(''shard0'', sql_at 5433)], sp_mysql = [], sp_clickhouse = []\<rparr>,
         cf_redis = [(''shard0'', \<lparr>ri_port = 6379, ri_dump = ''d.rdb''\<rparr>)]\<rparr>"
proof -
  let ?stat = "\<lambda>path. Inr False" and ?srcs = "[''d.rdb'', ''a.CSV'']" and ?ts = "[''pg:5433'', ''redis'']"
  have srcs: "parseSource ?stat ''d.rdb'' = Inr (no_source, True)"
    "parseSource ?stat ''a.CSV'' = Inr (path_source ''csv'' ''a.CSV'', False)"
    by code_simp+
  have ts: "parseSpoof ''pg:5433'' = Inr (Postgres, 5433)" "parseSpoof ''redis'' = Inr (Redis, 6379)"
    by code_simp+
  have lists: "sql_specs ?stat ?srcs = [path_source ''csv'' ''a.CSV'']" "rdb_specs ?stat ?srcs = [''d.rdb'']"
    "targets Postgres ?ts = [5433]" "targets Mysql ?ts = []" "targets Clickhouse ?ts = []"
    "targets Redis ?ts = [6379]"
    unfolding sql_specs_def rdb_specs_def targets_def by (simp_all add: srcs ts)
  have "show_nat 0 = ''0''" by code_simp
  then show ?thesis
    unfolding configFromFlags_builds lists flags_config_def
    by (auto simp: srcs ts shards_def redis_pairs_def numbered_def)
qed

text \<open>Every target becomes one instance: over all protocols, the lists of ports have as many
  entries as there are targets.\<close>

lemma targets_total:
  assumes "\<forall>spec \<in> set specs. \<exists>r. parseSpoof spec = Inr r"
  shows "(\<Sum>p \<in> UNIV. length (targets p specs)) = length specs"
  using assms
proof (induction specs rule: rev_induct)
  case (snoc spec specs)
  then obtain q port where "parseSpoof spec = Inr (q, port)" by (metis in_set_conv_decomp surj_pair)
  then have "length (targets p (specs @ [spec])) = length (targets p specs) + (if p = q then 1 else 0)" for p
    by (simp add: targets_snoc)
  then have "(\<Sum>p \<in> UNIV. length (targets p (specs @ [spec]))) =
      (\<Sum>p \<in> UNIV. length (targets p specs)) + (\<Sum>p \<in> UNIV. if p = q then 1 else 0)"
    by (simp add: sum.distrib)
  with snoc show ?case by simp
qed simp

text \<open>A target is read back: a protocol name in any spelling the program knows, with any
  letter case and surrounding blanks, gives its protocol, with the port written after the colon
  or with the default port of the protocol.\<close>

theorem parseSpoof_reads:
  assumes "CHR '':'' \<notin> set name" and "protocol_of (ToLower (TrimSpace name)) = Some p"
  shows "parseSpoof name = Inr (p, defaultPort p) \<and>
    parseSpoof (name @ '':'' @ show_int port) =
      (if in_int64 port then Inr (p, port)
       else Inl (''spoof '' @ Quote (name @ '':'' @ show_int port) @ '': bad port: strconv.Atoi: parsing '' @
                 Quote (show_int port) @ '': value out of range''))"
proof -
  have none: "IndexByte name CHR '':'' = None"
    using assms(1) by (simp add: IndexByte_def IndexAny_None)
  have "IndexAny (n @ CHR '':'' # s) '':'' = Some (length n)" if "CHR '':'' \<notin> set n" for n s
    using that by (induction n) auto
  then have "CutByte (name @ '':'' @ show_int port) CHR '':'' = (name, show_int port, True)"
    using assms(1) by (simp add: CutByte_def IndexByte_def)
  then show ?thesis
    using assms(2) none
    by (simp add: parseSpoof_def CutByte_def Atoi_def ParseInt64_def clamp64_id)
qed

lemma parseSpoof_reads_witness:
  "parseSpoof '' MySQL '' = Inr (Mysql, 3306) \<and> parseSpoof ('' MySQL '' @ '':'' @ show_int 3307) = Inr (Mysql, 3307)"
proof -
  have "protocol_of (ToLower (TrimSpace '' MySQL '')) = Some Mysql" by code_simp
  from parseSpoof_reads [OF _ this, of 3307] show ?thesis by (simp add: in_int64_def max_int64_def min_int64_def)
qed

end
