(* ===== verification/RedisServer.thy ===== *)
theory RedisServer
  imports Config
begin

text \<open>
  Package \<open>redis\<close>, files internal/redis/redis.go and internal/redis/seed.go: starting one
  embedded server per configured instance and replaying an RDB dump into it. The server
  (miniredis) and the parser of dumps are a parameter, the record \<open>redis_lib\<close>: the server's
  commands act on a store of type \<open>'s\<close>, and a dump is the sequence of objects that the
  parser hands to the callback, with the error it ends on, if any. Since the callback always
  returns true, the parser never stops early.
\<close>

section \<open>The embedded server and the dump parser\<close>

text \<open>
  The dynamic type of an object, with its payload. A score is the bit pattern of a float64; a
  hash is the list of its fields in the order the \<open>range\<close> loop visits them. \<open>OtherObject\<close>
  stands for the metadata objects.
\<close>

datatype rdb_value =
    StringObject string
  | ListObject "string list"
  | SetObject "string list"
  | HashObject "(string \<times> string) list"
  | ZSetObject "(64 word \<times> string) list"
  | StreamObject
  | OtherObject

text \<open>Times are nanoseconds since some epoch; an expiration may be missing.\<close>

record rdb_object =
  o_db :: int
  o_key :: string
  o_value :: rdb_value
  o_expiration :: "int option"

record 's redis_lib =
  r_new :: 's
  r_listen :: "string list \<Rightarrow> string \<Rightarrow> go_error"
  r_set :: "'s \<Rightarrow> int \<Rightarrow> string \<Rightarrow> string \<Rightarrow> 's \<times> go_error"
  r_push :: "'s \<Rightarrow> int \<Rightarrow> string \<Rightarrow> string list \<Rightarrow> 's \<times> go_error"
  r_sadd :: "'s \<Rightarrow> int \<Rightarrow> string \<Rightarrow> string list \<Rightarrow> 's \<times> go_error"
  r_hset :: "'s \<Rightarrow> int \<Rightarrow> string \<Rightarrow> string list \<Rightarrow> 's"
  r_zadd :: "'s \<Rightarrow> int \<Rightarrow> string \<Rightarrow> 64 word \<Rightarrow> string \<Rightarrow> 's \<times> go_error"
  r_ttl :: "'s \<Rightarrow> int \<Rightarrow> string \<Rightarrow> int \<Rightarrow> 's"
  r_dump :: "string \<Rightarrow> (rdb_object list \<times> go_error) result"
  r_now :: int

section \<open>Replaying a dump\<close>

record seedStats =
  st_keys :: nat
  st_dbs :: nat

text \<open>What the callback of \<open>seedFromRDB\<close> closes over: the server, its counters, the databases
  seen, and the process log.\<close>

record 's seeding =
  sd_store :: 's
  sd_stats :: seedStats
  sd_seen :: "int set"
  sd_log :: "string list"

definition seed_log :: "'s seeding \<Rightarrow> string \<Rightarrow> string \<Rightarrow> string \<Rightarrow> 's seeding" where
  "seed_log s command key err =
     s\<lparr>sd_log := sd_log s @ [''redis: '' @ command @ '' '' @ Quote key @ '': '' @ err]\<rparr>"

definition logged_call ::
  "'s seeding \<Rightarrow> string \<Rightarrow> string \<Rightarrow> 's \<times> go_error \<Rightarrow> 's seeding" where
  "logged_call s command key r =
     (case r of (store, err) \<Rightarrow>
        let s1 = s\<lparr>sd_store := store\<rparr>
        in case err of None \<Rightarrow> s1 | Some e \<Rightarrow> seed_log s1 command key e)"

text \<open>
  The type switch: the new state and whether the callback goes on to the TTL and the counters
  (\<open>false\<close> after an early return and when \<open>wrote\<close> is false).
\<close>

definition write_object :: "'s redis_lib \<Rightarrow> 's seeding \<Rightarrow> rdb_object \<Rightarrow> 's seeding \<times> bool" where
  "write_object R s obj =
     (let key = o_key obj; db = o_db obj
      in case o_value obj of
           StringObject v \<Rightarrow>
             (case r_set R (sd_store s) db key v of
                (store, Some err) \<Rightarrow> (seed_log (s\<lparr>sd_store := store\<rparr>) ''set'' key err, False)
              | (store, None) \<Rightarrow> (s\<lparr>sd_store := store\<rparr>, True))
         | ListObject vals \<Rightarrow>
             (if vals = [] then (s, False)
              else (logged_call s ''rpush'' key (r_push R (sd_store s) db key vals), True))
         | SetObject mems \<Rightarrow>
             (if mems = [] then (s, False)
              else (logged_call s ''sadd'' key (r_sadd R (sd_store s) db key mems), True))
         | HashObject h \<Rightarrow>
             (if h = [] then (s, False)
              else (s\<lparr>sd_store := r_hset R (sd_store s) db key
                       (concat (map (\<lambda>(field, val). [field, val]) h))\<rparr>, True))
         | ZSetObject entries \<Rightarrow>
             (foldl (\<lambda>s (score, member).
                logged_call s ''zadd'' key (r_zadd R (sd_store s) db key score member)) s entries,
              entries \<noteq> [])
         | StreamObject \<Rightarrow>
             (s\<lparr>sd_log := sd_log s @
                [''redis: skipping key '' @ Quote key @ '' (streams not yet supported)'']\<rparr>, False)
         | OtherObject \<Rightarrow> (s, False))"

text \<open>\<open>time.Time.Sub\<close> saturates at the largest Duration.\<close>

definition set_ttl :: "'s redis_lib \<Rightarrow> int \<Rightarrow> 's seeding \<Rightarrow> rdb_object \<Rightarrow> 's seeding" where
  "set_ttl R now s obj =
     (case o_expiration obj of
        Some e \<Rightarrow>
          if now < e
          then s\<lparr>sd_store := r_ttl R (sd_store s) (o_db obj) (o_key obj) (clamp64 (e - now))\<rparr>
          else s
      | None \<Rightarrow> s)"

definition count_key :: "'s seeding \<Rightarrow> int \<Rightarrow> 's seeding" where
  "count_key s db =
     (let st = sd_stats s;
          s1 = (if db \<in> sd_seen s then s
                else s\<lparr>sd_seen := insert db (sd_seen s), sd_stats := st\<lparr>st_dbs := st_dbs st + 1\<rparr>\<rparr>)
      in s1\<lparr>sd_stats := (sd_stats s1)\<lparr>st_keys := st_keys (sd_stats s1) + 1\<rparr>\<rparr>)"

definition seed_object :: "'s redis_lib \<Rightarrow> int \<Rightarrow> 's seeding \<Rightarrow> rdb_object \<Rightarrow> 's seeding" where
  "seed_object R now s obj =
     (case write_object R s obj of
        (s1, False) \<Rightarrow> s1
      | (s1, True) \<Rightarrow> count_key (set_ttl R now s1 obj) (o_db obj))"

definition start_seeding :: "'s \<Rightarrow> 's seeding" where
  "start_seeding store =
     \<lparr>sd_store = store, sd_stats = \<lparr>st_keys = 0, st_dbs = 0\<rparr>, sd_seen = {}, sd_log = []\<rparr>"

text \<open>The result is the store, the log lines and the statistics or the error.\<close>

definition seedFromRDB ::
  "'s redis_lib \<Rightarrow> 's \<Rightarrow> string \<Rightarrow> 's \<times> string list \<times> seedStats result" where
  "seedFromRDB R store path =
     (case r_dump R path of
        Inl err \<Rightarrow> (store, [], Inl err)
      | Inr (objs, err) \<Rightarrow>
          (let s = foldl (seed_object R (r_now R)) (start_seeding store) objs
           in (sd_store s, sd_log s,
               case err of Some e \<Rightarrow> Inl (''parse rdb: '' @ e) | None \<Rightarrow> Inr (sd_stats s))))"

section \<open>Starting the instances\<close>

record 's redis_running =
  rr_name :: string
  rr_addr :: string
  rr_store :: 's

text \<open>
  The state of the process as far as \<open>Start\<close> sees it: the addresses on which one of its
  servers listens, in the order they were bound, and the log. Closing a server frees its
  address.
\<close>

record redis_world =
  rw_bound :: "string list"
  rw_log :: "string list"

definition close_instance :: "redis_world \<Rightarrow> string \<Rightarrow> redis_world" where
  "close_instance W addr = W\<lparr>rw_bound := remove1 addr (rw_bound W)\<rparr>"

definition startInstance ::
  "'s redis_lib \<Rightarrow> redis_world \<Rightarrow> string \<times> redis_instance \<Rightarrow> redis_world \<times> 's redis_running result" where
  "startInstance R W inst =
     (case inst of (name, cfg) \<Rightarrow>
        let addr = '':'' @ show_int (ri_port cfg);
            pre = ''redis['' @ name @ '']: ''
        in case r_listen R (rw_bound W) addr of
             Some err \<Rightarrow> (W, Inl (pre @ ''start '' @ addr @ '': '' @ err))
           | None \<Rightarrow>
               (let W1 = W\<lparr>rw_bound := rw_bound W @ [addr]\<rparr>;
                    (store, lines, r) =
                      (if ri_dump cfg \<noteq> [] then seedFromRDB R (r_new R) (ri_dump cfg)
                       else (r_new R, [], Inr \<lparr>st_keys = 0, st_dbs = 0\<rparr>));
                    W2 = W1\<lparr>rw_log := rw_log W1 @ lines\<rparr>
                in case r of
                     Inl err \<Rightarrow>
                       (close_instance W2 addr,
                        Inl (pre @ ''seed from '' @ ri_dump cfg @ '': '' @ err))
                   | Inr stats \<Rightarrow>
                       (W2\<lparr>rw_log := rw_log W2 @
                          [pre @ ''listening on '' @ addr @ '' (keys='' @ show_nat (st_keys stats) @
                           '' dbs='' @ show_nat (st_dbs stats) @ '' dump='' @ ri_dump cfg @ '')'']\<rparr>,
                        Inr \<lparr>rr_name = name, rr_addr = addr, rr_store = store\<rparr>)))"

fun start_all ::
  "'s redis_lib \<Rightarrow> redis_world \<Rightarrow> 's redis_running list \<Rightarrow> (string \<times> redis_instance) list
    \<Rightarrow> redis_world \<times> 's redis_running list result" where
  "start_all R W started [] = (W, Inr started)"
| "start_all R W started (inst # insts) =
     (case startInstance R W inst of
        (W1, Inl err) \<Rightarrow> (foldl close_instance W1 (map rr_addr started), Inl err)
      | (W1, Inr running) \<Rightarrow> start_all R W1 (started @ [running]) insts)"

definition Start ::
  "'s redis_lib \<Rightarrow> redis_world \<Rightarrow> (string \<times> redis_instance) list
    \<Rightarrow> redis_world \<times> 's redis_running list result" where
  "Start R W instances = start_all R W [] instances"

section \<open>Which objects are counted\<close>

definition has_data :: "rdb_object \<Rightarrow> bool" where
  "has_data obj =
     (case o_value obj of
        StringObject v \<Rightarrow> True
      | ListObject vals \<Rightarrow> vals \<noteq> []
      | SetObject mems \<Rightarrow> mems \<noteq> []
      | HashObject h \<Rightarrow> h \<noteq> []
      | ZSetObject entries \<Rightarrow> entries \<noteq> []
      | StreamObject \<Rightarrow> False
      | OtherObject \<Rightarrow> False)"

lemma logged_call_frame [frame_simps]:
  "sd_stats (logged_call s c k r) = sd_stats s" "sd_seen (logged_call s c k r) = sd_seen s"
  by (simp_all add: logged_call_def seed_log_def Let_def split: prod.split option.split)

lemma write_object_frame [frame_simps]:
  "sd_stats (fst (write_object R s obj)) = sd_stats s \<and> sd_seen (fst (write_object R s obj)) = sd_seen s"
proof -
  have "sd_stats (foldl f s xs) = sd_stats s \<and> sd_seen (foldl f s xs) = sd_seen s"
    if "\<And>s x. sd_stats (f s x) = sd_stats s \<and> sd_seen (f s x) = sd_seen s"
    for f and xs :: "(64 word \<times> string) list"
    using that by (induction xs arbitrary: s) auto
  then have "sd_stats (foldl (\<lambda>s (score, member). logged_call s c k (f s score member)) s xs) = sd_stats s \<and>
      sd_seen (foldl (\<lambda>s (score, member). logged_call s c k (f s score member)) s xs) = sd_seen s"
    for c k f and xs :: "(64 word \<times> string) list"
    by (simp add: case_prod_beta frame_simps)
  then show ?thesis
    by (simp add: write_object_def Let_def seed_log_def frame_simps case_prod_beta
        split: rdb_value.split option.split prod.split)
qed

lemma set_ttl_frame [frame_simps]:
  "sd_stats (set_ttl R now s obj) = sd_stats s" "sd_seen (set_ttl R now s obj) = sd_seen s"
  by (simp_all add: set_ttl_def split: option.split)

lemma write_object_counts:
  assumes "\<And>s db k v. snd (r_set R s db k v) = None"
  shows "snd (write_object R s obj) = has_data obj"
  using assms by (auto simp: write_object_def has_data_def Let_def split: rdb_value.split prod.splits option.splits)
    (metis option.distinct(1) snd_conv)

definition seed_inv :: "rdb_object list \<Rightarrow> 's seeding \<Rightarrow> bool" where
  "seed_inv done s \<longleftrightarrow>
     st_keys (sd_stats s) = length (filter has_data done) \<and>
     sd_seen s = o_db ` set (filter has_data done) \<and> st_dbs (sd_stats s) = card (sd_seen s)"

lemma seed_object_step:
  assumes "\<And>s db k v. snd (r_set R s db k v) = None" and "seed_inv done s"
  shows "seed_inv (done @ [obj]) (seed_object R now s obj)"
proof -
  obtain s1 b where s1: "write_object R s obj = (s1, b)" by force
  with write_object_counts [OF assms(1), of s obj] write_object_frame [of R s obj]
  have "b = has_data obj" and "sd_stats s1 = sd_stats s" and "sd_seen s1 = sd_seen s" by simp_all
  then show ?thesis
    using assms(2) s1
    by (cases b) (simp_all add: seed_object_def seed_inv_def count_key_def Let_def frame_simps insert_absorb)
qed

text \<open>An object whose expiration has passed is replayed exactly like one that never expires.\<close>

lemma expired_is_persistent:
  assumes "o_expiration obj = Some e" and "e \<le> now"
  shows "seed_object R now s obj = seed_object R now s (obj\<lparr>o_expiration := None\<rparr>)"
  using assms by (simp add: seed_object_def write_object_def set_ttl_def)

section \<open>Which addresses stay bound\<close>

lemma bound_log [simp]: "rw_bound (W\<lparr>rw_log := l\<rparr>) = rw_bound W"
  by simp

lemma startInstance_bound:
  "case startInstance R W inst of
     (W', Inl err) \<Rightarrow> mset (rw_bound W') = mset (rw_bound W)
   | (W', Inr running) \<Rightarrow>
       rw_bound W' = rw_bound W @ [rr_addr running] \<and> rr_name running = fst inst \<and>
       rr_addr running = '':'' @ show_int (ri_port (snd inst))"
  by (cases inst)
    (auto simp: startInstance_def close_instance_def Let_def split: option.split sum.split prod.split)

lemma close_all_bound:
  "mset (rw_bound (foldl close_instance W addrs)) = mset (rw_bound W) - mset addrs"
  by (induction addrs arbitrary: W) (simp_all add: close_instance_def)

lemma start_all_bound:
  "case start_all R W started insts of
     (W', Inl err) \<Rightarrow> mset (rw_bound W') = mset (rw_bound W) - mset (map rr_addr started)
   | (W', Inr running) \<Rightarrow>
       (\<exists>new. running = started @ new \<and> rw_bound W' = rw_bound W @ map rr_addr new \<and>
          map rr_name new = map fst insts \<and>
          map rr_addr new = map (\<lambda>inst. '':'' @ show_int (ri_port (snd inst))) insts)"
proof (induction insts arbitrary: W started)
  case (Cons inst insts)
  obtain W1 r where W1: "startInstance R W inst = (W1, r)" by force
  show ?case
  proof (cases r)
    case (Inl err)
    with W1 startInstance_bound [where R = R and W = W and inst = inst] show ?thesis
      by (simp add: close_all_bound)
  next
    case (Inr running)
    with W1 startInstance_bound [where R = R and W = W and inst = inst]
    have step: "rw_bound W1 = rw_bound W @ [rr_addr running]" "rr_name running = fst inst"
      "rr_addr running = '':'' @ show_int (ri_port (snd inst))" by simp_all
    from Cons.IH [where W = W1 and started = "started @ [running]"] show ?thesis
      using W1 Inr step by (fastforce split: prod.splits sum.splits)
  qed
qed simp

section \<open>Properties\<close>

text \<open>C39. Starting the Redis endpoints is all or nothing. When one of them cannot start, whether its
  port is taken or its dump cannot be read, every address that was bound on the way is free
  again; otherwise there is one server per configured instance, under its name, and the
  addresses bound are exactly those of the configured ports.\<close>

theorem Start_all_or_nothing:
  "case Start R W insts of
     (W', Inl err) \<Rightarrow> mset (rw_bound W') = mset (rw_bound W)
   | (W', Inr running) \<Rightarrow>
       map rr_name running = map fst insts \<and> rw_bound W' = rw_bound W @ map rr_addr running \<and>
       map rr_addr running = map (\<lambda>inst. '':'' @ show_int (ri_port (snd inst))) insts"
  using start_all_bound [where R = R and W = W and started = "[]" and insts = insts] by (auto simp: Start_def split: prod.splits sum.splits)

text \<open>C40. The statistics of a seeded instance are true: when no string write fails, the number of
  keys is the number of objects of the dump that carry data (empty collections, streams and
  metadata do not count), and the number of databases is the number of distinct databases
  among them.\<close>

theorem seed_statistics:
  assumes "r_dump R path = Inr (objs, None)" and "\<And>s db k v. snd (r_set R s db k v) = None"
  shows "\<exists>stats. snd (snd (seedFromRDB R store path)) = Inr stats \<and>
    st_keys stats = length (filter has_data objs) \<and>
    st_dbs stats = card (o_db ` set (filter has_data objs))"
proof -
  have "seed_inv (done @ objs) (foldl (seed_object R now) s objs)" if "seed_inv done s" for "done" s now
    using that
  proof (induction objs arbitrary: s "done")
    case (Cons obj objs)
    from Cons.IH [OF seed_object_step [OF assms(2) Cons.prems]] show ?case by simp
  qed simp
  from this [of "[]" "start_seeding store" "r_now R"] show ?thesis
    using assms(1) by (simp add: seedFromRDB_def seed_inv_def start_seeding_def Let_def)
qed

definition demo_redis :: "rdb_object list \<Rightarrow> (string \<times> string) list redis_lib" where
  "demo_redis objs =
     \<lparr>r_new = [], r_listen = (\<lambda>bound addr. if addr \<in> set bound then Some ''address in use'' else None),
      r_set = (\<lambda>s db k v. (s @ [(k, v)], None)), r_push = (\<lambda>s db k vs. (s @ [(k, concat vs)], None)),
      r_sadd = (\<lambda>s db k vs. (s @ [(k, concat vs)], None)), r_hset = (\<lambda>s db k vs. s @ [(k, concat vs)]),
      r_zadd = (\<lambda>s db k sc m. (s @ [(k, m)], None)), r_ttl = (\<lambda>s db k d. s),
      r_dump = (\<lambda>path. Inr (objs, None)), r_now = 0\<rparr>"

lemma seed_statistics_witness:
  "let objs = [\<lparr>o_db = 0, o_key = ''k'', o_value = StringObject ''v'', o_expiration = None\<rparr>,
               \<lparr>o_db = 3, o_key = ''e'', o_value = ListObject [], o_expiration = None\<rparr>,
               \<lparr>o_db = 1, o_key = ''l'', o_value = ListObject [''x''], o_expiration = Some 5\<rparr>]
   in \<exists>stats. snd (snd (seedFromRDB (demo_redis objs) [] ''d'')) = Inr stats \<and>
        st_keys stats = 2 \<and> st_dbs stats = 2"
proof -
  let ?objs = "[\<lparr>o_db = 0, o_key = ''k'', o_value = StringObject ''v'', o_expiration = None\<rparr>,
               \<lparr>o_db = 3, o_key = ''e'', o_value = ListObject [], o_expiration = None\<rparr>,
               \<lparr>o_db = 1, o_key = ''l'', o_value = ListObject [''x''], o_expiration = Some 5\<rparr>]"
  have "r_dump (demo_redis ?objs) ''d'' = Inr (?objs, None)"
    and "\<And>s db k v. snd (r_set (demo_redis ?objs) s db k v) = None"
    by (simp_all add: demo_redis_def)
  from seed_statistics [OF this, of "[]"] show ?thesis
    by (simp add: has_data_def Let_def numeral_2_eq_2)
qed

end
