(* ===== verification/Startup.thy ===== *)
theory Startup
  imports Sources Cli RedisServer
begin

text \<open>
  The program's start, file cmd/spoofdb/main.go: which configuration is used, the reset of the
  data file, the engines (one per set of sources, shared by the instances that ask for the
  same set), the Redis endpoints and the SQL listeners. The model of \<open>main\<close> ends where the
  program blocks until it is interrupted, or with the message of \<open>log.Fatal\<close>, after which the
  process is gone. Files, environment variables, sockets and the HUML parser are a parameter.
\<close>

section \<open>Selecting sources\<close>

definition source_of :: "(string \<Rightarrow> string) \<Rightarrow> string \<Rightarrow> config_source \<Rightarrow> source" where
  "source_of getenv name s =
     \<lparr>s_name = name, s_type = cs_type s, s_path = cs_path s, s_dsn = ResolvedDSN getenv s,
      s_tables = cs_tables s\<rparr>"

fun resolve_sources :: "(string \<Rightarrow> string) \<Rightarrow> config \<Rightarrow> string list \<Rightarrow> source list result" where
  "resolve_sources getenv cfg [] = Inr []"
| "resolve_sources getenv cfg (name # names) =
     (case map_of (cf_sources cfg) name of
        None \<Rightarrow> Inl (''unknown source '' @ Quote name)
      | Some s \<Rightarrow>
          (case resolve_sources getenv cfg names of
             Inl err \<Rightarrow> Inl err
           | Inr out \<Rightarrow> Inr (source_of getenv name s # out)))"

definition selectSources :: "(string \<Rightarrow> string) \<Rightarrow> config \<Rightarrow> string list \<Rightarrow> source list result" where
  "selectSources getenv cfg names =
     resolve_sources getenv cfg (sort (if names = [] then map fst (cf_sources cfg) else names))"

definition engineKey :: "source list \<Rightarrow> string" where
  "engineKey srcs =
     (let names = sort (map s_name srcs)
      in if names = [] then ''(none)'' else JoinStr names [CHR 0x00])"

section \<open>The process\<close>

record flags =
  f_source :: "string list"
  f_spoof :: "string list"
  f_config :: string
  f_stub :: bool
  f_persist :: bool
  f_data :: string
  f_reset :: bool

text \<open>
  \<open>os_remove\<close> gets the files removed before, \<open>os_listen\<close> the addresses bound before;
  \<open>os_remove\<close> tells with an error whether it means that there is no such file.
\<close>

record ('w, 's) os_lib =
  os_env :: "'w env"
  os_redis :: "'s redis_lib"
  os_getenv :: "string \<Rightarrow> string"
  os_stat :: "string \<Rightarrow> bool result"
  os_read :: "string \<Rightarrow> string result"
  os_huml :: "string \<Rightarrow> config result"
  os_remove :: "string list \<Rightarrow> string \<Rightarrow> (bool \<times> string) option"
  os_listen :: "string list \<Rightarrow> string \<Rightarrow> string result"

text \<open>
  A listener with the engine it serves. The engine is a pointer in Go; here it is the key
  under which the map \<open>engines\<close> holds it.
\<close>

record listener =
  ln_label :: string
  ln_addr :: string
  ln_key :: string

record 'w main_state =
  m_engines :: "string \<rightharpoonup> 'w engine"
  m_net :: redis_world
  m_shards :: "listener list"
  m_removed :: "string list"

definition start_main :: "'w main_state" where
  "start_main =
     \<lparr>m_engines = Map.empty, m_net = \<lparr>rw_bound = [], rw_log = []\<rparr>, m_shards = [], m_removed = []\<rparr>"

definition main_log :: "'w main_state \<Rightarrow> string \<Rightarrow> 'w main_state" where
  "main_log st line = st\<lparr>m_net := (m_net st)\<lparr>rw_log := rw_log (m_net st) @ [line]\<rparr>\<rparr>"

datatype fate = Fatal string | Running

section \<open>Engines\<close>

definition db_path :: "flags \<Rightarrow> string" where
  "db_path F = (if f_persist F then f_data F else [])"

text \<open>The closure \<open>engineFor\<close>.\<close>

definition engineFor ::
  "('w, 's) os_lib \<Rightarrow> flags \<Rightarrow> config \<Rightarrow> 'w main_state \<Rightarrow> string list \<Rightarrow> 'w main_state \<times> string result" where
  "engineFor L F cfg st srcNames =
     (case selectSources (os_getenv L) cfg srcNames of
        Inl err \<Rightarrow> (st, Inl err)
      | Inr srcs \<Rightarrow>
          (let key = engineKey srcs
           in case m_engines st key of
                Some e \<Rightarrow> (st, Inr key)
              | None \<Rightarrow>
                  (case NewFromSourcesAt (os_env L) (db_path F) srcs of
                     Inl err \<Rightarrow> (st, Inl err)
                   | Inr e \<Rightarrow>
                       (let e' = SetStubMissing e (f_stub F);
                            st' = main_log st (''engine['' @ key @ '']: loaded '' @
                                    show_nat (length (e_tables e')) @ '' table(s): ['' @
                                    JoinStr (e_tables e') '' '' @ '']'')
                        in (st'\<lparr>m_engines := (m_engines st')(key \<mapsto> e')\<rparr>, Inr key)))))"

section \<open>Listeners\<close>

text \<open>The closure \<open>bind\<close>; its error is the message of \<open>log.Fatalf\<close>.\<close>

definition bind_port :: "('w, 's) os_lib \<Rightarrow> 'w main_state \<Rightarrow> string \<Rightarrow> int \<Rightarrow> 'w main_state \<times> go_error" where
  "bind_port L st name port =
     (let addr = '':'' @ show_int port
      in case os_listen L (rw_bound (m_net st)) addr of
           Inl err \<Rightarrow> (st, Some (''spoofdb: '' @ name @ '': '' @ err))
         | Inr local \<Rightarrow>
             (let st1 = st\<lparr>m_net := (m_net st)\<lparr>rw_bound := rw_bound (m_net st) @ [addr]\<rparr>\<rparr>
              in (main_log st1 (name @ '': listening on '' @ local), None)))"

definition label_of :: "string \<Rightarrow> string \<Rightarrow> string" where
  "label_of proto name = proto @ ''['' @ name @ '']''"

text \<open>One turn of the loop of \<open>startShards\<close>. An absent key would be the zero value, with port 0.\<close>

definition start_shard ::
  "('w, 's) os_lib \<Rightarrow> flags \<Rightarrow> config \<Rightarrow> string \<Rightarrow> (string \<times> sql_instance) list \<Rightarrow> 'w main_state \<Rightarrow> string
    \<Rightarrow> 'w main_state \<times> go_error" where
  "start_shard L F cfg proto insts st name =
     (case map_of insts name of
        None \<Rightarrow> (st, None)
      | Some inst \<Rightarrow>
          (if si_port inst = 0 then (st, None)
           else case engineFor L F cfg st (si_sources inst) of
                  (st1, Inl err) \<Rightarrow>
                    (st1, Some (''spoofdb: '' @ proto @ ''['' @ name @ '']: '' @ err))
                | (st1, Inr key) \<Rightarrow>
                    (case bind_port L st1 (label_of proto name) (si_port inst) of
                       (st2, Some err) \<Rightarrow> (st2, Some err)
                     | (st2, None) \<Rightarrow>
                         (st2\<lparr>m_shards := m_shards st2 @
                            [\<lparr>ln_label = label_of proto name, ln_addr = '':'' @ show_int (si_port inst),
                              ln_key = key\<rparr>]\<rparr>, None))))"

definition startShards ::
  "('w, 's) os_lib \<Rightarrow> flags \<Rightarrow> config \<Rightarrow> 'w main_state \<Rightarrow> string \<times> (string \<times> sql_instance) list
    \<Rightarrow> 'w main_state \<times> go_error" where
  "startShards L F cfg st p =
     (case p of (proto, insts) \<Rightarrow>
        each_until_error (start_shard L F cfg proto insts) st (sortedKeys insts))"

section \<open>Main\<close>

definition chosen_config :: "('w, 's) os_lib \<Rightarrow> flags \<Rightarrow> config result" where
  "chosen_config L F =
     (if f_source F \<noteq> [] \<or> f_spoof F \<noteq> [] then configFromFlags (os_stat L) (f_source F) (f_spoof F)
      else Load (os_read L) (os_huml L) (f_config F))"

definition sql_count :: "config \<Rightarrow> nat" where
  "sql_count cfg =
     length (sp_postgres (cf_spoof cfg)) + length (sp_mysql (cf_spoof cfg)) +
     length (sp_clickhouse (cf_spoof cfg))"

definition reset_file :: "('w, 's) os_lib \<Rightarrow> 'w main_state \<Rightarrow> string \<Rightarrow> 'w main_state \<times> go_error" where
  "reset_file L st p =
     (case os_remove L (m_removed st) p of
        Some (False, err) \<Rightarrow> (st, Some (''spoofdb: reset: '' @ err))
      | Some (True, err) \<Rightarrow> (st, None)
      | None \<Rightarrow> (st\<lparr>m_removed := m_removed st @ [p]\<rparr>, None))"

definition reset_data :: "('w, 's) os_lib \<Rightarrow> flags \<Rightarrow> 'w main_state \<Rightarrow> 'w main_state \<times> go_error" where
  "reset_data L F st =
     (if f_reset F \<and> f_persist F then
        (case each_until_error (reset_file L) st [f_data F, f_data F @ ''.wal''] of
           (st1, Some err) \<Rightarrow> (st1, Some err)
         | (st1, None) \<Rightarrow> (main_log st1 (''spoofdb: reset persisted data '' @ Quote (f_data F)), None))
      else (st, None))"

definition protocols :: "config \<Rightarrow> (string \<times> (string \<times> sql_instance) list) list" where
  "protocols cfg =
     [(''pg'', sp_postgres (cf_spoof cfg)), (''mysql'', sp_mysql (cf_spoof cfg)),
      (''clickhouse'', sp_clickhouse (cf_spoof cfg))]"

definition serve_config ::
  "('w, 's) os_lib \<Rightarrow> flags \<Rightarrow> config \<Rightarrow> 'w main_state \<Rightarrow> 'w main_state \<times> 's redis_running list \<times> fate" where
  "serve_config L F cfg st =
     (case Start (os_redis L) (m_net st) (cf_redis cfg) of
        (W, Inl err) \<Rightarrow> (st\<lparr>m_net := W\<rparr>, [], Fatal err)
      | (W, Inr instances) \<Rightarrow>
          (let st1 = st\<lparr>m_net := W\<rparr>
           in if sql_count cfg = 0 \<and> instances = []
              then (st1, instances, Fatal ''spoofdb: no listeners configured'')
              else case each_until_error (startShards L F cfg) st1 (protocols cfg) of
                     (st2, Some err) \<Rightarrow> (st2, instances, Fatal err)
                   | (st2, None) \<Rightarrow>
                       (main_log st2 (''spoofdb: running '' @ show_nat (sql_count cfg) @
                          '' SQL shard(s) + '' @ show_nat (length instances) @ '' redis instance(s)''),
                        instances, Running)))"

definition announce_persist :: "flags \<Rightarrow> 'w main_state \<Rightarrow> 'w main_state" where
  "announce_persist F st =
     (if f_persist F
      then main_log st (''spoofdb: persisting to '' @ Quote (f_data F) @
             '' (use -persist=false for in-memory, -reset to wipe)'')
      else st)"

definition main_run :: "('w, 's) os_lib \<Rightarrow> flags \<Rightarrow> 'w main_state \<times> 's redis_running list \<times> fate" where
  "main_run L F =
     (case chosen_config L F of
        Inl err \<Rightarrow> (start_main, [], Fatal err)
      | Inr cfg \<Rightarrow>
          (case reset_data L F start_main of
             (st, Some err) \<Rightarrow> (st, [], Fatal err)
           | (st, None) \<Rightarrow> serve_config L F cfg (announce_persist F st)))"

section \<open>Source sets and their keys\<close>

lemma resolve_sources_ok:
  "resolve_sources g cfg names = Inr srcs \<longleftrightarrow>
    set names \<subseteq> fst ` set (cf_sources cfg) \<and>
    srcs = map (\<lambda>n. source_of g n (the (map_of (cf_sources cfg) n))) names"
proof (induction names arbitrary: srcs)
  case (Cons n names)
  show ?case
  proof (cases "map_of (cf_sources cfg) n")
    case None
    then have "n \<notin> fst ` set (cf_sources cfg)" by (simp add: map_of_eq_None_iff)
    with None show ?thesis by simp
  next
    case (Some s)
    then have "n \<in> fst ` set (cf_sources cfg)" by (metis domI dom_map_of_conv_image_fst)
    with Some Cons.IH show ?thesis
      by (cases "resolve_sources g cfg names") (auto split: sum.split)
  qed
qed auto

lemma resolve_sources_cong:
  "map_of (cf_sources cfg) = map_of (cf_sources cfg') \<Longrightarrow>
    resolve_sources g cfg names = resolve_sources g cfg' names"
  by (induction names) (simp_all split: option.split)

lemma selected_names:
  assumes "selectSources g cfg names = Inr srcs"
  shows "map s_name srcs = sort (if names = [] then map fst (cf_sources cfg) else names)"
    and "set (map s_name srcs) \<subseteq> fst ` set (cf_sources cfg)"
    and "srcs = map (\<lambda>n. source_of g n (the (map_of (cf_sources cfg) n))) (map s_name srcs)"
proof -
  note sel = assms [unfolded selectSources_def resolve_sources_ok]
  then show names: "map s_name srcs = sort (if names = [] then map fst (cf_sources cfg) else names)"
    by (simp add: source_of_def comp_def)
  from sel show "set (map s_name srcs) \<subseteq> fst ` set (cf_sources cfg)" unfolding names by blast
  from sel show "srcs = map (\<lambda>n. source_of g n (the (map_of (cf_sources cfg) n))) (map s_name srcs)"
    unfolding names by blast
qed

lemma SplitByte_JoinStr:
  "ps \<noteq> [] \<Longrightarrow> \<forall>p \<in> set ps. c \<notin> set p \<Longrightarrow> SplitByte (JoinStr ps [c]) c = ps"
  by (induction ps "[c]" rule: JoinStr.induct) (simp_all add: SplitByte_absent SplitByte_append_absent)

text \<open>Source names without a zero byte, the separator of the keys.\<close>

definition clean_names :: "config \<Rightarrow> bool" where
  "clean_names cfg \<longleftrightarrow> (\<forall>name \<in> fst ` set (cf_sources cfg). CHR 0x00 \<notin> set name)"

lemma engineKey_determines:
  assumes clean: "clean_names cfg"
    and sel: "selectSources g cfg names = Inr srcs" "selectSources g cfg names' = Inr srcs'"
    and key: "engineKey srcs = engineKey srcs'"
  shows "srcs = srcs'"
proof -
  have sorted: "sort (map s_name srcs) = map s_name srcs" "sort (map s_name srcs') = map s_name srcs'"
    unfolding selected_names(1) [OF sel(1)] selected_names(1) [OF sel(2)] by (simp_all add: sort_key_id_if_sorted)
  have none: "cf_sources cfg = []" if "selectSources g cfg ns = Inr []" for ns
    using selected_names(1) [OF that] by (auto split: if_splits dest: arg_cong [of _ _ set])
  have empty: "ss = []" if "cf_sources cfg = []" "selectSources g cfg ns = Inr ss" for ns ss
    using selected_names(2) [OF that(2)] that(1) by simp
  show ?thesis
  proof (cases "srcs = [] \<or> srcs' = []")
    case True
    with none sel empty show ?thesis by blast
  next
    case False
    then have "JoinStr (map s_name srcs) [CHR 0x00] = JoinStr (map s_name srcs') [CHR 0x00]"
      using key by (simp add: engineKey_def sorted Let_def)
    moreover have "SplitByte (JoinStr (map s_name ss) [CHR 0x00]) CHR 0x00 = map s_name ss"
      if "selectSources g cfg ns = Inr ss" "ss \<noteq> []" for ns ss
      using that clean selected_names(2) [OF that(1)] unfolding clean_names_def
      by (intro SplitByte_JoinStr) (simp, blast)
    ultimately have "map s_name srcs = map s_name srcs'"
      using False sel by metis
    then show ?thesis
      using selected_names(3) [OF sel(1)] selected_names(3) [OF sel(2)] by simp
  qed
qed

section \<open>Engines are shared\<close>

definition loaded :: "('w, 's) os_lib \<Rightarrow> flags \<Rightarrow> config \<Rightarrow> string \<Rightarrow> 'w engine \<Rightarrow> bool" where
  "loaded L F cfg key e \<longleftrightarrow>
     (\<exists>names srcs e0. selectSources (os_getenv L) cfg names = Inr srcs \<and> engineKey srcs = key \<and>
        NewFromSourcesAt (os_env L) (db_path F) srcs = Inr e0 \<and> e = SetStubMissing e0 (f_stub F))"

definition engines_loaded :: "('w, 's) os_lib \<Rightarrow> flags \<Rightarrow> config \<Rightarrow> 'w main_state \<Rightarrow> bool" where
  "engines_loaded L F cfg st \<longleftrightarrow> (\<forall>key e. m_engines st key = Some e \<longrightarrow> loaded L F cfg key e)"

text \<open>A listener that serves a configured instance, and the instances that get a listener.\<close>

definition serves ::
  "('w, 's) os_lib \<Rightarrow> flags \<Rightarrow> config \<Rightarrow> (string \<rightharpoonup> 'w engine) \<Rightarrow> string \<times> string \<times> sql_instance \<Rightarrow> listener
    \<Rightarrow> bool" where
  "serves L F cfg engines item ln \<longleftrightarrow>
     (case item of (proto, name, inst) \<Rightarrow>
        \<exists>srcs e. selectSources (os_getenv L) cfg (si_sources inst) = Inr srcs \<and>
          ln = \<lparr>ln_label = label_of proto name, ln_addr = '':'' @ show_int (si_port inst),
                ln_key = engineKey srcs\<rparr> \<and>
          NewFromSourcesAt (os_env L) (db_path F) srcs = Inr e \<and>
          engines (engineKey srcs) = Some (SetStubMissing e (f_stub F)))"

definition shard_item :: "string \<Rightarrow> (string \<times> sql_instance) list \<Rightarrow> string \<Rightarrow> (string \<times> string \<times> sql_instance) list" where
  "shard_item proto insts name =
     (case map_of insts name of
        None \<Rightarrow> []
      | Some inst \<Rightarrow> if si_port inst = 0 then [] else [(proto, name, inst)])"

definition shard_items :: "string \<times> (string \<times> sql_instance) list \<Rightarrow> (string \<times> string \<times> sql_instance) list" where
  "shard_items p = concat (map (shard_item (fst p) (snd p)) (sortedKeys (snd p)))"

definition adds_shards ::
  "('w, 's) os_lib \<Rightarrow> flags \<Rightarrow> config \<Rightarrow> (string \<times> string \<times> sql_instance) list \<Rightarrow> 'w main_state
    \<Rightarrow> 'w main_state \<Rightarrow> bool" where
  "adds_shards L F cfg items st st' \<longleftrightarrow>
     (clean_names cfg \<longrightarrow> engines_loaded L F cfg st \<longrightarrow>
        engines_loaded L F cfg st' \<and> m_engines st \<subseteq>\<^sub>m m_engines st' \<and>
        (\<exists>new. m_shards st' = m_shards st @ new \<and>
           list_all2 (serves L F cfg (m_engines st')) items new \<and>
           dom (m_engines st') = dom (m_engines st) \<union> ln_key ` set new))"

lemma serves_mono:
  "serves L F cfg E item ln \<Longrightarrow> E \<subseteq>\<^sub>m E' \<Longrightarrow> serves L F cfg E' item ln"
  by (force simp: serves_def map_le_def dom_def split: prod.splits)

lemma adds_shards_refl: "adds_shards L F cfg [] st st"
  by (simp add: adds_shards_def)

lemma adds_shards_trans:
  assumes "adds_shards L F cfg xs s s1" and "adds_shards L F cfg ys s1 s2"
  shows "adds_shards L F cfg (xs @ ys) s s2"
  unfolding adds_shards_def
proof (intro impI)
  assume clean: "clean_names cfg" and ok: "engines_loaded L F cfg s"
  with assms(1) clean obtain new1 where 1: "engines_loaded L F cfg s1" "m_engines s \<subseteq>\<^sub>m m_engines s1"
    "m_shards s1 = m_shards s @ new1" "list_all2 (serves L F cfg (m_engines s1)) xs new1"
    "dom (m_engines s1) = dom (m_engines s) \<union> ln_key ` set new1"
    unfolding adds_shards_def by blast
  with assms(2) clean obtain new2 where 2: "engines_loaded L F cfg s2" "m_engines s1 \<subseteq>\<^sub>m m_engines s2"
    "m_shards s2 = m_shards s1 @ new2" "list_all2 (serves L F cfg (m_engines s2)) ys new2"
    "dom (m_engines s2) = dom (m_engines s1) \<union> ln_key ` set new2"
    unfolding adds_shards_def by blast
  have "list_all2 (serves L F cfg (m_engines s2)) xs new1"
    using 1(4) by (rule list_all2_mono) (rule serves_mono [OF _ 2(2)])
  then have "list_all2 (serves L F cfg (m_engines s2)) (xs @ ys) (new1 @ new2)"
    using 2(4) by (rule list_all2_appendI)
  moreover have "m_engines s \<subseteq>\<^sub>m m_engines s2" using 1(2) 2(2) by (rule map_le_trans)
  ultimately show "engines_loaded L F cfg s2 \<and> m_engines s \<subseteq>\<^sub>m m_engines s2 \<and>
    (\<exists>new. m_shards s2 = m_shards s @ new \<and> list_all2 (serves L F cfg (m_engines s2)) (xs @ ys) new \<and>
       dom (m_engines s2) = dom (m_engines s) \<union> ln_key ` set new)"
    using 1 2 by (intro conjI exI [of _ "new1 @ new2"]) auto
qed

lemma engineFor_ok:
  assumes clean: "clean_names cfg" and ok: "engines_loaded L F cfg st"
    and run: "engineFor L F cfg st names = (st1, Inr key)"
  obtains srcs e where "selectSources (os_getenv L) cfg names = Inr srcs" and "key = engineKey srcs"
    and "NewFromSourcesAt (os_env L) (db_path F) srcs = Inr e"
    and "m_engines st1 = (m_engines st)(key \<mapsto> SetStubMissing e (f_stub F))"
    and "m_engines st key \<in> {None, Some (SetStubMissing e (f_stub F))}"
    and "m_shards st1 = m_shards st"
proof -
  obtain srcs where sel: "selectSources (os_getenv L) cfg names = Inr srcs"
    using run by (auto simp: engineFor_def split: sum.splits)
  show ?thesis
  proof (cases "m_engines st (engineKey srcs)")
    case None
    with run sel obtain e where "NewFromSourcesAt (os_env L) (db_path F) srcs = Inr e"
      by (auto simp: engineFor_def Let_def split: sum.splits)
    with that [OF sel] run sel None show ?thesis
      by (auto simp: engineFor_def Let_def main_log_def)
  next
    case (Some e)
    then have st: "st1 = st" "key = engineKey srcs" using run sel by (simp_all add: engineFor_def Let_def)
    from ok Some obtain names' srcs' e0 where "selectSources (os_getenv L) cfg names' = Inr srcs'"
      "engineKey srcs' = engineKey srcs" "NewFromSourcesAt (os_env L) (db_path F) srcs' = Inr e0"
      "e = SetStubMissing e0 (f_stub F)"
      unfolding engines_loaded_def loaded_def by blast
    with engineKey_determines [OF clean] sel have "NewFromSourcesAt (os_env L) (db_path F) srcs = Inr e0"
      by metis
    with that [OF sel] Some st \<open>e = _\<close> show ?thesis by (simp add: fun_upd_idem)
  qed
qed

lemma bind_port_frame:
  assumes "bind_port L st label port = (st', None)"
  shows "m_engines st' = m_engines st" and "m_shards st' = m_shards st"
  using assms by (auto simp: bind_port_def main_log_def Let_def split: sum.splits)

lemma start_shard_adds:
  assumes run: "start_shard L F cfg proto insts st name = (st', None)"
  shows "adds_shards L F cfg (shard_item proto insts name) st st'"
proof (cases "\<exists>inst. map_of insts name = Some inst \<and> si_port inst \<noteq> 0")
  case False
  then have "st' = st" and "shard_item proto insts name = []"
    using run by (auto simp: start_shard_def shard_item_def split: option.splits)
  then show ?thesis by (simp add: adds_shards_refl)
next
  case True
  then obtain inst where inst: "map_of insts name = Some inst" "si_port inst \<noteq> 0" by blast
  obtain st1 key where eng: "engineFor L F cfg st (si_sources inst) = (st1, Inr key)"
    using run inst by (auto simp: start_shard_def split: prod.splits sum.splits)
  let ?ln = "\<lparr>ln_label = label_of proto name, ln_addr = '':'' @ show_int (si_port inst), ln_key = key\<rparr>"
  obtain st2 where st2: "bind_port L st1 (label_of proto name) (si_port inst) = (st2, None)"
    and st': "st' = st2\<lparr>m_shards := m_shards st2 @ [?ln]\<rparr>"
    using run inst eng by (auto simp: start_shard_def split: prod.splits option.splits)
  show ?thesis
    unfolding adds_shards_def
  proof (intro impI)
    assume clean: "clean_names cfg" and ok: "engines_loaded L F cfg st"
    obtain srcs e where sel: "selectSources (os_getenv L) cfg (si_sources inst) = Inr srcs"
      and key: "key = engineKey srcs" and new: "NewFromSourcesAt (os_env L) (db_path F) srcs = Inr e"
      and engines: "m_engines st1 = (m_engines st)(key \<mapsto> SetStubMissing e (f_stub F))"
      and old: "m_engines st key \<in> {None, Some (SetStubMissing e (f_stub F))}"
      and shards: "m_shards st1 = m_shards st"
      by (rule engineFor_ok [OF clean ok eng])
    have engines': "m_engines st' = (m_engines st)(key \<mapsto> SetStubMissing e (f_stub F))"
      using st' bind_port_frame(1) [OF st2] engines by simp
    have "loaded L F cfg key (SetStubMissing e (f_stub F))"
      using sel key new unfolding loaded_def by blast
    then have "engines_loaded L F cfg st'"
      using ok engines' by (simp add: engines_loaded_def)
    moreover have "m_engines st \<subseteq>\<^sub>m m_engines st'"
      using old engines' by (auto simp: map_le_def)
    moreover have "serves L F cfg (m_engines st') (proto, name, inst) ?ln"
      using sel key new engines' by (simp add: serves_def)
    ultimately show "engines_loaded L F cfg st' \<and> m_engines st \<subseteq>\<^sub>m m_engines st' \<and>
      (\<exists>new. m_shards st' = m_shards st @ new \<and>
         list_all2 (serves L F cfg (m_engines st')) (shard_item proto insts name) new \<and>
         dom (m_engines st') = dom (m_engines st) \<union> ln_key ` set new)"
      using st' shards bind_port_frame(2) [OF st2] inst engines'
      by (intro conjI exI [of _ "[?ln]"]) (simp_all add: shard_item_def)
  qed
qed

interpretation shard_loop: traced_loop "start_shard L F cfg proto insts" "adds_shards L F cfg"
    "shard_item proto insts"
  by unfold_locales (rule adds_shards_refl, erule (1) adds_shards_trans, erule start_shard_adds)

interpretation protocol_loop: traced_loop "startShards L F cfg" "adds_shards L F cfg" shard_items
  by unfold_locales
    (auto simp: startShards_def shard_items_def adds_shards_refl adds_shards_trans
      split: prod.splits dest: shard_loop.loop_adds)

lemma reset_data_frame:
  assumes "reset_data L F start_main = (st, err)"
  shows "m_engines st = Map.empty" and "m_shards st = []"
proof -
  have "m_engines (fst (each_until_error (reset_file L) start_main ps)) = Map.empty \<and>
      m_shards (fst (each_until_error (reset_file L) start_main ps)) = []" for ps
    by (rule each_until_error_inv [where P = "\<lambda>st. m_engines st = Map.empty \<and> m_shards st = []"])
      (auto simp: reset_file_def start_main_def split: option.split bool.split)
  note files = this [of "[f_data F, f_data F @ ''.wal'']"]
  show "m_engines st = Map.empty" and "m_shards st = []"
    using assms files by (auto simp: reset_data_def main_log_def start_main_def split: if_splits prod.splits option.splits)
qed

section \<open>Properties\<close>


definition demo_config :: config where
  "demo_config =
     \<lparr>cf_sources = [(''f'', path_source ''parquet'' ''x/users.parquet'')],
      cf_spoof =
        \<lparr>sp_postgres = [(''b'', \<lparr>si_port = 2, si_sources = []\<rparr>), (''a'', \<lparr>si_port = 1, si_sources = [''f'']\<rparr>)],
         sp_mysql = [(''off'', \<lparr>si_port = 0, si_sources = []\<rparr>)], sp_clickhouse = []\<rparr>,
      cf_redis = []\<rparr>"

definition demo_flags :: flags where
  "demo_flags =
     \<lparr>f_source = [], f_spoof = [], f_config = ''c'', f_stub = True, f_persist = True, f_data = ''d'',
      f_reset = True\<rparr>"

definition demo_os :: "(string list, (string \<times> string) list) os_lib" where
  "demo_os =
     \<lparr>os_env = demo_env (\<lambda>s. Inl ''none''), os_redis = demo_redis [], os_getenv = (\<lambda>v. []),
      os_stat = (\<lambda>p. Inl ''none''), os_read = Inr, os_huml = (\<lambda>p. Inr demo_config),
      os_remove = (\<lambda>removed p. if p = ''d'' then None else Some (True, ''none'')),
      os_listen = (\<lambda>bound addr. if addr \<in> set bound then Inl ''in use'' else Inr addr)\<rparr>"

lemma serves_key:
  assumes "serves L F cfg E (proto, name, inst) ln"
  shows "ln_label ln = label_of proto name"
    and "map_sum (\<lambda>e. e) engineKey (selectSources (os_getenv L) cfg (si_sources inst)) = Inr (ln_key ln)"
  using assms by (auto simp: serves_def)


text \<open>C37. The order in which Go visits the map of sources, and the order in which an instance
  names them, do not matter: the selected sources, and with them the tables, the owners of the
  tables and the key of the engine, are the same.\<close>

theorem selectSources_stable:
  assumes "mset (cf_sources cfg) = mset (cf_sources cfg')" and "distinct (map fst (cf_sources cfg))"
    and "mset names = mset names'"
  shows "selectSources getenv cfg names = selectSources getenv cfg' names'"
proof -
  have sorted: "sort xs = sort ys" if "mset xs = mset ys" for xs ys :: "string list"
    using that by (metis sorted_list_of_multiset_mset)
  have "names = [] \<longleftrightarrow> names' = []" using assms(3) by auto
  moreover have "mset (map fst (cf_sources cfg)) = mset (map fst (cf_sources cfg'))"
    using assms(1) by simp
  ultimately have "sort (if names = [] then map fst (cf_sources cfg) else names) =
      sort (if names' = [] then map fst (cf_sources cfg') else names')"
    using assms(3) by (auto intro!: sorted)
  then show ?thesis
    unfolding selectSources_def resolve_sources_cong [OF map_of_order [OF assms(1,2)]] by (rule arg_cong)
qed

lemma selectSources_stable_witness:
  "let cfg = demo_config\<lparr>cf_sources := [(''b'', no_source), (''a'', no_source)]\<rparr>;
       cfg' = demo_config\<lparr>cf_sources := [(''a'', no_source), (''b'', no_source)]\<rparr>
   in selectSources (\<lambda>v. []) cfg [''b'', ''a''] = selectSources (\<lambda>v. []) cfg' [''a'', ''b'']"
  unfolding Let_def by (rule selectSources_stable) (simp_all add: add_mset_commute)

text \<open>An instance that names a source twice has the sources of one that names it once, but its
  own engine, into which the data is loaded again.\<close>

lemma repeated_name_own_engine:
  "engineKey [source_of getenv name s, source_of getenv name s] \<noteq> engineKey [source_of getenv name s]"
  by (simp add: engineKey_def source_of_def Let_def)

end
