(* ===== verification/Spec2Isabelle.thy ===== *)
theory Spec2Isabelle
  imports Serving Startup
begin

text \<open>
  A verification library for spoofdb, a single binary that answers the wire protocols of
  PostgreSQL, MySQL and ClickHouse from an embedded DuckDB, and that of Redis from an embedded
  miniredis.

  \<^bold>\<open>How the program works.\<close> \<open>main\<close> (cmd/spoofdb/main.go) takes a configuration from a file
  or from flags, opens one engine per set of sources, and starts a listener per configured
  instance. An engine (internal/engine) is a DuckDB with the tables of its sources: files become
  views, databases are attached, copied and detached, ClickHouse tables are copied row by row. A
  front end (internal/pg, internal/mysql, internal/clickhouse) turns the messages of a client
  into SQL, runs it on the engine its listener was given, encodes the buffered result for the
  wire and reports every approximation (internal/fidelity). The Redis front end
  (internal/redis) replays a dump into an embedded server per instance.

  \<^bold>\<open>The theories, from the bottom.\<close>

    \<^item> Prelude: results and errors of Go functions, generic lemmas, and the interfaces of the
      library as locales: \<open>first_claim\<close> (loops that claim names), \<open>judged_loop\<close> and
      \<open>traced_loop\<close> (loops that stop at the first error), \<open>inv_machine\<close> and \<open>started_machine\<close>
      (step machines with an invariant). SqlQuote has \<open>sql_quoting\<close>, Engine \<open>query_runner\<close>,
      Fidelity \<open>fidelity_source\<close>. Each is interpreted on the program's own functions.
    \<^item> GoStrings, GoNumbers, GoValues: the parts of Go's standard library the program uses, on
      strings of bytes, integers at their width, times, and the dynamic values of a row; the
      conversions of floating-point numbers are a parameter.
    \<^item> Fidelity: internal/fidelity/fidelity.go.
    \<^item> Engine, Sources: internal/engine/duckdb.go and source\_clickhouse.go. The record \<open>engine\<close>
      is the struct Engine; DuckDB, the file system and the ClickHouse client are the record
      \<open>env\<close>, whose functions take the state of the world and return it changed.
    \<^item> PgSql, PgEncode, Pg: internal/pg. The record \<open>session\<close> is the struct session, one function
      per handler; what a session does to the wire library is the list of its calls.
    \<^item> Mysql: internal/mysql. The record \<open>my_handler\<close> is the struct handler; the commands are those
      that go-mysql dispatches.
    \<^item> ClickHouse, ClickHouseConn: internal/clickhouse: column builders and report, then the
      connection. The decoders of ch-go are a parameter that reads from an abstract input; what
      is written is the list of encoding calls of each write.
    \<^item> Serving: the listeners, and connections of all three protocols interleaved over one engine.
    \<^item> Config, Cli, Startup: internal/config, cmd/spoofdb/cli.go and main.go, up to the point where
      the program waits to be interrupted.
    \<^item> RedisServer: internal/redis.

  \<^bold>\<open>What the properties show.\<close>

    \<^item> PostgreSQL: a session refines an abstract protocol (the inductive relation \<open>pstep\<close>), alone
      and when others use the engine in between; it panics in one case only; one ReadyForQuery
      per request; the skipping mode lasts until Sync; Parse, Bind and Execute run the statement
      once with the bound values, and a bound value can only be one SQL literal. Integers arrive
      as they are or are reported; timestamps arrive exactly within a stated range.
    \<^item> MySQL: a prepared statement is filled placeholder by placeholder, a string argument is one
      literal, SHOW WARNINGS shows the report of the last statement with a result, the values of
      a row are ones the library can encode.
    \<^item> ClickHouse: blocks have the columns and rows they announce, a changed cell is reported, the
      handshake settles on a common revision, a query is answered once and completely, and a
      connection ends on every finite input.
    \<^item> Engine: tables keep the source that claimed them first, whatever is loaded and whatever
      fails; an attached database is detached; names and paths cannot inject SQL; stub mode
      replaces errors of two classes only; each message is logged once; while clients are served
      the engine only answers queries.
    \<^item> Start: the listeners are those configured, and each serves an engine loaded from exactly the
      sources its instance selects, shared by instances with the same selection; the order of
      Go's map iteration does not matter; the flags give the configuration they describe; the
      Redis endpoints start all or not at all.

  \<^bold>\<open>Bounds and fuel.\<close> There is no fuel. Loops over input that may not end are
  \<open>partial_function (option)\<close> (\<open>drainClientData\<close> and \<open>packet_loop\<close>), and are proved to return
  when reading consumes input (\<open>reader_ok\<close>, which holds of every reader over a finite byte
  stream); the other loops are structural or have a measure. Integers of a row keep their Go
  width; allocation is bounded by the address space (\<open>makeslice_ok\<close>).

  \<^bold>\<open>Maps.\<close> A Go map is a partial function where only lookups matter, and an association list
  without duplicate keys where the program iterates: the order of the list is the order of the
  iteration, so statements about all lists are statements about all orders.

  \<^bold>\<open>Not modelled.\<close> The libraries (DuckDB, pgproto3, go-mysql, ch-go, miniredis, the parsers of
  HUML and RDB) are parameters. Left out are: goroutines inside the handling of one message
  (data races on the engine's log map are a finding of reading, not of the model); the sharing
  of one data file by several engines, since each engine has its own world here; timeouts and
  cancellation; the signal that stops the program and the closing of engines and servers
  afterwards; \<open>acceptAuth\<close>, which accepts every user; the accessors that only forward to a
  library (\<open>QueryRow\<close>, \<open>Conn\<close>, \<open>Close\<close>, \<open>Addr\<close>); and the generator of test data. Non-ASCII
  case mapping is modelled as far as comparisons with ASCII text depend on it.
\<close>

end
